(* ===== verification/Prelude.thy ===== *)
theory Prelude imports Complex_Main begin

text \<open>
  Prelude of the development: the errors the C++ code raises, the computation type of
  the interpreter (a state, an exception result, and \<open>None\<close> for a call that does not
  return within the fuel it is given), its combinators and the lemma collections that
  the component theories share.
\<close>

section \<open>Collections\<close>

named_theorems run_simps \<open>one-step evaluation of the combinators on a state\<close>
named_theorems below_intros \<open>monotonicity of the combinators in their recursive calls\<close>

section \<open>Errors\<close>

text \<open>
  One constructor per exception class the code throws (the message text is left out, the
  name that an exception object carries is kept), plus \<open>Out_Of_Range\<close> for the standard
  library's \<open>at\<close>, \<open>Runtime_Error\<close> for a plain \<open>std::runtime_error\<close>, \<open>Invalid_Adv\<close> for the
  classes of the validator, \<open>Kj_Exception\<close> for an exception of Cap'n Proto, \<open>System_Error\<close>
  for one of Boost.Asio, \<open>Thrown_Int\<close> for a thrown \<open>int\<close>, and two outcomes
  that are no C++ exceptions: \<open>Assert_Failed\<close> for a failed \<open>assert\<close> (the build sets no
  \<open>NDEBUG\<close>) and \<open>Undefined\<close> for behaviour the language leaves undefined.
\<close>

datatype error =
    Evaluation_Error
  | Unknown_Reference string
  | Unknown_Variable string
  | No_Convergence
  | Which_Error nat
  | Out_Of_Range
  | Runtime_Error string
  | Invalid_Adv string
  | Kj_Exception
  | System_Error
  | Thrown_Int
  | Assert_Failed
  | Bare_Throw
  | Undefined

type_synonym 'a result = "error + 'a"

fun rbind :: "'a result \<Rightarrow> ('a \<Rightarrow> 'b result) \<Rightarrow> 'b result" where
  "rbind (Inl e) f = Inl e"
| "rbind (Inr x) f = f x"

lemma rbind_Inr_iff: "rbind r f = Inr y \<longleftrightarrow> (\<exists>x. r = Inr x \<and> f x = Inr y)"
  by (cases r) auto

lemma rbind_Inl_iff:
  "rbind r f = Inl e \<longleftrightarrow> r = Inl e \<or> (\<exists>x. r = Inr x \<and> f x = Inl e)"
  by (cases r) auto

fun rmap :: "('a \<Rightarrow> 'b result) \<Rightarrow> 'a list \<Rightarrow> 'b list result" where
  "rmap f [] = Inr []"
| "rmap f (x # xs) = rbind (f x) (\<lambda>y. rbind (rmap f xs) (\<lambda>ys. Inr (y # ys)))"

lemma rmap_length: "rmap f xs = Inr ys \<Longrightarrow> length ys = length xs"
  by (induction xs arbitrary: ys) (auto simp: rbind_Inr_iff)

lemma rmap_Inr: "(\<And>x. x \<in> set xs \<Longrightarrow> f x = Inr (g x)) \<Longrightarrow> rmap f xs = Inr (map g xs)"
  by (induction xs) auto

section \<open>Computations with state, exceptions and fuel\<close>

type_synonym ('s, 'a) comp = "'s \<Rightarrow> ('a result \<times> 's) option"

definition ret :: "'a \<Rightarrow> ('s, 'a) comp" where
  "ret x = (\<lambda>s. Some (Inr x, s))"

definition raise :: "error \<Rightarrow> ('s, 'a) comp" where
  "raise e = (\<lambda>s. Some (Inl e, s))"

definition bnd :: "('s, 'a) comp \<Rightarrow> ('a \<Rightarrow> ('s, 'b) comp) \<Rightarrow> ('s, 'b) comp" where
  "bnd m f = (\<lambda>s. case m s of None \<Rightarrow> None
     | Some (Inl e, t) \<Rightarrow> Some (Inl e, t)
     | Some (Inr x, t) \<Rightarrow> f x t)"

definition get_st :: "('s, 's) comp" where
  "get_st = (\<lambda>s. Some (Inr s, s))"

definition put_st :: "('s \<Rightarrow> 's) \<Rightarrow> ('s, unit) comp" where
  "put_st f = (\<lambda>s. Some (Inr (), f s))"

definition from_result :: "'a result \<Rightarrow> ('s, 'a) comp" where
  "from_result r = (\<lambda>s. Some (r, s))"

definition guard_comp :: "bool \<Rightarrow> error \<Rightarrow> ('s, unit) comp" where
  "guard_comp b e = (if b then ret () else raise e)"

lemma ret_run [run_simps]: "ret x s = Some (Inr x, s)"
  by (simp add: ret_def)

lemma raise_run [run_simps]: "raise e s = Some (Inl e, s)"
  by (simp add: raise_def)

lemma get_st_run [run_simps]: "get_st s = Some (Inr s, s)"
  by (simp add: get_st_def)

lemma put_st_run [run_simps]: "put_st f s = Some (Inr (), f s)"
  by (simp add: put_st_def)

lemma from_result_run [run_simps]: "from_result r s = Some (r, s)"
  by (simp add: from_result_def)

lemma guard_comp_run [run_simps]:
  "guard_comp b e s = (if b then Some (Inr (), s) else Some (Inl e, s))"
  by (simp add: guard_comp_def run_simps)

lemma bnd_run [run_simps]:
  "bnd m f s = (case m s of None \<Rightarrow> None
     | Some (Inl e, t) \<Rightarrow> Some (Inl e, t)
     | Some (Inr x, t) \<Rightarrow> f x t)"
  by (simp add: bnd_def)

lemma bnd_Inr_iff:
  "bnd m f s = Some (Inr y, u) \<longleftrightarrow> (\<exists>x t. m s = Some (Inr x, t) \<and> f x t = Some (Inr y, u))"
  by (auto simp: bnd_def split: option.splits sum.splits)

lemma bnd_None_iff:
  "bnd m f s = None \<longleftrightarrow> m s = None \<or> (\<exists>x t. m s = Some (Inr x, t) \<and> f x t = None)"
  by (auto simp: bnd_def split: option.splits sum.splits)

lemma bnd_Some_iff:
  "bnd m f s = Some (r, u) \<longleftrightarrow>
     (\<exists>e. r = Inl e \<and> m s = Some (Inl e, u))
     \<or> (\<exists>x t. m s = Some (Inr x, t) \<and> f x t = Some (r, u))"
  by (auto simp: bnd_def split: option.splits sum.splits)

fun mapC :: "('a \<Rightarrow> ('s, 'b) comp) \<Rightarrow> 'a list \<Rightarrow> ('s, 'b list) comp" where
  "mapC f [] = ret []"
| "mapC f (x # xs) = bnd (f x) (\<lambda>y. bnd (mapC f xs) (\<lambda>ys. ret (y # ys)))"

fun foldC :: "('a \<Rightarrow> 'b \<Rightarrow> ('s, 'b) comp) \<Rightarrow> 'a list \<Rightarrow> 'b \<Rightarrow> ('s, 'b) comp" where
  "foldC f [] acc = ret acc"
| "foldC f (x # xs) acc = bnd (f x acc) (foldC f xs)"

fun forC :: "('a \<Rightarrow> ('s, unit) comp) \<Rightarrow> 'a list \<Rightarrow> ('s, unit) comp" where
  "forC f [] = ret ()"
| "forC f (x # xs) = bnd (f x) (\<lambda>_. forC f xs)"

text \<open>A loop over a list that stops at the first element whose test fails (\<open>return false\<close>).\<close>

fun allC :: "('a \<Rightarrow> ('s, bool) comp) \<Rightarrow> 'a list \<Rightarrow> ('s, bool) comp" where
  "allC f [] = ret True"
| "allC f (x # xs) = bnd (f x) (\<lambda>b. if b then allC f xs else ret False)"

lemma forC_cong [fundef_cong]:
  "xs = ys \<Longrightarrow> (\<And>x. x \<in> set ys \<Longrightarrow> f x = g x) \<Longrightarrow> forC f xs = forC g ys"
proof (induction xs arbitrary: ys)
  case Nil
  then show ?case by auto
next
  case (Cons x xs)
  then show ?case by auto
qed

lemma mapC_length: "mapC f xs s = Some (Inr ys, t) \<Longrightarrow> length ys = length xs"
  by (induction xs arbitrary: s ys) (auto simp: bnd_Inr_iff ret_def)

section \<open>The order on computations\<close>

text \<open>
  \<open>below m n\<close>: wherever \<open>m\<close> returns (normally or by an exception), \<open>n\<close> returns the same.
  More fuel makes a computation larger in this order; the combinators are monotone.
\<close>

definition below :: "('s, 'a) comp \<Rightarrow> ('s, 'a) comp \<Rightarrow> bool" where
  "below m n \<longleftrightarrow> (\<forall>s r. m s = Some r \<longrightarrow> n s = Some r)"

lemma belowD: "below m n \<Longrightarrow> m s = Some r \<Longrightarrow> n s = Some r"
  unfolding below_def by blast

lemma below_refl [below_intros]: "below m m"
  by (simp add: below_def)

lemma below_bnd [below_intros]:
  assumes "below m m'" and "\<And>x. below (f x) (f' x)"
  shows "below (bnd m f) (bnd m' f')"
  using assms unfolding below_def bnd_def
  by (fastforce split: option.splits sum.splits)

lemma below_if [below_intros]:
  "below m m' \<Longrightarrow> below n n' \<Longrightarrow> below (if b then m else n) (if b then m' else n')"
  by simp

lemma below_mapC [below_intros]:
  assumes "\<And>x. below (f x) (f' x)"
  shows "below (mapC f xs) (mapC f' xs)"
  by (induction xs) (auto intro!: below_intros assms)

lemma below_foldC [below_intros]:
  assumes "\<And>x a. below (f x a) (f' x a)"
  shows "below (foldC f xs acc) (foldC f' xs acc)"
  by (induction xs arbitrary: acc) (auto intro!: below_intros assms)

lemma below_forC [below_intros]:
  assumes "\<And>x. below (f x) (f' x)"
  shows "below (forC f xs) (forC f' xs)"
  by (induction xs) (auto intro!: below_intros assms)

lemma below_allC [below_intros]:
  assumes "\<And>x. below (f x) (f' x)"
  shows "below (allC f xs) (allC f' xs)"
  by (induction xs) (auto intro!: below_intros assms)

section \<open>Generic list and arithmetic facts\<close>

lemma sum_list_map2_Cons:
  "sum_list (map2 f (x # xs) (y # ys)) = f x y + sum_list (map2 f xs ys)"
  by simp

lemma list_all2_iff_nth:
  "list_all2 P xs ys \<longleftrightarrow> length xs = length ys \<and> (\<forall>i < length xs. P (xs ! i) (ys ! i))"
  by (rule list_all2_conv_all_nth)

end
