(* ===== verification/Doubles.thy ===== *)
theory Doubles imports Prelude "HOL-Library.Word" begin

text \<open>
  The C++ type \<open>double\<close>, its operators and the \<open>cmath\<close> functions the code calls.

  A \<open>double\<close> is a not-a-number, one of the two infinities, the negative zero, or \<open>Fin x\<close>
  for a finite value (\<open>Fin 0\<close> is the positive zero). Special values, signed zeros and
  comparisons follow IEEE 754. What C++ leaves to the platform is a parameter of every
  operation, the record \<open>platform\<close>: the rounding function, the functions of the maths
  library that IEEE 754 does not define exactly, and the three operations of the
  third-party library Eigen whose order of evaluation Eigen leaves open.
  The locale \<open>rounding\<close> states what the proofs use of a rounding; \<open>Binary64\<close> interprets it
  on round-to-nearest-even, and it is interpreted below on exact arithmetic.
\<close>

section \<open>Values\<close>

datatype double = Nan | PInf | NInf | NZero | Fin real

fun val :: "double \<Rightarrow> real" where
  "val (Fin x) = x"
| "val _ = 0"

fun signbit :: "double \<Rightarrow> bool" where
  "signbit (Fin x) = (x < 0)"
| "signbit NInf = True"
| "signbit NZero = True"
| "signbit _ = False"

fun is_finite :: "double \<Rightarrow> bool" where
  "is_finite (Fin x) = True"
| "is_finite NZero = True"
| "is_finite _ = False"

fun is_inf :: "double \<Rightarrow> bool" where
  "is_inf PInf = True"
| "is_inf NInf = True"
| "is_inf _ = False"

definition is_zero :: "double \<Rightarrow> bool" where
  "is_zero a \<longleftrightarrow> is_finite a \<and> val a = 0"

definition zero_of :: "bool \<Rightarrow> double" where
  "zero_of s = (if s then NZero else Fin 0)"

definition inf_of :: "bool \<Rightarrow> double" where
  "inf_of s = (if s then NInf else PInf)"

lemma is_finite_iff: "is_finite a \<longleftrightarrow> a \<noteq> Nan \<and> \<not> is_inf a"
  by (cases a) auto

lemma is_zero_simps [simp]:
  "is_zero (Fin x) \<longleftrightarrow> x = 0" "is_zero NZero" "\<not> is_zero Nan" "\<not> is_zero PInf" "\<not> is_zero NInf"
  by (simp_all add: is_zero_def)

lemma zero_of_simps [simp]: "zero_of True = NZero" "zero_of False = Fin 0"
  by (simp_all add: zero_of_def)

lemma inf_of_simps [simp]: "inf_of True = NInf" "inf_of False = PInf"
  by (simp_all add: inf_of_def)

section \<open>The platform\<close>

text \<open>
  \<open>rnd\<close> rounds an exact result to a \<open>double\<close>. \<open>m_exp\<close> to \<open>m_pow\<close> are the functions of
  the maths library. \<open>e_sum\<close> is Eigen's \<open>sum()\<close> reduction, \<open>e_isApprox\<close> its \<open>isApprox\<close>
  and \<open>e_normalized\<close> its \<open>normalized()\<close>, all on vectors.
\<close>

record platform =
  rnd :: "real \<Rightarrow> double"
  m_exp :: "double \<Rightarrow> double"
  m_sin :: "double \<Rightarrow> double"
  m_cos :: "double \<Rightarrow> double"
  m_tan :: "double \<Rightarrow> double"
  m_log :: "double \<Rightarrow> double"
  m_log10 :: "double \<Rightarrow> double"
  m_pow :: "double \<Rightarrow> double \<Rightarrow> double"
  e_sum :: "double list \<Rightarrow> double"
  e_isApprox :: "double list \<Rightarrow> double list \<Rightarrow> bool"
  e_normalized :: "double list \<Rightarrow> double list"

section \<open>Arithmetic\<close>

fun dneg :: "double \<Rightarrow> double" where
  "dneg Nan = Nan"
| "dneg PInf = NInf"
| "dneg NInf = PInf"
| "dneg NZero = Fin 0"
| "dneg (Fin x) = (if x = 0 then NZero else Fin (- x))"

definition dadd :: "platform \<Rightarrow> double \<Rightarrow> double \<Rightarrow> double" where
  "dadd M a b =
     (if a = Nan \<or> b = Nan then Nan
      else if is_inf a then (if is_inf b \<and> b \<noteq> a then Nan else a)
      else if is_inf b then b
      else if val a + val b = 0 then zero_of (signbit a \<and> signbit b)
      else rnd M (val a + val b))"

definition dsub :: "platform \<Rightarrow> double \<Rightarrow> double \<Rightarrow> double" where
  "dsub M a b = dadd M a (dneg b)"

definition dmul :: "platform \<Rightarrow> double \<Rightarrow> double \<Rightarrow> double" where
  "dmul M a b =
     (if a = Nan \<or> b = Nan then Nan
      else if is_inf a \<or> is_inf b
        then (if is_zero a \<or> is_zero b then Nan else inf_of (signbit a \<noteq> signbit b))
      else if val a * val b = 0 then zero_of (signbit a \<noteq> signbit b)
      else rnd M (val a * val b))"

definition ddiv :: "platform \<Rightarrow> double \<Rightarrow> double \<Rightarrow> double" where
  "ddiv M a b =
     (if a = Nan \<or> b = Nan then Nan
      else if is_inf a then (if is_inf b then Nan else inf_of (signbit a \<noteq> signbit b))
      else if is_inf b then zero_of (signbit a \<noteq> signbit b)
      else if is_zero b then (if is_zero a then Nan else inf_of (signbit a \<noteq> signbit b))
      else if is_zero a then zero_of (signbit a \<noteq> signbit b)
      else rnd M (val a / val b))"

section \<open>Comparisons\<close>

definition dlt :: "double \<Rightarrow> double \<Rightarrow> bool" where
  "dlt a b =
     (if a = Nan \<or> b = Nan then False
      else if a = NInf then b \<noteq> NInf
      else if b = PInf then a \<noteq> PInf
      else if a = PInf \<or> b = NInf then False
      else val a < val b)"

definition deq :: "double \<Rightarrow> double \<Rightarrow> bool" where
  "deq a b =
     (if a = Nan \<or> b = Nan then False
      else if is_inf a \<or> is_inf b then a = b
      else val a = val b)"

definition dle :: "double \<Rightarrow> double \<Rightarrow> bool" where
  "dle a b \<longleftrightarrow> dlt a b \<or> deq a b"

text \<open>\<open>std::min(a,b)\<close> is \<open>(b < a) ? b : a\<close> and \<open>std::max(a,b)\<close> is \<open>(a < b) ? b : a\<close>.\<close>

definition dmin :: "double \<Rightarrow> double \<Rightarrow> double" where
  "dmin a b = (if dlt b a then b else a)"

definition dmax :: "double \<Rightarrow> double \<Rightarrow> double" where
  "dmax a b = (if dlt a b then b else a)"

section \<open>Functions of cmath that are exact\<close>

fun dabs :: "double \<Rightarrow> double" where
  "dabs Nan = Nan"
| "dabs PInf = PInf"
| "dabs NInf = PInf"
| "dabs NZero = Fin 0"
| "dabs (Fin x) = Fin \<bar>x\<bar>"

text \<open>An integral result keeps the sign of the argument when it is zero.\<close>

definition integral :: "bool \<Rightarrow> int \<Rightarrow> double" where
  "integral s i = (if i = 0 then zero_of s else Fin (of_int i))"

fun dfloor :: "double \<Rightarrow> double" where
  "dfloor (Fin x) = integral False \<lfloor>x\<rfloor>"
| "dfloor a = a"

fun dceil :: "double \<Rightarrow> double" where
  "dceil (Fin x) = integral (x < 0) \<lceil>x\<rceil>"
| "dceil a = a"

text \<open>\<open>std::round\<close> rounds halfway cases away from zero.\<close>

definition round_away :: "real \<Rightarrow> int" where
  "round_away x = (if 0 \<le> x then \<lfloor>x + 1/2\<rfloor> else \<lceil>x - 1/2\<rceil>)"

fun dround :: "double \<Rightarrow> double" where
  "dround (Fin x) = integral (x < 0) (round_away x)"
| "dround a = a"

fun dsqrt :: "platform \<Rightarrow> double \<Rightarrow> double" where
  "dsqrt M (Fin x) = (if x < 0 then Nan else if x = 0 then Fin 0 else rnd M (sqrt x))"
| "dsqrt M NInf = Nan"
| "dsqrt M a = a"

definition trunc_real :: "real \<Rightarrow> int" where
  "trunc_real x = (if 0 \<le> x then \<lfloor>x\<rfloor> else \<lceil>x\<rceil>)"

definition dfmod :: "double \<Rightarrow> double \<Rightarrow> double" where
  "dfmod a b =
     (if a = Nan \<or> b = Nan \<or> is_inf a \<or> is_zero b then Nan
      else if is_inf b then a
      else let r = val a - of_int (trunc_real (val a / val b)) * val b
           in if r = 0 then zero_of (signbit a) else Fin r)"

section \<open>Conversions\<close>

definition of_i :: "int \<Rightarrow> double" where
  "of_i i = Fin (of_int i)"

text \<open>
  \<open>static_cast<int>\<close> truncates; the result is undefined when it does not fit \<open>int\<close>.
\<close>

definition to_int :: "double \<Rightarrow> int result" where
  "to_int a =
     (if is_finite a \<and> - (2 ^ 31) \<le> trunc_real (val a) \<and> trunc_real (val a) < 2 ^ 31
      then Inr (trunc_real (val a)) else Inl Undefined)"

text \<open>
  The template \<open>sgn\<close> of the interpreter: \<open>(T(0) < val) - (val < T(0))\<close>, an \<open>int\<close>.
\<close>

definition sgn_int :: "double \<Rightarrow> int" where
  "sgn_int a = (if dlt (Fin 0) a then 1 else 0) - (if dlt a (Fin 0) then 1 else 0)"

end
