(* ===== verification/Schema.thy ===== *)
theory Schema imports Doubles begin

text \<open>
  The message format of \<open>commelec-api/schema.capnp\<close>. A value of these types is what a
  Cap'n Proto reader of the C++ code sees: the union tag and the fields of a struct; a
  \<open>name\<close> is \<open>None\<close> when the text pointer is null (\<open>hasName()\<close> is false). A null struct
  pointer reads as the default value, whose union tag is the first one:
  \<open>default_real\<close>, \<open>default_set\<close>.
\<close>

section \<open>Real expressions and set expressions\<close>

datatype unary_op =
    OpNegate | OpAbs | OpSign | OpMultInv | OpSquare | OpSqrt | OpSin | OpCos | OpTan
  | OpExp | OpLn | OpLog10 | OpRound | OpFloor | OpCeil

datatype binary_op =
    OpSum | OpProd | OpPow | OpMin | OpMax | OpLessEqThan | OpGreaterThan

datatype list_op = ListSum | ListProd

record sparse_coeff =
  offset :: "32 word"
  coeff_value :: double

record polynomial =
  poly_variables :: "string list"
  maxVarDegree :: "8 word"
  coefficients :: "sparse_coeff list"

datatype real_expr = RealExpr (re_name: "string option") (re_body: real_body)
and real_body =
    Real double
  | Polynomial polynomial
  | UnaryOperation unary_op real_expr
  | BinaryOperation binary_op real_expr real_expr
  | ListOperation list_op "real_expr list"
  | CaseDistinction "string list" "(set_expr \<times> real_expr) list"
  | Reference string
  | Variable string
and set_expr = SetExpr (se_name: "string option") (se_body: set_body)
and set_body =
    Singleton "real_expr list"
  | Ball "real_expr list" real_expr
  | Rectangle "(real_expr \<times> real_expr) list"
  | ConvexPolytope "real_expr list list" "real_expr list"
  | Intersection "set_expr list"
  | SetCaseDistinction "string list" "(set_expr \<times> set_expr) list"
  | SetReference string

definition default_real :: real_expr where
  "default_real = RealExpr None (Real (Fin 0))"

definition default_set :: set_expr where
  "default_set = SetExpr None (Singleton [])"

text \<open>The union discriminant (\<open>which()\<close>) of a set expression, the order of the schema.\<close>

fun which_set :: "set_body \<Rightarrow> nat" where
  "which_set (Singleton _) = 0"
| "which_set (Ball _ _) = 1"
| "which_set (Rectangle _) = 2"
| "which_set (ConvexPolytope _ _) = 3"
| "which_set (Intersection _) = 4"
| "which_set (SetCaseDistinction _ _) = 5"
| "which_set (SetReference _) = 6"

section \<open>Messages\<close>

text \<open>
  The pointer fields of an advertisement are \<open>None\<close> when null (the \<open>has...()\<close> calls of
  the code); the list of the implemented setpoint reads as empty when null. A request's
  setpoint is kept as a possibly null list because the code asks \<open>hasSetpoint()\<close>.
\<close>

record advertisement =
  pQProfile :: "set_expr option"
  beliefFunction :: "set_expr option"
  costFunction :: "real_expr option"
  implementedSetpoint :: "double list"

record request =
  setpoint :: "double list option"

datatype message_body = Request_Msg "request option" | Advertisement_Msg "advertisement option"

record message =
  agentId :: "32 word"
  body :: message_body

definition empty_adv :: advertisement where
  "empty_adv = \<lparr> pQProfile = None, beliefFunction = None, costFunction = None,
     implementedSetpoint = [] \<rparr>"

definition get_pq_profile :: "advertisement \<Rightarrow> set_expr" where
  "get_pq_profile adv = (case pQProfile adv of None \<Rightarrow> default_set | Some s \<Rightarrow> s)"

definition get_belief_function :: "advertisement \<Rightarrow> set_expr" where
  "get_belief_function adv = (case beliefFunction adv of None \<Rightarrow> default_set | Some s \<Rightarrow> s)"

definition get_cost_function :: "advertisement \<Rightarrow> real_expr" where
  "get_cost_function adv = (case costFunction adv of None \<Rightarrow> default_real | Some e \<Rightarrow> e)"

section \<open>Builders\<close>

text \<open>Unnamed expressions, as \<open>setReal\<close>, \<open>setVariable\<close> and the \<open>init\<close> calls build them.\<close>

abbreviation real_lit :: "double \<Rightarrow> real_expr" where
  "real_lit x \<equiv> RealExpr None (Real x)"

abbreviation var_ref :: "string \<Rightarrow> real_expr" where
  "var_ref v \<equiv> RealExpr None (Variable v)"

abbreviation set_of_body :: "set_body \<Rightarrow> set_expr" where
  "set_of_body b \<equiv> SetExpr None b"

end
