(* ===== verification/Interp_State.thy ===== *)
theory Interp_State imports Schema begin

text \<open>
  The state of the interpreter class \<open>AdvFunc\<close> (\<open>commelec-interpreter/adv-interpreter.hpp\<close>),
  its entry guards, and \<open>findReferences\<close> (\<open>adv-interpreter.cpp\<close>), which fills the maps
  from names to the expressions they refer to.
\<close>

section \<open>State\<close>

type_synonym value_map = "string \<Rightarrow> double option"

record advfunc =
  nesting_depth :: int
  real_refs :: "string \<Rightarrow> real_expr option"
  set_refs :: "string \<Rightarrow> set_expr option"
  adv :: advertisement
  adv_valid :: bool
  bound_vars :: value_map

type_synonym 'a interp = "(advfunc, 'a) comp"

definition MAX_NESTING_DEPTH :: int where
  "MAX_NESTING_DEPTH = 10000"

definition new_advfunc :: advfunc where
  "new_advfunc = \<lparr> nesting_depth = 0, real_refs = Map.empty, set_refs = Map.empty,
     adv = empty_adv, adv_valid = False, bound_vars = Map.empty \<rparr>"

text \<open>
  The prologue of every method that takes a \<open>RealExpr\<close>: count the call, throw beyond the
  limit. The counter is never decremented, so it counts calls, not depth.
\<close>

definition enter_real :: "unit interp" where
  "enter_real = (\<lambda>s. let d = nesting_depth s + 1; t = s\<lparr>nesting_depth := d\<rparr> in
     if d > MAX_NESTING_DEPTH then Some (Inl Evaluation_Error, t) else Some (Inr (), t))"

text \<open>
  The prologue of \<open>membership\<close> and \<open>proj\<close> on a \<open>SetExpr\<close>: the \<open>throw\<close> is commented out in
  the source, a message is printed and the counter restarts at zero.
\<close>

definition enter_set :: "unit interp" where
  "enter_set = (\<lambda>s. let d = nesting_depth s + 1 in
     Some (Inr (), s\<lparr>nesting_depth := (if d > MAX_NESTING_DEPTH then 0 else d)\<rparr>))"

lemma enter_real_run [run_simps]:
  "enter_real s = (if nesting_depth s \<ge> 10000
     then Some (Inl Evaluation_Error, s\<lparr>nesting_depth := nesting_depth s + 1\<rparr>)
     else Some (Inr (), s\<lparr>nesting_depth := nesting_depth s + 1\<rparr>))"
  by (simp add: enter_real_def MAX_NESTING_DEPTH_def Let_def)

lemma enter_set_run [run_simps]:
  "enter_set s = Some (Inr (),
     s\<lparr>nesting_depth := (if nesting_depth s \<ge> 10000 then 0 else nesting_depth s + 1)\<rparr>)"
  by (simp add: enter_set_def MAX_NESTING_DEPTH_def Let_def)

section \<open>findReferences\<close>

definition record_real :: "real_expr \<Rightarrow> unit interp" where
  "record_real e = (case re_name e of None \<Rightarrow> ret ()
     | Some nm \<Rightarrow> put_st (\<lambda>s. s\<lparr>real_refs := (real_refs s)(nm \<mapsto> e)\<rparr>))"

definition record_set :: "set_expr \<Rightarrow> unit interp" where
  "record_set e = (case se_name e of None \<Rightarrow> ret ()
     | Some nm \<Rightarrow> put_st (\<lambda>s. s\<lparr>set_refs := (set_refs s)(nm \<mapsto> e)\<rparr>))"

text \<open>The counter of \<open>findReferences\<close> on a set expression throws, unlike membership's.\<close>

function find_refs_real :: "real_expr \<Rightarrow> unit interp"
  and find_refs_real_body :: "real_body \<Rightarrow> unit interp"
  and find_refs_set :: "set_expr \<Rightarrow> unit interp"
  and find_refs_set_body :: "set_body \<Rightarrow> unit interp" where
  "find_refs_real (RealExpr nm b) =
     bnd enter_real (\<lambda>_. bnd (record_real (RealExpr nm b)) (\<lambda>_. find_refs_real_body b))"
| "find_refs_real_body (UnaryOperation op a) = find_refs_real a"
| "find_refs_real_body (BinaryOperation op a b) =
     bnd (find_refs_real a) (\<lambda>_. find_refs_real b)"
| "find_refs_real_body (ListOperation op es) = forC find_refs_real es"
| "find_refs_real_body (CaseDistinction vs cs) =
     forC (\<lambda>(st, e). bnd (find_refs_set st) (\<lambda>_. find_refs_real e)) cs"
| "find_refs_real_body (Real x) = ret ()"
| "find_refs_real_body (Polynomial p) = ret ()"
| "find_refs_real_body (Reference r) = ret ()"
| "find_refs_real_body (Variable v) = ret ()"
| "find_refs_set (SetExpr nm b) =
     bnd enter_real (\<lambda>_. bnd (record_set (SetExpr nm b)) (\<lambda>_. find_refs_set_body b))"
| "find_refs_set_body (Singleton es) = forC find_refs_real es"
| "find_refs_set_body (Ball cs r) =
     bnd (forC find_refs_real cs) (\<lambda>_. find_refs_real r)"
| "find_refs_set_body (Rectangle bs) =
     forC (\<lambda>(a, b). bnd (find_refs_real a) (\<lambda>_. find_refs_real b)) bs"
| "find_refs_set_body (ConvexPolytope rows bs) =
     bnd (forC (\<lambda>row. forC find_refs_real row) rows) (\<lambda>_. forC find_refs_real bs)"
| "find_refs_set_body (Intersection ss) = forC find_refs_set ss"
| "find_refs_set_body (SetCaseDistinction vs cs) =
     forC (\<lambda>(st, e). bnd (find_refs_set st) (\<lambda>_. find_refs_set e)) cs"
| "find_refs_set_body (SetReference r) = ret ()"
  by pat_completeness auto
termination
  by lexicographic_order

end
