(* ===== verification/Matrix.thy ===== *)
theory Matrix imports Schema begin

text \<open>
  \<open>commelec-api/mathfunctions.cpp\<close> and \<open>polytope-convenience.cpp\<close>: the dimension check on
  a matrix of the message format (row-major, a list of rows), and the conversion of dense
  matrices and vectors into literal expressions.
\<close>

section \<open>Dimensions\<close>

text \<open>
  The \<open>std::set\<close> of the row lengths is the list of the distinct lengths; the matrix is in
  error unless there is exactly one.
\<close>

definition check_capnp_matrix :: "'a list list \<Rightarrow> bool \<times> int \<times> int" where
  "check_capnp_matrix matrix =
     (let rows = int (length matrix);
          col_sizes_set = remdups (map length matrix);
          cols = (case col_sizes_set of [] \<Rightarrow> 0 | c # cs \<Rightarrow> int (fold max cs c))
      in (length col_sizes_set \<noteq> 1, rows, cols))"

definition rectangular :: "'a list list \<Rightarrow> nat \<Rightarrow> bool" where
  "rectangular mx c \<longleftrightarrow> mx \<noteq> [] \<and> (\<forall>row \<in> set mx. length row = c)"

lemma remdups_singleton_iff: "remdups xs = [c] \<longleftrightarrow> xs \<noteq> [] \<and> (\<forall>x \<in> set xs. x = c)"
proof
  assume "remdups xs = [c]"
  then have "set xs = {c}" by (metis set_remdups list.simps(15) empty_set)
  then show "xs \<noteq> [] \<and> (\<forall>x \<in> set xs. x = c)" by auto
next
  assume "xs \<noteq> [] \<and> (\<forall>x \<in> set xs. x = c)"
  then have "set xs = {c}" by (cases xs) auto
  then have "set (remdups xs) = {c}" "length (remdups xs) = 1"
    by (simp_all add: length_remdups_card_conv)
  then show "remdups xs = [c]" by (cases "remdups xs") auto
qed

lemma check_capnp_matrix_ok:
  "rectangular mx c \<Longrightarrow> check_capnp_matrix mx = (False, int (length mx), int c)"
proof -
  assume "rectangular mx c"
  then have "remdups (map length mx) = [c]"
    by (auto simp: rectangular_def remdups_singleton_iff)
  then show ?thesis by (simp add: check_capnp_matrix_def)
qed

lemma check_capnp_matrix_error_iff:
  "fst (check_capnp_matrix mx) \<longleftrightarrow> (\<nexists>c. rectangular mx c)"
proof -
  have "length (remdups (map length mx)) = 1 \<longleftrightarrow> (\<exists>c. remdups (map length mx) = [c])"
    by (auto simp: length_Suc_conv)
  then show ?thesis
    by (auto simp: check_capnp_matrix_def rectangular_def remdups_singleton_iff Let_def)
qed

section \<open>From dense matrices\<close>

definition init_matrix :: "double list list \<Rightarrow> real_expr list list" where
  "init_matrix mat = map (map real_lit) mat"

definition init_vector :: "double list \<Rightarrow> real_expr list" where
  "init_vector v = map real_lit v"

text \<open>\<open>buildConvexPolytope\<close>: the assertion on the number of rows, then both conversions.\<close>

definition build_convex_polytope :: "double list list \<Rightarrow> double list \<Rightarrow> set_body result" where
  "build_convex_polytope mat b =
     (if length mat = length b then Inr (ConvexPolytope (init_matrix mat) (init_vector b))
      else Inl Assert_Failed)"

lemma rectangular_init_matrix: "rectangular mat c \<Longrightarrow> rectangular (init_matrix mat) c"
  by (auto simp: rectangular_def init_matrix_def)

end
