(* ===== verification/Rounding.thy ===== *)
theory Rounding imports Doubles begin

text \<open>
  What the proofs use of floating-point arithmetic: order facts about \<open>double\<close>s, the
  locale \<open>rounding\<close> (a monotone, symmetric, idempotent rounding that keeps every dyadic
  number of binary64 precision), the locale \<open>platform_laws\<close> (documented behaviour of the
  maths library and of Eigen), and their interpretation on exact arithmetic.
\<close>

section \<open>Order facts\<close>

lemma dle_Fin [simp]: "dle (Fin x) (Fin y) \<longleftrightarrow> x \<le> y"
  by (auto simp: dle_def dlt_def deq_def)

lemma dlt_Fin [simp]: "dlt (Fin x) (Fin y) \<longleftrightarrow> x < y"
  by (auto simp: dlt_def)

lemma deq_Fin [simp]: "deq (Fin x) (Fin y) \<longleftrightarrow> x = y"
  by (auto simp: deq_def)

lemma dle_finite: "is_finite a \<Longrightarrow> is_finite b \<Longrightarrow> dle a b \<longleftrightarrow> val a \<le> val b"
  by (cases a; cases b) (auto simp: dle_def dlt_def deq_def)

lemma dlt_finite: "is_finite a \<Longrightarrow> is_finite b \<Longrightarrow> dlt a b \<longleftrightarrow> val a < val b"
  by (cases a; cases b) (auto simp: dlt_def)

lemma dle_nn: "dle a b \<Longrightarrow> a \<noteq> Nan \<and> b \<noteq> Nan"
  by (auto simp: dle_def dlt_def deq_def split: if_splits)

lemma dle_refl: "a \<noteq> Nan \<Longrightarrow> dle a a"
  by (auto simp: dle_def deq_def)

lemma dle_trans: "dle a b \<Longrightarrow> dle b c \<Longrightarrow> dle a c"
  by (cases a; cases b; cases c) (auto simp: dle_def dlt_def deq_def)

lemma not_dlt: "a \<noteq> Nan \<Longrightarrow> b \<noteq> Nan \<Longrightarrow> \<not> dlt a b \<longleftrightarrow> dle b a"
  by (cases a; cases b) (auto simp: dle_def dlt_def deq_def)

lemma not_dle: "a \<noteq> Nan \<Longrightarrow> b \<noteq> Nan \<Longrightarrow> \<not> dle a b \<longleftrightarrow> dlt b a"
  by (cases a; cases b) (auto simp: dle_def dlt_def deq_def)

lemma dlt_imp_dle: "dlt a b \<Longrightarrow> dle a b"
  by (simp add: dle_def)

lemma dlt_irrefl [simp]: "\<not> dlt a a"
  by (auto simp: dlt_def)

lemma dle_Nan [simp]: "\<not> dle Nan a" "\<not> dle a Nan" "\<not> dlt Nan a" "\<not> dlt a Nan"
  by (auto simp: dle_def dlt_def deq_def)

lemma dle_PInf [simp]: "dle a PInf \<longleftrightarrow> a \<noteq> Nan" "dle NInf a \<longleftrightarrow> a \<noteq> Nan"
  by (cases a; auto simp: dle_def dlt_def deq_def)+

lemma dlt_inf_Fin [simp]:
  "dlt NInf (Fin x)" "\<not> dlt (Fin x) NInf" "dlt (Fin x) PInf" "\<not> dlt PInf (Fin x)" "dlt NInf PInf"
  "\<not> dlt PInf NInf" "\<not> dle (Fin x) NInf" "\<not> dle PInf (Fin x)"
  by (auto simp: dlt_def dle_def deq_def)

lemma nonneg_iff: "dle (Fin 0) a \<longleftrightarrow> a = PInf \<or> a = NZero \<or> (\<exists>x. 0 \<le> x \<and> a = Fin x)"
  by (cases a) (auto simp: dle_def deq_def dlt_def)

lemma dneg_dneg [simp]: "dneg (dneg a) = a"
  by (cases a) auto

lemma dneg_finite [simp]: "is_finite (dneg a) = is_finite a" "val (dneg a) = - val a"
  by (cases a; auto)+

lemma dneg_Nan_iff [simp]: "dneg a = Nan \<longleftrightarrow> a = Nan"
  by (cases a) auto

lemma dneg_anti: "dle a b \<Longrightarrow> dle (dneg b) (dneg a)"
  by (cases a; cases b) (auto simp: dle_def dlt_def deq_def)

lemma dmin_le_dmax: "a \<noteq> Nan \<Longrightarrow> b \<noteq> Nan \<Longrightarrow> dle (dmin a b) (dmax a b)"
  by (cases a; cases b) (auto simp: dmin_def dmax_def dle_def dlt_def deq_def)

lemma dmin_dmax_nn: "a \<noteq> Nan \<Longrightarrow> b \<noteq> Nan \<Longrightarrow> dmin a b \<noteq> Nan \<and> dmax a b \<noteq> Nan"
  by (simp add: dmin_def dmax_def)

section \<open>Rounding\<close>

locale rounding =
  fixes r :: "real \<Rightarrow> double"
  assumes r_mono: "x \<le> y \<Longrightarrow> dle (r x) (r y)"
    and r_dyadic: "\<bar>m\<bar> \<le> 2 ^ 53 \<Longrightarrow> - 1074 \<le> e \<Longrightarrow> e \<le> 970 \<Longrightarrow>
      r (of_int m * 2 powi e) = Fin (of_int m * 2 powi e)"
    and r_neg: "x \<noteq> 0 \<Longrightarrow> r (- x) = dneg (r x)"
    and r_idem: "r x = Fin y \<Longrightarrow> r y = Fin y"
begin

lemma r_not_nan: "r x \<noteq> Nan"
  using r_mono [of x x] dle_nn by auto

lemma r_int: "\<bar>m\<bar> \<le> 2 ^ 53 \<Longrightarrow> r (of_int m) = Fin (of_int m)"
  using r_dyadic [of m 0] by simp

lemma r_0: "r 0 = Fin 0" and r_1: "r 1 = Fin 1"
  using r_int [of 0] r_int [of 1] by simp_all

lemma r_numeral:
  assumes "numeral w \<le> (2 ^ 53 :: int)"
  shows "r (numeral w) = Fin (numeral w)" and "r (- numeral w) = Fin (- numeral w)"
  using r_int [of "numeral w"] r_int [of "- numeral w"] assms by simp_all

lemma r_half: "r (1/2) = Fin (1/2)"
  using r_dyadic [of 1 "-1"] by (simp add: power_int_minus)

lemma r_nonneg: "0 \<le> x \<Longrightarrow> dle (Fin 0) (r x)"
  using r_mono [of 0 x] by (simp add: r_0)

lemma r_nonpos: "x \<le> 0 \<Longrightarrow> dle (r x) (Fin 0)"
  using r_mono [of x 0] by (simp add: r_0)

lemma r_le_fixed: "r y = Fin y \<Longrightarrow> x \<le> y \<Longrightarrow> dle (r x) (Fin y)"
  using r_mono [of x y] by simp

lemma r_ge_fixed: "r y = Fin y \<Longrightarrow> y \<le> x \<Longrightarrow> dle (Fin y) (r x)"
  using r_mono [of y x] by simp

end

lemma rounding_dmul_self_nonneg:
  "rounding (rnd M) \<Longrightarrow> a \<noteq> Nan \<Longrightarrow> dle (Fin 0) (dmul M a a)"
  by (cases a) (auto simp: dmul_def zero_of_def inf_of_def rounding.r_nonneg)

lemma rounding_dmul_pos_nonneg:
  "rounding (rnd M) \<Longrightarrow> dlt (Fin 0) a \<Longrightarrow> is_finite a \<Longrightarrow> dle (Fin 0) b \<Longrightarrow>
     dle (Fin 0) (dmul M a b)"
  by (cases a; cases b)
    (auto simp: dmul_def zero_of_def inf_of_def rounding.r_nonneg nonneg_iff [of NZero] dlt_def [of _ NZero])

lemma rounding_dadd_nonneg:
  assumes "rounding (rnd M)" and "dle (Fin 0) a" and "dle (Fin 0) b"
  shows "dle (Fin 0) (dadd M a b)"
proof -
  have "dle (Fin 0) (rnd M (x + y))" if "0 \<le> x" and "0 \<le> y" for x y
    using that by (intro rounding.r_nonneg [OF assms(1)]) simp
  moreover have "dle (Fin 0) NZero" and "dle (Fin 0) PInf"
    by (simp_all add: nonneg_iff)
  ultimately show ?thesis using assms(2,3)
    by (cases a; cases b)
      (auto simp: dadd_def zero_of_def rounding.r_nonneg [OF assms(1)] dle_def [of _ NInf] deq_def)
qed

definition representable :: "platform \<Rightarrow> double \<Rightarrow> bool" where
  "representable M a \<longleftrightarrow> (case a of Fin x \<Rightarrow> rnd M x = Fin x | _ \<Rightarrow> True)"

lemma representable_simps [simp]:
  "representable M Nan" "representable M PInf" "representable M NInf" "representable M NZero"
  "representable M (Fin x) \<longleftrightarrow> rnd M x = Fin x"
  by (simp_all add: representable_def)

section \<open>Documented behaviour of the maths library and of Eigen\<close>

text \<open>
  \<open>pow_zero\<close> and \<open>pow_exact\<close>: \<open>pow(x,0)\<close> is 1 for every \<open>x\<close>, and an integral power that
  is representable is computed exactly. \<open>sum_nil\<close> to \<open>sum_two\<close>: a reduction of fewer
  than three coefficients has only one order. \<open>approx_refl\<close>: a finite vector
  approximates itself.
\<close>

locale platform_laws = rounding "rnd M" for M :: platform +
  assumes pow_zero: "m_pow M a (Fin 0) = Fin 1"
    and pow_exact: "\<bar>i\<bar> ^ k \<le> 2 ^ 53 \<Longrightarrow>
      m_pow M (Fin (of_int i)) (Fin (of_nat k)) = Fin (of_int (i ^ k))"
    and sum_nil: "e_sum M [] = Fin 0"
    and sum_one: "e_sum M [a] = a"
    and sum_two: "e_sum M [a, b] = dadd M a b"
    and approx_refl: "list_all is_finite v \<Longrightarrow> e_isApprox M v v"
begin

lemma dadd_not_nan_finite: "is_finite a \<Longrightarrow> is_finite b \<Longrightarrow> dadd M a b \<noteq> Nan"
  by (cases a; cases b) (auto simp: dadd_def zero_of_def r_not_nan)

lemma dmul_not_nan_finite: "is_finite a \<Longrightarrow> is_finite b \<Longrightarrow> dmul M a b \<noteq> Nan"
  by (cases a; cases b) (auto simp: dmul_def zero_of_def r_not_nan)

lemma dmul_one: "representable M a \<Longrightarrow> dmul M (Fin 1) a = a"
  by (cases a) (auto simp: dmul_def zero_of_def inf_of_def)

lemma dmul_minus_one: "representable M a \<Longrightarrow> dmul M (Fin (-1)) a = dneg a"
  by (cases a) (auto simp: dmul_def zero_of_def inf_of_def r_neg)

lemma dmul_zero_val: "is_finite a \<Longrightarrow> is_zero (dmul M (Fin 0) a)"
  by (cases a) (auto simp: dmul_def zero_of_def)

lemma dadd_zero_right:
  "representable M a \<Longrightarrow> is_zero z \<Longrightarrow> is_finite a \<Longrightarrow>
     is_finite (dadd M a z) \<and> val (dadd M a z) = val a"
  by (cases a; cases z) (auto simp: dadd_def zero_of_def)

end

section \<open>Exact arithmetic\<close>

text \<open>
  The platform whose operations are exact on the reals: what the code computes if rounding
  is ignored. Its \<open>pow\<close> follows the C99 rules on finite arguments; the special values of
  the transcendental functions are those of C99's annex F.
\<close>

definition pow_fin :: "(real \<Rightarrow> double) \<Rightarrow> real \<Rightarrow> real \<Rightarrow> double" where
  "pow_fin r x y =
     (if y = 0 then Fin 1
      else if y = of_int \<lfloor>y\<rfloor>
        then (if x = 0 then (if 0 < y then Fin 0 else PInf) else r (x powi \<lfloor>y\<rfloor>))
      else if x < 0 then Nan
      else if x = 0 then (if 0 < y then Fin 0 else PInf)
      else r (x powr y))"

fun pow_gen :: "(real \<Rightarrow> double) \<Rightarrow> double \<Rightarrow> double \<Rightarrow> double" where
  "pow_gen r a (Fin y) =
     (if y = 0 then Fin 1
      else if a = Nan then Nan
      else if a = PInf then (if 0 < y then PInf else Fin 0)
      else if a = NInf then (if 0 < y then inf_of (y = of_int \<lfloor>y\<rfloor> \<and> odd \<lfloor>y\<rfloor>)
                             else zero_of (y = of_int \<lfloor>y\<rfloor> \<and> odd \<lfloor>y\<rfloor>))
      else if a = NZero \<and> y = of_int \<lfloor>y\<rfloor> \<and> odd \<lfloor>y\<rfloor> then (if 0 < y then NZero else NInf)
      else pow_fin r (val a) y)"
| "pow_gen r a NZero = Fin 1"
| "pow_gen r a b = (if a = Fin 1 then Fin 1 else if a = Nan \<or> b = Nan then Nan
     else if dabs a = Fin 1 then Fin 1
     else if (b = PInf) = (dlt (Fin 1) (dabs a)) then PInf else Fin 0)"

fun lift_fun :: "(real \<Rightarrow> double) \<Rightarrow> (real \<Rightarrow> real) \<Rightarrow> double \<Rightarrow> double" where
  "lift_fun r f (Fin x) = r (f x)"
| "lift_fun r f NZero = r (f 0)"
| "lift_fun r f _ = Nan"

fun exp_gen :: "(real \<Rightarrow> double) \<Rightarrow> double \<Rightarrow> double" where
  "exp_gen r PInf = PInf"
| "exp_gen r NInf = Fin 0"
| "exp_gen r a = lift_fun r exp a"

fun log_gen :: "(real \<Rightarrow> double) \<Rightarrow> (real \<Rightarrow> real) \<Rightarrow> double \<Rightarrow> double" where
  "log_gen r f (Fin x) = (if x = 0 then NInf else if x < 0 then Nan else r (f x))"
| "log_gen r f NZero = NInf"
| "log_gen r f PInf = PInf"
| "log_gen r f _ = Nan"

text \<open>
  Concrete vector operations: a left-to-right sum, and \<open>isApprox\<close> and \<open>normalized\<close> by the
  formulas of Eigen's documentation.
\<close>

fun sum_from :: "platform \<Rightarrow> double \<Rightarrow> double list \<Rightarrow> double" where
  "sum_from M acc [] = acc"
| "sum_from M acc (x # xs) = sum_from M (dadd M acc x) xs"

fun sum_left :: "platform \<Rightarrow> double list \<Rightarrow> double" where
  "sum_left M [] = Fin 0"
| "sum_left M (x # xs) = sum_from M x xs"

definition sq_left :: "platform \<Rightarrow> double list \<Rightarrow> double" where
  "sq_left M xs = sum_left M (map (\<lambda>x. dmul M x x) xs)"

definition approx_left :: "platform \<Rightarrow> double list \<Rightarrow> double list \<Rightarrow> bool" where
  "approx_left M v w \<longleftrightarrow>
     dle (sq_left M (map2 (dsub M) v w))
       (dmul M (rnd M (1 / 10 ^ 24)) (dmin (sq_left M v) (sq_left M w)))"

definition normalized_left :: "platform \<Rightarrow> double list \<Rightarrow> double list" where
  "normalized_left M v =
     (let z = sq_left M v in if dlt (Fin 0) z then map (\<lambda>x. ddiv M x (dsqrt M z)) v else v)"

definition base_platform :: "(real \<Rightarrow> double) \<Rightarrow> platform" where
  "base_platform r =
     \<lparr> rnd = r, m_exp = exp_gen r, m_sin = lift_fun r sin, m_cos = lift_fun r cos,
       m_tan = lift_fun r tan, m_log = log_gen r ln, m_log10 = log_gen r (log 10),
       m_pow = pow_gen r, e_sum = (\<lambda>_. Nan), e_isApprox = (\<lambda>_ _. False), e_normalized = id \<rparr>"

definition std_platform :: "(real \<Rightarrow> double) \<Rightarrow> platform" where
  "std_platform r = (let B = base_platform r in
     B\<lparr> e_sum := sum_left B, e_isApprox := approx_left B, e_normalized := normalized_left B \<rparr>)"

lemma std_platform_simps [simp]:
  "rnd (std_platform r) = r" "m_pow (std_platform r) = pow_gen r"
  "m_log (std_platform r) = log_gen r ln" "m_exp (std_platform r) = exp_gen r"
  "m_sin (std_platform r) = lift_fun r sin" "m_cos (std_platform r) = lift_fun r cos"
  by (simp_all add: std_platform_def base_platform_def Let_def)

lemma dadd_rnd: "rnd M = rnd N \<Longrightarrow> dadd M a b = dadd N a b"
  by (simp add: dadd_def)

lemma pow_gen_exact:
  assumes "rounding r" and "\<bar>b\<bar> ^ k \<le> 2 ^ 53"
  shows "pow_gen r (Fin (of_int b)) (Fin (of_nat k)) = Fin (of_int (b ^ k))"
proof (cases "k = 0")
  case True
  then show ?thesis by simp
next
  case False
  have "r (of_int (b ^ k)) = Fin (of_int (b ^ k))"
    using assms(2) by (intro rounding.r_int [OF assms(1)]) (simp add: power_abs)
  with False show ?thesis
    by (auto simp: pow_fin_def zero_power)
qed

lemma dsub_self: "is_finite a \<Longrightarrow> dsub M a a = Fin 0"
  by (cases a) (auto simp: dsub_def dadd_def zero_of_def)

lemma sum_from_zero: "sum_from M (Fin 0) (map (\<lambda>_. Fin 0) xs) = Fin 0"
  by (induction xs) (auto simp: dadd_def)

lemma sq_left_self_diff:
  assumes "list_all is_finite v"
  shows "sq_left M (map2 (dsub M) v v) = Fin 0"
proof -
  have "map2 (dsub M) v v = map (\<lambda>_. Fin 0) v"
    using assms by (induction v) (auto simp: dsub_self)
  then have "map (\<lambda>x. dmul M x x) (map2 (dsub M) v v) = map (\<lambda>_. Fin 0) v"
    by (simp add: comp_def dmul_def)
  then show ?thesis
    by (cases v) (simp_all add: sq_left_def sum_from_zero)
qed

lemma sum_from_nonneg:
  assumes "rounding (rnd M)" and "dle (Fin 0) acc" and "list_all (dle (Fin 0)) xs"
  shows "dle (Fin 0) (sum_from M acc xs)"
  using assms(2,3) by (induction xs arbitrary: acc) (auto intro: rounding_dadd_nonneg [OF assms(1)])

lemma sq_left_nonneg:
  assumes "rounding (rnd M)" and "list_all is_finite v"
  shows "dle (Fin 0) (sq_left M v)"
proof (cases v)
  case Nil
  then show ?thesis by (simp add: sq_left_def)
next
  case (Cons x xs)
  have "dle (Fin 0) (dmul M a a)" if "is_finite a" for a
    using that by (intro rounding_dmul_self_nonneg [OF assms(1)]) auto
  with assms Cons show ?thesis
    by (auto simp: sq_left_def list_all_iff intro!: sum_from_nonneg)
qed

lemma approx_bound_nonneg:
  assumes "rounding (rnd M)" and "dle (Fin 0) a"
  shows "dle (Fin 0) (dmul M (rnd M (1 / 10 ^ 24)) a)"
proof -
  have "rnd M (1 / 2 ^ 100) = Fin (1 / 2 ^ 100)"
    using rounding.r_dyadic [OF assms(1), of 1 "-100"] by (simp add: power_int_minus field_simps)
  then have "dle (Fin (1 / 2 ^ 100)) (rnd M (1 / 10 ^ 24))"
    by (intro rounding.r_ge_fixed [OF assms(1)]) (simp_all add: field_simps)
  moreover have "dle (rnd M (1 / 10 ^ 24)) (Fin 1)"
    by (intro rounding.r_le_fixed [OF assms(1)]) (simp_all add: rounding.r_1 [OF assms(1)])
  ultimately have "dlt (Fin 0) (rnd M (1 / 10 ^ 24)) \<and> is_finite (rnd M (1 / 10 ^ 24))"
    by (cases "rnd M (1 / 10 ^ 24)") (auto simp: dle_def dlt_def deq_def)
  then show ?thesis
    using rounding_dmul_pos_nonneg [OF assms(1) _ _ assms(2)] by blast
qed

lemma std_platform_laws:
  assumes "rounding r"
  shows "platform_laws (std_platform r)"
proof -
  let ?B = "base_platform r"
  have sums: "e_sum (std_platform r) = sum_left ?B" "e_isApprox (std_platform r) = approx_left ?B"
    by (simp_all add: std_platform_def Let_def)
  have rnds: "rnd ?B = rnd (std_platform r)" and B: "rounding (rnd ?B)"
    using assms by (simp_all add: base_platform_def)
  have "approx_left ?B v v" if "list_all is_finite v" for v
    using sq_left_nonneg [OF B that] approx_bound_nonneg [OF B]
    by (simp add: approx_left_def sq_left_self_diff that dmin_def)
  then show ?thesis
    unfolding platform_laws_def platform_laws_axioms_def
    using assms pow_gen_exact [OF assms]
    by (auto simp: sums intro: dadd_rnd [OF rnds])
qed

lemma rounding_Fin: "rounding Fin"
  by unfold_locales auto

definition exact :: platform where
  "exact = std_platform Fin"

interpretation exact_p: platform_laws exact
  unfolding exact_def by (rule std_platform_laws [OF rounding_Fin])

lemma exact_rnd [simp]: "rnd exact x = Fin x"
  by (simp add: exact_def)

end
