(* ===== verification/Interp.thy ===== *)
theory Interp
  imports Interp_State Matrix Rounding "HOL-Library.Signed_Division"
begin

text \<open>
  Evaluation of real expressions (\<open>adv-interpreter-eval.cpp\<close>, \<open>adv-interpreter.cpp\<close>) and the
  membership test (\<open>adv-interpreter.hpp\<close>, \<open>adv-interpreter-membership.cpp\<close>).

  Each overload of the C++ is a definition that takes the recursive calls as arguments
  (\<open>ev\<close> for \<open>eval(RealExpr)\<close>, \<open>mem\<close> for \<open>membership(SetExpr, point)\<close>); the two functions
  \<open>eval\<close> and \<open>membership\<close> tie the knot, with fuel because neither need return: a message
  may refer to itself. Operands are evaluated from left to right (C++ leaves the order
  open; the operands have no effect but on the call counter).
\<close>

section \<open>Evaluation, one definition per overload\<close>

fun unary_value :: "platform \<Rightarrow> unary_op \<Rightarrow> double \<Rightarrow> double" where
  "unary_value M OpNegate x = dneg x"
| "unary_value M OpExp x = m_exp M x"
| "unary_value M OpSin x = m_sin M x"
| "unary_value M OpCos x = m_cos M x"
| "unary_value M OpTan x = m_tan M x"
| "unary_value M OpSquare x = dmul M x x"
| "unary_value M OpSqrt x = dsqrt M x"
| "unary_value M OpLog10 x = m_log10 M x"
| "unary_value M OpLn x = m_log M x"
| "unary_value M OpMultInv x = ddiv M (Fin 1) x"
| "unary_value M OpRound x = dround x"
| "unary_value M OpFloor x = dfloor x"
| "unary_value M OpCeil x = dceil x"
| "unary_value M OpAbs x = dabs x"
| "unary_value M OpSign x = of_i (sgn_int x)"

definition eval_unary :: "platform \<Rightarrow> (real_expr \<Rightarrow> double interp) \<Rightarrow> unary_op \<Rightarrow> real_expr \<Rightarrow> double interp" where
  "eval_unary M ev op arg = bnd (ev arg) (\<lambda>x. ret (unary_value M op x))"

definition of_bool_d :: "bool \<Rightarrow> double" where
  "of_bool_d b = (if b then Fin 1 else Fin 0)"

fun binary_value :: "platform \<Rightarrow> binary_op \<Rightarrow> double \<Rightarrow> double \<Rightarrow> double" where
  "binary_value M OpSum x y = dadd M x y"
| "binary_value M OpProd x y = dmul M x y"
| "binary_value M OpLessEqThan x y = of_bool_d (dle x y)"
| "binary_value M OpGreaterThan x y = of_bool_d (dlt y x)"
| "binary_value M OpMin x y = dmin x y"
| "binary_value M OpMax x y = dmax x y"
| "binary_value M OpPow x y = m_pow M x y"

definition eval_binary :: "platform \<Rightarrow> (real_expr \<Rightarrow> double interp) \<Rightarrow> binary_op \<Rightarrow>
    real_expr \<Rightarrow> real_expr \<Rightarrow> double interp" where
  "eval_binary M ev op arg1 arg2 =
     bnd (ev arg1) (\<lambda>x. bnd (ev arg2) (\<lambda>y. ret (binary_value M op x y)))"

fun list_unit :: "list_op \<Rightarrow> double" where
  "list_unit ListSum = Fin 0"
| "list_unit ListProd = Fin 1"

fun list_step :: "platform \<Rightarrow> list_op \<Rightarrow> double \<Rightarrow> double \<Rightarrow> double" where
  "list_step M ListSum acc x = dadd M acc x"
| "list_step M ListProd acc x = dmul M acc x"

definition eval_list :: "platform \<Rightarrow> (real_expr \<Rightarrow> double interp) \<Rightarrow> list_op \<Rightarrow> real_expr list \<Rightarrow> double interp" where
  "eval_list M ev op args =
     foldC (\<lambda>arg acc. bnd (ev arg) (\<lambda>x. ret (list_step M op acc x))) args (list_unit op)"

definition eval_var :: "string \<Rightarrow> double interp" where
  "eval_var var = bnd get_st (\<lambda>s. case bound_vars s var of
     Some x \<Rightarrow> ret x | None \<Rightarrow> raise (Unknown_Variable var))"

definition eval_ref :: "(real_expr \<Rightarrow> 'a interp) \<Rightarrow> string \<Rightarrow> 'a interp" where
  "eval_ref ev r = bnd get_st (\<lambda>s. case real_refs s r of
     Some e \<Rightarrow> ev e | None \<Rightarrow> raise (Unknown_Reference r))"

section \<open>Polynomials\<close>

text \<open>
  \<open>offset / static_cast<int>(std::pow(d,var)+.5) % d\<close>, in C's truncating arithmetic.
\<close>

definition poly_digit :: "platform \<Rightarrow> int \<Rightarrow> int \<Rightarrow> nat \<Rightarrow> int result" where
  "poly_digit M d off var =
     rbind (to_int (dadd M (m_pow M (of_i d) (of_i (int var))) (Fin (1/2)))) (\<lambda>w.
       if w = 0 then Inl Undefined else Inr ((off sdiv w) smod d))"

fun eval_monomial :: "platform \<Rightarrow> int \<Rightarrow> int \<Rightarrow> int \<Rightarrow> nat \<Rightarrow> double list \<Rightarrow> double \<Rightarrow> double result" where
  "eval_monomial M d off dVar var [] monom = Inr monom"
| "eval_monomial M d off dVar var (x # xs) monom =
     rbind (poly_digit M d off var) (\<lambda>rem.
       if dVar = int var
       then (if rem = 0 then Inr (Fin 0)
             else eval_monomial M d off dVar (Suc var) xs
               (if rem > 1 then dmul M monom (dmul M (of_i rem) (m_pow M x (of_i (rem - 1))))
                else monom))
       else eval_monomial M d off dVar (Suc var) xs (dmul M monom (m_pow M x (of_i rem))))"

fun eval_coeffs :: "platform \<Rightarrow> int \<Rightarrow> int \<Rightarrow> double list \<Rightarrow> sparse_coeff list \<Rightarrow> double \<Rightarrow> double result" where
  "eval_coeffs M d dVar pts [] acc = Inr acc"
| "eval_coeffs M d dVar pts (c # cs) acc =
     rbind (eval_monomial M d (sint (offset c)) dVar 0 pts (Fin 1)) (\<lambda>monom.
       eval_coeffs M d dVar pts cs (dadd M acc (dmul M (coeff_value c) monom)))"

definition at_var :: "value_map \<Rightarrow> string \<Rightarrow> double result" where
  "at_var env v = (case env v of Some x \<Rightarrow> Inr x | None \<Rightarrow> Inl Out_Of_Range)"

definition eval_polynomial :: "platform \<Rightarrow> int \<Rightarrow> polynomial \<Rightarrow> value_map \<Rightarrow> double result" where
  "eval_polynomial M dVar p env =
     rbind (rmap (at_var env) (poly_variables p)) (\<lambda>pts.
       eval_coeffs M (uint (maxVarDegree p) + 1) dVar pts (coefficients p) (Fin 0))"

definition eval_poly :: "platform \<Rightarrow> int \<Rightarrow> polynomial \<Rightarrow> double interp" where
  "eval_poly M dVar p = bnd get_st (\<lambda>s. from_result (eval_polynomial M dVar p (bound_vars s)))"

section \<open>Case distinctions\<close>

definition case_var :: "string \<Rightarrow> double interp" where
  "case_var v = bnd get_st (\<lambda>s. case bound_vars s v of
     Some x \<Rightarrow> ret x | None \<Rightarrow> raise Evaluation_Error)"

fun select_case :: "(set_expr \<Rightarrow> double list \<Rightarrow> bool interp) \<Rightarrow> (real_expr \<Rightarrow> 'a interp) \<Rightarrow>
    double list \<Rightarrow> (set_expr \<times> real_expr) list \<Rightarrow> 'a interp" where
  "select_case mem ev pt [] = raise Evaluation_Error"
| "select_case mem ev pt ((st, e) # cs) =
     bnd (mem st pt) (\<lambda>b. if b then ev e else select_case mem ev pt cs)"

definition eval_case :: "(set_expr \<Rightarrow> double list \<Rightarrow> bool interp) \<Rightarrow> (real_expr \<Rightarrow> 'a interp) \<Rightarrow>
    string list \<Rightarrow> (set_expr \<times> real_expr) list \<Rightarrow> 'a interp" where
  "eval_case mem ev vars cs = bnd (mapC case_var vars) (\<lambda>pt. select_case mem ev pt cs)"

section \<open>Vectors and matrices\<close>

definition eval_to_vector :: "(real_expr \<Rightarrow> double interp) \<Rightarrow> real_expr list \<Rightarrow> double list interp" where
  "eval_to_vector ev es = mapC ev es"

text \<open>A malformed matrix reaches a \<open>throw\<close> with no exception in flight.\<close>

definition eval_to_matrix :: "(real_expr \<Rightarrow> double interp) \<Rightarrow> real_expr list list \<Rightarrow> double list list interp" where
  "eval_to_matrix ev mx = (case check_capnp_matrix mx of (err, rows, cols) \<Rightarrow>
     if err then raise Bare_Throw else mapC (mapC ev) mx)"

section \<open>Membership, one definition per overload\<close>

definition dot :: "platform \<Rightarrow> double list \<Rightarrow> double list \<Rightarrow> double" where
  "dot M a x = e_sum M (map2 (dmul M) a x)"

definition mem_singleton :: "platform \<Rightarrow> (real_expr \<Rightarrow> double interp) \<Rightarrow> real_expr list \<Rightarrow>
    double list \<Rightarrow> bool interp" where
  "mem_singleton M ev es pt =
     bnd (guard_comp (length pt = length es) Assert_Failed) (\<lambda>_.
     bnd (eval_to_vector ev es) (\<lambda>sing. ret (e_isApprox M pt sing)))"

definition sq_dist :: "platform \<Rightarrow> double list \<Rightarrow> double list \<Rightarrow> double" where
  "sq_dist M c x = e_sum M (map2 (\<lambda>a b. let t = dsub M a b in dmul M t t) c x)"

definition mem_ball :: "platform \<Rightarrow> (real_expr \<Rightarrow> double interp) \<Rightarrow> real_expr list \<Rightarrow> real_expr \<Rightarrow>
    double list \<Rightarrow> bool interp" where
  "mem_ball M ev center radius pt =
     bnd (guard_comp (length pt = length center) Assert_Failed) (\<lambda>_.
     bnd (eval_to_vector ev center) (\<lambda>cent.
     bnd (ev radius) (\<lambda>r. ret (dle (sq_dist M cent pt) (dmul M r r)))))"

definition in_bounds :: "double \<Rightarrow> double \<Rightarrow> double \<Rightarrow> bool" where
  "in_bounds x val1 val2 \<longleftrightarrow> \<not> (dlt x (dmin val1 val2) \<or> dlt (dmax val1 val2) x)"

definition mem_rectangle :: "(real_expr \<Rightarrow> double interp) \<Rightarrow> (real_expr \<times> real_expr) list \<Rightarrow>
    double list \<Rightarrow> bool interp" where
  "mem_rectangle ev rect pt =
     bnd (guard_comp (length pt = length rect) Assert_Failed) (\<lambda>_.
     allC (\<lambda>((a, b), x). bnd (ev a) (\<lambda>val1. bnd (ev b) (\<lambda>val2.
       ret (in_bounds x val1 val2)))) (zip rect pt))"

definition mem_polytope :: "platform \<Rightarrow> (real_expr \<Rightarrow> double interp) \<Rightarrow> real_expr list list \<Rightarrow>
    real_expr list \<Rightarrow> double list \<Rightarrow> bool interp" where
  "mem_polytope M ev mx b pt =
     bnd (eval_to_matrix ev mx) (\<lambda>mat.
     bnd (eval_to_vector ev b) (\<lambda>rhs.
     bnd (guard_comp ((\<forall>row \<in> set mat. length row = length pt) \<and> length mat = length rhs) Assert_Failed) (\<lambda>_.
     ret (list_all (\<lambda>(row, c). dle (dot M row pt) c) (zip mat rhs)))))"

definition mem_intersection :: "(set_expr \<Rightarrow> double list \<Rightarrow> bool interp) \<Rightarrow> set_expr list \<Rightarrow>
    double list \<Rightarrow> bool interp" where
  "mem_intersection mem sets pt = allC (\<lambda>st. mem st pt) sets"

text \<open>
  \<open>_set_expr_refs[set.getReference()]\<close>: \<open>operator[]\<close> inserts a default reader under a name
  that is not there.
\<close>

definition set_ref :: "string \<Rightarrow> set_expr interp" where
  "set_ref r = bnd get_st (\<lambda>s. case set_refs s r of
     Some st \<Rightarrow> ret st
   | None \<Rightarrow> bnd (put_st (\<lambda>s. s\<lparr>set_refs := (set_refs s)(r \<mapsto> default_set)\<rparr>)) (\<lambda>_. ret default_set))"

section \<open>The two recursive functions\<close>

fun eval_body :: "platform \<Rightarrow> (real_expr \<Rightarrow> double interp) \<Rightarrow> (set_expr \<Rightarrow> double list \<Rightarrow> bool interp) \<Rightarrow>
    real_body \<Rightarrow> double interp" where
  "eval_body M ev mem (Real x) = ret x"
| "eval_body M ev mem (UnaryOperation op a) = eval_unary M ev op a"
| "eval_body M ev mem (BinaryOperation op a b) = eval_binary M ev op a b"
| "eval_body M ev mem (ListOperation op es) = eval_list M ev op es"
| "eval_body M ev mem (Polynomial p) = eval_poly M (- 1) p"
| "eval_body M ev mem (CaseDistinction vs cs) = eval_case mem ev vs cs"
| "eval_body M ev mem (Reference r) = eval_ref ev r"
| "eval_body M ev mem (Variable v) = eval_var v"

fun membership_body :: "platform \<Rightarrow> (real_expr \<Rightarrow> double interp) \<Rightarrow> (set_expr \<Rightarrow> double list \<Rightarrow> bool interp) \<Rightarrow>
    set_body \<Rightarrow> double list \<Rightarrow> bool interp" where
  "membership_body M ev mem (Singleton es) pt = mem_singleton M ev es pt"
| "membership_body M ev mem (Ball cs r) pt = mem_ball M ev cs r pt"
| "membership_body M ev mem (Rectangle bs) pt = mem_rectangle ev bs pt"
| "membership_body M ev mem (ConvexPolytope mx b) pt = mem_polytope M ev mx b pt"
| "membership_body M ev mem (Intersection ss) pt = mem_intersection mem ss pt"
| "membership_body M ev mem (SetReference r) pt = bnd (set_ref r) (\<lambda>st. mem st pt)"
| "membership_body M ev mem (SetCaseDistinction vs cs) pt = raise (Which_Error 5)"

fun eval :: "platform \<Rightarrow> nat \<Rightarrow> real_expr \<Rightarrow> double interp"
  and membership :: "platform \<Rightarrow> nat \<Rightarrow> set_expr \<Rightarrow> double list \<Rightarrow> bool interp" where
  "eval M 0 e = (\<lambda>s. None)"
| "eval M (Suc n) e = bnd enter_real (\<lambda>_. eval_body M (eval M n) (membership M n) (re_body e))"
| "membership M 0 st pt = (\<lambda>s. None)"
| "membership M (Suc n) st pt =
     bnd enter_set (\<lambda>_. membership_body M (eval M n) (membership M n) (se_body st) pt)"

section \<open>The user functions\<close>

text \<open>The prologue of every public method: assert the advertisement, bind the variables.\<close>

definition start_call :: "value_map \<Rightarrow> unit interp" where
  "start_call env = bnd get_st (\<lambda>s. bnd (guard_comp (adv_valid s) Assert_Failed) (\<lambda>_.
     put_st (\<lambda>s. s\<lparr>bound_vars := env, nesting_depth := 0\<rparr>)))"

definition evaluate :: "platform \<Rightarrow> nat \<Rightarrow> real_expr \<Rightarrow> value_map \<Rightarrow> double interp" where
  "evaluate M n e env = bnd (start_call env) (\<lambda>_. eval M n e)"

definition test_membership :: "platform \<Rightarrow> nat \<Rightarrow> set_expr \<Rightarrow> double list \<Rightarrow> value_map \<Rightarrow> bool interp" where
  "test_membership M n st pt env = bnd (start_call env) (\<lambda>_. membership M n st pt)"

text \<open>The constructor and \<open>setAdv\<close>: store the advertisement, then scan it for names.\<close>

definition find_references :: "unit interp" where
  "find_references = bnd (put_st (\<lambda>s. s\<lparr>nesting_depth := 0\<rparr>)) (\<lambda>_. bnd get_st (\<lambda>s0.
     bnd (case pQProfile (adv s0) of None \<Rightarrow> ret () | Some st \<Rightarrow>
            bnd (find_refs_set st) (\<lambda>_. put_st (\<lambda>s. s\<lparr>nesting_depth := 0\<rparr>))) (\<lambda>_.
     bnd (case beliefFunction (adv s0) of None \<Rightarrow> ret () | Some st \<Rightarrow>
            bnd (find_refs_set st) (\<lambda>_. put_st (\<lambda>s. s\<lparr>nesting_depth := 0\<rparr>))) (\<lambda>_.
     (case costFunction (adv s0) of None \<Rightarrow> ret () | Some e \<Rightarrow>
            bnd (find_refs_real e) (\<lambda>_. put_st (\<lambda>s. s\<lparr>nesting_depth := 0\<rparr>)))))))"

definition set_adv :: "advertisement \<Rightarrow> unit interp" where
  "set_adv a = bnd (put_st (\<lambda>s. s\<lparr>adv := a, adv_valid := True\<rparr>)) (\<lambda>_. find_references)"

end
