(* ===== verification/Interp_Spec.thy ===== *)
theory Interp_Spec imports Interp begin

text \<open>
  What the interpreter promises. \<open>den_real\<close> and \<open>den_set\<close> give an expression its value and
  a set its characteristic function by structural recursion, with neither fuel, call
  counter nor state; \<open>refines\<close> is the relation between a stateful computation and such a
  value, closed under the combinators. \<open>eval_refines\<close> says the interpreter implements the
  denotation for expressions without references that are small enough for the counter.
\<close>

section \<open>Result-valued loops\<close>

fun rfold :: "('a \<Rightarrow> 'b \<Rightarrow> 'b result) \<Rightarrow> 'a list \<Rightarrow> 'b \<Rightarrow> 'b result" where
  "rfold f [] acc = Inr acc"
| "rfold f (x # xs) acc = rbind (f x acc) (rfold f xs)"

fun rall :: "('a \<Rightarrow> bool result) \<Rightarrow> 'a list \<Rightarrow> bool result" where
  "rall f [] = Inr True"
| "rall f (x # xs) = rbind (f x) (\<lambda>b. if b then rall f xs else Inr False)"

fun rfirst :: "('a \<times> 'b \<Rightarrow> bool result) \<Rightarrow> ('a \<times> 'b \<Rightarrow> 'c result) \<Rightarrow> ('a \<times> 'b) list \<Rightarrow> 'c result" where
  "rfirst p f [] = Inl Evaluation_Error"
| "rfirst p f (x # xs) = rbind (p x) (\<lambda>b. if b then f x else rfirst p f xs)"

lemma rmap_cong [fundef_cong]:
  "xs = ys \<Longrightarrow> (\<And>x. x \<in> set ys \<Longrightarrow> f x = g x) \<Longrightarrow> rmap f xs = rmap g ys"
  by (induction xs arbitrary: ys) auto

lemma rfold_cong [fundef_cong]:
  "xs = ys \<Longrightarrow> a = b \<Longrightarrow> (\<And>x. x \<in> set ys \<Longrightarrow> f x = g x) \<Longrightarrow> rfold f xs a = rfold g ys b"
proof (induction xs arbitrary: ys a b)
  case (Cons x xs)
  then have "rfold f xs = rfold g xs" by auto
  with Cons.prems show ?case by auto
qed auto

lemma rall_cong [fundef_cong]:
  "xs = ys \<Longrightarrow> (\<And>x. x \<in> set ys \<Longrightarrow> f x = g x) \<Longrightarrow> rall f xs = rall g ys"
proof (induction xs arbitrary: ys)
  case (Cons x xs)
  then have "rall f xs = rall g xs" and "f x = g x" by auto
  with Cons.prems show ?case by (auto cong: if_cong)
qed auto

lemma rfirst_cong [fundef_cong]:
  "xs = ys \<Longrightarrow> (\<And>x. x \<in> set ys \<Longrightarrow> p x = q x) \<Longrightarrow> (\<And>x. x \<in> set ys \<Longrightarrow> f x = g x) \<Longrightarrow>
    rfirst p f xs = rfirst q g ys"
proof (induction xs arbitrary: ys)
  case (Cons x xs)
  then have "rfirst p f xs = rfirst q g xs" by auto
  moreover have "p x = q x" using Cons.prems(1) Cons.prems(2) [of x] by auto
  moreover have "f x = g x" using Cons.prems(1) Cons.prems(3) [of x] by auto
  ultimately show ?case using Cons.prems(1) by (auto cong: if_cong)
qed auto

lemma rall_Inr: "(\<And>x. x \<in> set xs \<Longrightarrow> f x = Inr (g x)) \<Longrightarrow> rall f xs = Inr (\<forall>x \<in> set xs. g x)"
  by (induction xs) auto

lemma rfold_Inr:
  "(\<And>x a. x \<in> set xs \<Longrightarrow> f x a = Inr (g x a)) \<Longrightarrow> rfold f xs acc = Inr (fold g xs acc)"
  by (induction xs arbitrary: acc) auto

section \<open>The denotation\<close>

definition lookup_or :: "error \<Rightarrow> value_map \<Rightarrow> string \<Rightarrow> double result" where
  "lookup_or e env v = (case env v of Some x \<Rightarrow> Inr x | None \<Rightarrow> Inl e)"

definition rguard :: "bool \<Rightarrow> error \<Rightarrow> unit result" where
  "rguard b e = (if b then Inr () else Inl e)"

text \<open>
  A reference has no meaning here: \<open>den_real\<close> gives it the error of an unresolved name and
  \<open>den_set\<close> the default set; the theorems exclude both.
\<close>

lemma size_elem: "x \<in> set xs \<Longrightarrow> f x \<le> size_list f xs"
  by (erule size_list_estimation') simp

lemma size_elem_pair:
  assumes "(a, b) \<in> set xs"
  shows "f a \<le> size_list (size_prod f g) xs" and "g b \<le> size_list (size_prod f g) xs"
  using size_elem [OF assms, of "size_prod f g"] by simp_all

lemma size_elem_zip:
  assumes "((a, b), c) \<in> set (zip xs ys)"
  shows "f a \<le> size_list (size_prod f g) xs" and "g b \<le> size_list (size_prod f g) xs"
  using set_zip_leftD [OF assms] by (rule size_elem_pair)+

lemma size_elem_elem: "x \<in> set row \<Longrightarrow> row \<in> set mx \<Longrightarrow> f x \<le> size_list (size_list f) mx"
  using size_elem [of x row f] size_elem [of row mx "size_list f"] by simp

function den_real :: "platform \<Rightarrow> value_map \<Rightarrow> real_expr \<Rightarrow> double result"
  and den_real_body :: "platform \<Rightarrow> value_map \<Rightarrow> real_body \<Rightarrow> double result"
  and den_set :: "platform \<Rightarrow> value_map \<Rightarrow> set_expr \<Rightarrow> double list \<Rightarrow> bool result"
  and den_set_body :: "platform \<Rightarrow> value_map \<Rightarrow> set_body \<Rightarrow> double list \<Rightarrow> bool result" where
  "den_real M env (RealExpr nm b) = den_real_body M env b"
| "den_real_body M env (Real x) = Inr x"
| "den_real_body M env (UnaryOperation op a) =
     rbind (den_real M env a) (\<lambda>x. Inr (unary_value M op x))"
| "den_real_body M env (BinaryOperation op a b) =
     rbind (den_real M env a) (\<lambda>x. rbind (den_real M env b) (\<lambda>y. Inr (binary_value M op x y)))"
| "den_real_body M env (ListOperation op es) =
     rfold (\<lambda>e acc. rbind (den_real M env e) (\<lambda>x. Inr (list_step M op acc x))) es (list_unit op)"
| "den_real_body M env (Polynomial p) = eval_polynomial M (- 1) p env"
| "den_real_body M env (CaseDistinction vs cs) =
     rbind (rmap (lookup_or Evaluation_Error env) vs) (\<lambda>pt.
       rfirst (\<lambda>(st, e). den_set M env st pt) (\<lambda>(st, e). den_real M env e) cs)"
| "den_real_body M env (Reference r) = Inl (Unknown_Reference r)"
| "den_real_body M env (Variable v) = lookup_or (Unknown_Variable v) env v"
| "den_set M env (SetExpr nm b) pt = den_set_body M env b pt"
| "den_set_body M env (Singleton es) pt =
     rbind (rguard (length pt = length es) Assert_Failed) (\<lambda>_.
     rbind (rmap (den_real M env) es) (\<lambda>sing. Inr (e_isApprox M pt sing)))"
| "den_set_body M env (Ball cs r) pt =
     rbind (rguard (length pt = length cs) Assert_Failed) (\<lambda>_.
     rbind (rmap (den_real M env) cs) (\<lambda>cent.
     rbind (den_real M env r) (\<lambda>rad. Inr (dle (sq_dist M cent pt) (dmul M rad rad)))))"
| "den_set_body M env (Rectangle bs) pt =
     rbind (rguard (length pt = length bs) Assert_Failed) (\<lambda>_.
     rall (\<lambda>(a, x). rbind (den_real M env (fst a)) (\<lambda>v1. rbind (den_real M env (snd a)) (\<lambda>v2.
       Inr (in_bounds x v1 v2)))) (zip bs pt))"
| "den_set_body M env (ConvexPolytope mx b) pt =
     rbind (rguard (\<not> fst (check_capnp_matrix mx)) Bare_Throw) (\<lambda>_.
     rbind (rmap (rmap (den_real M env)) mx) (\<lambda>mat.
     rbind (rmap (den_real M env) b) (\<lambda>rhs.
     rbind (rguard ((\<forall>row \<in> set mat. length row = length pt) \<and> length mat = length rhs) Assert_Failed) (\<lambda>_.
     Inr (list_all (\<lambda>(row, c). dle (dot M row pt) c) (zip mat rhs))))))"
| "den_set_body M env (Intersection ss) pt = rall (\<lambda>st. den_set M env st pt) ss"
| "den_set_body M env (SetCaseDistinction vs cs) pt = Inl (Which_Error 5)"
| "den_set_body M env (SetReference r) pt = Inr (pt = [])"
  by pat_completeness auto
termination
proof (relation "measure (\<lambda>x. case x of
      Inl (Inl (M, env, e)) \<Rightarrow> size e
    | Inl (Inr (M, env, b)) \<Rightarrow> size b
    | Inr (Inl (M, env, s, pt)) \<Rightarrow> size s
    | Inr (Inr (M, env, b, pt)) \<Rightarrow> size b)", goal_cases)
qed (auto simp: less_Suc_eq_le
  intro: size_elem size_elem_pair size_elem_zip size_elem_elem trans_le_add1 trans_le_add2)

section \<open>Refinement of a computation\<close>

text \<open>
  \<open>refines_in I k c r\<close>: from a state in \<open>I\<close> with room for \<open>k\<close> more calls, \<open>c\<close> returns \<open>r\<close>,
  changes nothing but the call counter, and counts at most \<open>k\<close> calls. The combinators respect
  this relation for every \<open>I\<close> that does not depend on the counter.
\<close>

definition refines_in :: "(advfunc \<Rightarrow> bool) \<Rightarrow> nat \<Rightarrow> 'a interp \<Rightarrow> 'a result \<Rightarrow> bool" where
  "refines_in I k c r \<longleftrightarrow> (\<forall>s. I s \<longrightarrow> nesting_depth s + int k \<le> MAX_NESTING_DEPTH \<longrightarrow>
     (\<exists>d. c s = Some (r, s\<lparr>nesting_depth := d\<rparr>) \<and> nesting_depth s \<le> d \<and> d \<le> nesting_depth s + int k))"

named_theorems refine_intros \<open>refinement of the combinators\<close>

locale refinement =
  fixes I :: "advfunc \<Rightarrow> bool"
  assumes counter_free: "I s \<Longrightarrow> I (s\<lparr>nesting_depth := d\<rparr>)"
begin

lemma in_D:
  assumes "refines_in I k c r" "I s" "nesting_depth s + int k \<le> MAX_NESTING_DEPTH"
  obtains d where "c s = Some (r, s\<lparr>nesting_depth := d\<rparr>)" "nesting_depth s \<le> d"
    "d \<le> nesting_depth s + int k"
  using assms unfolding refines_in_def by blast

lemma in_weaken: "refines_in I k c r \<Longrightarrow> k \<le> l \<Longrightarrow> refines_in I l c r"
  unfolding refines_in_def by fastforce

lemma in_ret: "refines_in I k (ret x) (Inr x)"
  by (auto simp: refines_in_def run_simps intro!: exI [of _ "nesting_depth _"])

lemma in_raise: "refines_in I k (raise e) (Inl e)"
  by (auto simp: refines_in_def run_simps intro!: exI [of _ "nesting_depth _"])

lemma in_guard: "refines_in I k (guard_comp b e) (rguard b e)"
  by (auto simp: refines_in_def run_simps rguard_def intro!: exI [of _ "nesting_depth _"])

lemma in_bnd:
  assumes c: "refines_in I k c r" and f: "\<And>x. r = Inr x \<Longrightarrow> refines_in I l (f x) (g x)"
  shows "refines_in I (k + l) (bnd c f) (rbind r g)"
  unfolding refines_in_def
proof (intro allI impI)
  fix s :: advfunc assume s: "I s" and room: "nesting_depth s + int (k + l) \<le> MAX_NESTING_DEPTH"
  then obtain d where d: "c s = Some (r, s\<lparr>nesting_depth := d\<rparr>)" "nesting_depth s \<le> d"
      "d \<le> nesting_depth s + int k"
    by (auto intro: in_D [OF c])
  show "\<exists>d. bnd c f s = Some (rbind r g, s\<lparr>nesting_depth := d\<rparr>) \<and> nesting_depth s \<le> d \<and>
      d \<le> nesting_depth s + int (k + l)"
  proof (cases r)
    case (Inl e)
    with d show ?thesis by (auto simp: run_simps)
  next
    case (Inr x)
    obtain d' where "f x (s\<lparr>nesting_depth := d\<rparr>) = Some (g x, s\<lparr>nesting_depth := d'\<rparr>)" "d \<le> d'"
        "d' \<le> d + int l"
      using in_D [OF f [OF Inr] counter_free [OF s, of d]] room d by auto
    with d Inr show ?thesis by (auto simp: run_simps)
  qed
qed

lemma in_bnd_same:
  "refines_in I k c r \<Longrightarrow> (\<And>x. r = Inr x \<Longrightarrow> refines_in I 0 (f x) (g x)) \<Longrightarrow>
    refines_in I k (bnd c f) (rbind r g)"
  using in_bnd [of k c r 0 f g] by simp

lemma in_bnd_free:
  "refines_in I 0 c r \<Longrightarrow> (\<And>x. r = Inr x \<Longrightarrow> refines_in I k (f x) (g x)) \<Longrightarrow>
    refines_in I k (bnd c f) (rbind r g)"
  using in_bnd [of 0 c r k f g] by simp

lemma in_mapC:
  "(\<And>x. x \<in> set xs \<Longrightarrow> refines_in I (k x) (f x) (g x)) \<Longrightarrow>
    refines_in I (sum_list (map k xs)) (mapC f xs) (rmap g xs)"
proof (induction xs)
  case (Cons x xs)
  then have "refines_in I (k x + sum_list (map k xs)) (bnd (f x) (\<lambda>y. bnd (mapC f xs) (\<lambda>ys. ret (y # ys))))
      (rbind (g x) (\<lambda>y. rbind (rmap g xs) (\<lambda>ys. Inr (y # ys))))"
    by (intro in_bnd in_bnd_same in_ret) auto
  then show ?case by simp
qed (simp add: in_ret)

lemma in_foldC:
  "(\<And>x a. x \<in> set xs \<Longrightarrow> refines_in I (k x) (f x a) (g x a)) \<Longrightarrow>
    refines_in I (sum_list (map k xs)) (foldC f xs acc) (rfold g xs acc)"
  by (induction xs arbitrary: acc) (auto intro!: in_bnd in_ret)

lemma in_allC:
  "(\<And>x. x \<in> set xs \<Longrightarrow> refines_in I (k x) (f x) (g x)) \<Longrightarrow>
    refines_in I (sum_list (map k xs)) (allC f xs) (rall g xs)"
  by (induction xs) (auto intro!: in_bnd in_ret)

lemma in_select:
  assumes "\<And>st e. (st, e) \<in> set cs \<Longrightarrow> refines_in I (j st) (mem st pt) (p (st, e))"
    and "\<And>st e. (st, e) \<in> set cs \<Longrightarrow> refines_in I (k e) (ev e) (g (st, e))"
  shows "refines_in I (sum_list (map (\<lambda>(st, e). j st + k e) cs)) (select_case mem ev pt cs) (rfirst p g cs)"
  using assms
proof (induction cs)
  case (Cons c cs)
  obtain st e where c: "c = (st, e)" by (cases c)
  have "refines_in I (j st + (k e + sum_list (map (\<lambda>(st, e). j st + k e) cs)))
      (bnd (mem st pt) (\<lambda>b. if b then ev e else select_case mem ev pt cs))
      (rbind (p (st, e)) (\<lambda>b. if b then g (st, e) else rfirst p g cs))"
    using Cons c by (intro in_bnd) (auto intro: in_weaken [OF _ le_add1] in_weaken [OF _ le_add2])
  then show ?case by (simp add: c add.assoc)
qed (simp add: in_raise)

lemma in_guarded:
  assumes "b \<Longrightarrow> refines_in I k c (g ())"
  shows "refines_in I k (bnd (guard_comp b e) (\<lambda>_. c)) (rbind (rguard b e) g)"
  by (rule in_bnd_free [OF in_guard]) (use assms in \<open>auto simp: rguard_def split: if_splits\<close>)

lemma in_enter:
  assumes "refines_in I k c r"
  shows "refines_in I (Suc k) (bnd enter_real (\<lambda>_. c)) r" "refines_in I (Suc k) (bnd enter_set (\<lambda>_. c)) r"
proof -
  have "\<exists>d. bnd enter_real (\<lambda>_. c) s = Some (r, s\<lparr>nesting_depth := d\<rparr>) \<and>
      bnd enter_set (\<lambda>_. c) s = Some (r, s\<lparr>nesting_depth := d\<rparr>) \<and> nesting_depth s \<le> d \<and>
      d \<le> nesting_depth s + int (Suc k)"
    if s: "I s" and room: "nesting_depth s + int (Suc k) \<le> MAX_NESTING_DEPTH" for s
  proof -
    obtain d where "c (s\<lparr>nesting_depth := nesting_depth s + 1\<rparr>) = Some (r, s\<lparr>nesting_depth := d\<rparr>)"
        "nesting_depth s + 1 \<le> d" "d \<le> nesting_depth s + 1 + int k"
      using in_D [OF assms counter_free [OF s, of "nesting_depth s + 1"]] room by auto
    with room show ?thesis by (auto simp: run_simps MAX_NESTING_DEPTH_def)
  qed
  then show "refines_in I (Suc k) (bnd enter_real (\<lambda>_. c)) r" "refines_in I (Suc k) (bnd enter_set (\<lambda>_. c)) r"
    unfolding refines_in_def by blast+
qed

end

text \<open>
  The invariant of a call without references: the bound variables are \<open>env\<close>.
\<close>

definition refines :: "value_map \<Rightarrow> nat \<Rightarrow> 'a interp \<Rightarrow> 'a result \<Rightarrow> bool" where
  "refines env = refines_in (\<lambda>s. bound_vars s = env)"

interpretation vars: refinement "\<lambda>s. bound_vars s = env" for env
  by unfold_locales simp

lemmas refines_state_def = refines_in_def [where I = "\<lambda>s. bound_vars s = _", folded refines_def]

lemma refinesD:
  assumes "refines env k c r" "bound_vars s = env" "nesting_depth s + int k \<le> MAX_NESTING_DEPTH"
  obtains d where "c s = Some (r, s\<lparr>nesting_depth := d\<rparr>)" "nesting_depth s \<le> d"
    "d \<le> nesting_depth s + int k"
  using assms unfolding refines_state_def by blast

lemmas refines_weaken = vars.in_weaken [folded refines_def]
lemmas refines_ret [refine_intros] = vars.in_ret [folded refines_def]
lemmas refines_raise [refine_intros] = vars.in_raise [folded refines_def]
lemmas refines_guard [refine_intros] = vars.in_guard [folded refines_def]
lemmas refines_bnd = vars.in_bnd [folded refines_def]
lemmas refines_bnd_same = vars.in_bnd_same [folded refines_def]
lemmas refines_bnd_free = vars.in_bnd_free [folded refines_def]
lemmas refines_mapC = vars.in_mapC [folded refines_def]
lemmas refines_foldC = vars.in_foldC [folded refines_def]
lemmas refines_allC = vars.in_allC [folded refines_def]
lemmas refines_select = vars.in_select [folded refines_def]
lemmas refines_guarded = vars.in_guarded [folded refines_def]
lemmas refines_enter_real = vars.in_enter(1) [folded refines_def]
lemmas refines_enter_set = vars.in_enter(2) [folded refines_def]

section \<open>The interpreter implements the denotation\<close>

text \<open>
  \<open>calls_real\<close> and \<open>calls_set\<close> bound the calls of \<open>eval\<close> and \<open>membership\<close> an expression
  costs: one for each node of the expression.
\<close>

function calls_real :: "real_expr \<Rightarrow> nat"
  and calls_real_body :: "real_body \<Rightarrow> nat"
  and calls_set :: "set_expr \<Rightarrow> nat"
  and calls_set_body :: "set_body \<Rightarrow> nat" where
  "calls_real (RealExpr nm b) = Suc (calls_real_body b)"
| "calls_real_body (Real x) = 0"
| "calls_real_body (UnaryOperation op a) = calls_real a"
| "calls_real_body (BinaryOperation op a b) = calls_real a + calls_real b"
| "calls_real_body (ListOperation op es) = sum_list (map calls_real es)"
| "calls_real_body (Polynomial p) = 0"
| "calls_real_body (CaseDistinction vs cs) = sum_list (map (\<lambda>(st, e). calls_set st + calls_real e) cs)"
| "calls_real_body (Reference r) = 0"
| "calls_real_body (Variable v) = 0"
| "calls_set (SetExpr nm b) = Suc (calls_set_body b)"
| "calls_set_body (Singleton es) = sum_list (map calls_real es)"
| "calls_set_body (Ball cs r) = sum_list (map calls_real cs) + calls_real r"
| "calls_set_body (Rectangle bs) = sum_list (map (\<lambda>(a, b). calls_real a + calls_real b) bs)"
| "calls_set_body (ConvexPolytope mx b) =
     sum_list (map (\<lambda>row. sum_list (map calls_real row)) mx) + sum_list (map calls_real b)"
| "calls_set_body (Intersection ss) = sum_list (map calls_set ss)"
| "calls_set_body (SetCaseDistinction vs cs) = 0"
| "calls_set_body (SetReference r) = 0"
  by pat_completeness auto
termination by lexicographic_order

function ref_free_real :: "real_expr \<Rightarrow> bool"
  and ref_free_real_body :: "real_body \<Rightarrow> bool"
  and ref_free_set :: "set_expr \<Rightarrow> bool"
  and ref_free_set_body :: "set_body \<Rightarrow> bool" where
  "ref_free_real (RealExpr nm b) = ref_free_real_body b"
| "ref_free_real_body (Real x) = True"
| "ref_free_real_body (UnaryOperation op a) = ref_free_real a"
| "ref_free_real_body (BinaryOperation op a b) = (ref_free_real a \<and> ref_free_real b)"
| "ref_free_real_body (ListOperation op es) = (\<forall>e \<in> set es. ref_free_real e)"
| "ref_free_real_body (Polynomial p) = True"
| "ref_free_real_body (CaseDistinction vs cs) = (\<forall>(st, e) \<in> set cs. ref_free_set st \<and> ref_free_real e)"
| "ref_free_real_body (Reference r) = False"
| "ref_free_real_body (Variable v) = True"
| "ref_free_set (SetExpr nm b) = ref_free_set_body b"
| "ref_free_set_body (Singleton es) = (\<forall>e \<in> set es. ref_free_real e)"
| "ref_free_set_body (Ball cs r) = ((\<forall>e \<in> set cs. ref_free_real e) \<and> ref_free_real r)"
| "ref_free_set_body (Rectangle bs) = (\<forall>(a, b) \<in> set bs. ref_free_real a \<and> ref_free_real b)"
| "ref_free_set_body (ConvexPolytope mx b) =
     ((\<forall>row \<in> set mx. \<forall>e \<in> set row. ref_free_real e) \<and> (\<forall>e \<in> set b. ref_free_real e))"
| "ref_free_set_body (Intersection ss) = (\<forall>st \<in> set ss. ref_free_set st)"
| "ref_free_set_body (SetCaseDistinction vs cs) = True"
| "ref_free_set_body (SetReference r) = False"
  by pat_completeness auto
termination by lexicographic_order

section \<open>One node\<close>

text \<open>
  What a node denotes, costs and consists of, given the denotations \<open>\<delta>\<close>, \<open>\<delta>s\<close> and costs \<open>\<kappa>\<close>, \<open>\<kappa>s\<close> of
  its parts. A reference is not covered.
\<close>

fun den_body :: "platform \<Rightarrow> value_map \<Rightarrow> (real_expr \<Rightarrow> double result) \<Rightarrow> (set_expr \<Rightarrow> double list \<Rightarrow> bool result) \<Rightarrow>
    real_body \<Rightarrow> double result" where
  "den_body M env \<delta> \<delta>s (Real x) = Inr x"
| "den_body M env \<delta> \<delta>s (UnaryOperation op a) = rbind (\<delta> a) (\<lambda>x. Inr (unary_value M op x))"
| "den_body M env \<delta> \<delta>s (BinaryOperation op a b) =
     rbind (\<delta> a) (\<lambda>x. rbind (\<delta> b) (\<lambda>y. Inr (binary_value M op x y)))"
| "den_body M env \<delta> \<delta>s (ListOperation op es) =
     rfold (\<lambda>e acc. rbind (\<delta> e) (\<lambda>x. Inr (list_step M op acc x))) es (list_unit op)"
| "den_body M env \<delta> \<delta>s (Polynomial p) = eval_polynomial M (- 1) p env"
| "den_body M env \<delta> \<delta>s (CaseDistinction vs cs) =
     rbind (rmap (lookup_or Evaluation_Error env) vs) (\<lambda>pt.
       rfirst (\<lambda>(st, e). \<delta>s st pt) (\<lambda>(st, e). \<delta> e) cs)"
| "den_body M env \<delta> \<delta>s (Reference r) = Inl (Unknown_Reference r)"
| "den_body M env \<delta> \<delta>s (Variable v) = lookup_or (Unknown_Variable v) env v"

fun den_sbody :: "platform \<Rightarrow> (real_expr \<Rightarrow> double result) \<Rightarrow> (set_expr \<Rightarrow> double list \<Rightarrow> bool result) \<Rightarrow>
    set_body \<Rightarrow> double list \<Rightarrow> bool result" where
  "den_sbody M \<delta> \<delta>s (Singleton es) pt =
     rbind (rguard (length pt = length es) Assert_Failed) (\<lambda>_.
     rbind (rmap \<delta> es) (\<lambda>sing. Inr (e_isApprox M pt sing)))"
| "den_sbody M \<delta> \<delta>s (Ball cs r) pt =
     rbind (rguard (length pt = length cs) Assert_Failed) (\<lambda>_.
     rbind (rmap \<delta> cs) (\<lambda>cent.
     rbind (\<delta> r) (\<lambda>rad. Inr (dle (sq_dist M cent pt) (dmul M rad rad)))))"
| "den_sbody M \<delta> \<delta>s (Rectangle bs) pt =
     rbind (rguard (length pt = length bs) Assert_Failed) (\<lambda>_.
     rall (\<lambda>(a, x). rbind (\<delta> (fst a)) (\<lambda>v1. rbind (\<delta> (snd a)) (\<lambda>v2.
       Inr (in_bounds x v1 v2)))) (zip bs pt))"
| "den_sbody M \<delta> \<delta>s (ConvexPolytope mx b) pt =
     rbind (rguard (\<not> fst (check_capnp_matrix mx)) Bare_Throw) (\<lambda>_.
     rbind (rmap (rmap \<delta>) mx) (\<lambda>mat.
     rbind (rmap \<delta> b) (\<lambda>rhs.
     rbind (rguard ((\<forall>row \<in> set mat. length row = length pt) \<and> length mat = length rhs) Assert_Failed) (\<lambda>_.
     Inr (list_all (\<lambda>(row, c). dle (dot M row pt) c) (zip mat rhs))))))"
| "den_sbody M \<delta> \<delta>s (Intersection ss) pt = rall (\<lambda>st. \<delta>s st pt) ss"
| "den_sbody M \<delta> \<delta>s (SetCaseDistinction vs cs) pt = Inl (Which_Error 5)"
| "den_sbody M \<delta> \<delta>s (SetReference r) pt = Inr (pt = [])"

lemma den_real_body_node: "den_real_body M env b = den_body M env (den_real M env) (den_set M env) b"
  by (cases b) simp_all

lemma den_set_body_node: "den_set_body M env b pt = den_sbody M (den_real M env) (den_set M env) b pt"
  by (cases b) simp_all

fun cost_body :: "(real_expr \<Rightarrow> nat) \<Rightarrow> (set_expr \<Rightarrow> nat) \<Rightarrow> real_body \<Rightarrow> nat" where
  "cost_body \<kappa> \<kappa>s (UnaryOperation op a) = \<kappa> a"
| "cost_body \<kappa> \<kappa>s (BinaryOperation op a b) = \<kappa> a + \<kappa> b"
| "cost_body \<kappa> \<kappa>s (ListOperation op es) = sum_list (map \<kappa> es)"
| "cost_body \<kappa> \<kappa>s (CaseDistinction vs cs) = sum_list (map (\<lambda>(st, e). \<kappa>s st + \<kappa> e) cs)"
| "cost_body \<kappa> \<kappa>s _ = 0"

fun cost_sbody :: "(real_expr \<Rightarrow> nat) \<Rightarrow> (set_expr \<Rightarrow> nat) \<Rightarrow> set_body \<Rightarrow> nat" where
  "cost_sbody \<kappa> \<kappa>s (Singleton es) = sum_list (map \<kappa> es)"
| "cost_sbody \<kappa> \<kappa>s (Ball cs r) = sum_list (map \<kappa> cs) + \<kappa> r"
| "cost_sbody \<kappa> \<kappa>s (Rectangle bs) = sum_list (map (\<lambda>(a, b). \<kappa> a + \<kappa> b) bs)"
| "cost_sbody \<kappa> \<kappa>s (ConvexPolytope mx b) = sum_list (map (\<lambda>row. sum_list (map \<kappa> row)) mx) + sum_list (map \<kappa> b)"
| "cost_sbody \<kappa> \<kappa>s (Intersection ss) = sum_list (map \<kappa>s ss)"
| "cost_sbody \<kappa> \<kappa>s _ = 0"

lemma calls_node:
  "calls_real_body b = cost_body calls_real calls_set b" "calls_set_body sb = cost_sbody calls_real calls_set sb"
  by (cases b; simp) (cases sb; simp)

fun real_parts :: "real_body \<Rightarrow> real_expr list" where
  "real_parts (UnaryOperation op a) = [a]"
| "real_parts (BinaryOperation op a b) = [a, b]"
| "real_parts (ListOperation op es) = es"
| "real_parts (CaseDistinction vs cs) = map snd cs"
| "real_parts _ = []"

fun set_parts :: "real_body \<Rightarrow> set_expr list" where
  "set_parts (CaseDistinction vs cs) = map fst cs"
| "set_parts _ = []"

fun real_sparts :: "set_body \<Rightarrow> real_expr list" where
  "real_sparts (Singleton es) = es"
| "real_sparts (Ball cs r) = cs @ [r]"
| "real_sparts (Rectangle bs) = map fst bs @ map snd bs"
| "real_sparts (ConvexPolytope mx b) = concat mx @ b"
| "real_sparts _ = []"

fun set_sparts :: "set_body \<Rightarrow> set_expr list" where
  "set_sparts (Intersection ss) = ss"
| "set_sparts _ = []"

lemma le_sum_map: "x \<in> set xs \<Longrightarrow> f x \<le> sum_list (map f xs)" for f :: "'a \<Rightarrow> nat"
  by (rule member_le_sum_list) auto

lemma le_sum_map_le: "x \<in> set xs \<Longrightarrow> sum_list (map f xs) \<le> n \<Longrightarrow> f x \<le> n" for f :: "'a \<Rightarrow> nat"
  using le_sum_map [of x xs f] by linarith

lemma part_costs:
  "e \<in> set (real_parts b) \<Longrightarrow> \<kappa> e \<le> cost_body \<kappa> \<kappa>s b" "st \<in> set (set_parts b) \<Longrightarrow> \<kappa>s st \<le> cost_body \<kappa> \<kappa>s b"
  "e \<in> set (real_sparts sb) \<Longrightarrow> \<kappa> e \<le> cost_sbody \<kappa> \<kappa>s sb" "st \<in> set (set_sparts sb) \<Longrightarrow> \<kappa>s st \<le> cost_sbody \<kappa> \<kappa>s sb"
proof -
  have pair: "f a \<le> (\<Sum>(a, b)\<leftarrow>xs. f a + g b)" "g b \<le> (\<Sum>(a, b)\<leftarrow>xs. f a + g b)" if "(a, b) \<in> set xs" for f :: "'x \<Rightarrow> nat"
      and g :: "'y \<Rightarrow> nat" and a b xs
    using le_sum_map [OF that, of "\<lambda>(a, b). f a + g b"] by simp_all
  show "e \<in> set (real_parts b) \<Longrightarrow> \<kappa> e \<le> cost_body \<kappa> \<kappa>s b" "st \<in> set (set_parts b) \<Longrightarrow> \<kappa>s st \<le> cost_body \<kappa> \<kappa>s b"
    by (cases b; auto intro: le_sum_map pair)+
  have row: "\<kappa> e \<le> (\<Sum>row\<leftarrow>mx. sum_list (map \<kappa> row))" if "row \<in> set mx" "e \<in> set row" for row mx
    using le_sum_map [OF that(1), of "\<lambda>row. sum_list (map \<kappa> row)"] le_sum_map [OF that(2), of \<kappa>] by simp
  show "e \<in> set (real_sparts sb) \<Longrightarrow> \<kappa> e \<le> cost_sbody \<kappa> \<kappa>s sb" "st \<in> set (set_sparts sb) \<Longrightarrow> \<kappa>s st \<le> cost_sbody \<kappa> \<kappa>s sb"
    by (cases sb; auto intro: le_sum_map pair row trans_le_add1 trans_le_add2)+
qed

lemma ref_free_parts:
  "ref_free_real_body b \<Longrightarrow> (\<forall>e \<in> set (real_parts b). ref_free_real e) \<and> (\<forall>st \<in> set (set_parts b). ref_free_set st)"
  "ref_free_set_body sb \<Longrightarrow> (\<forall>e \<in> set (real_sparts sb). ref_free_real e) \<and> (\<forall>st \<in> set (set_sparts sb). ref_free_set st)"
  by (cases b; auto) (cases sb; auto)

lemma rbind_assoc: "rbind (rbind r f) g = rbind r (\<lambda>x. rbind (f x) g)"
  by (cases r) auto

lemma sum_list_zip_le:
  "length xs = length ys \<Longrightarrow> sum_list (map (\<lambda>(a, x). f a) (zip xs ys)) = sum_list (map f xs)"
  for f :: "'a \<Rightarrow> nat"
  by (induction xs ys rule: list_induct2) auto

text \<open>A node is implemented when its parts are.\<close>

context refinement begin

lemma in_lookup:
  assumes "\<And>s. I s \<Longrightarrow> bound_vars s = env"
  shows "refines_in I 0 (bnd get_st (\<lambda>s. case bound_vars s v of Some x \<Rightarrow> ret x | None \<Rightarrow> raise e)) (lookup_or e env v)"
  using assms by (auto simp: refines_in_def run_simps lookup_or_def split: option.splits intro!: exI [of _ "nesting_depth _"])

lemma in_eval_poly:
  assumes "\<And>s. I s \<Longrightarrow> bound_vars s = env"
  shows "refines_in I 0 (eval_poly M k p) (eval_polynomial M k p env)"
  using assms by (auto simp: refines_in_def run_simps eval_poly_def intro!: exI [of _ "nesting_depth _"])

lemma in_vector:
  "(\<And>e. e \<in> set es \<Longrightarrow> refines_in I (\<kappa> e) (ev e) (\<delta> e)) \<Longrightarrow>
    refines_in I (sum_list (map \<kappa> es)) (eval_to_vector ev es) (rmap \<delta> es)"
  unfolding eval_to_vector_def by (rule in_mapC)

lemma in_matrix:
  assumes "\<And>row e. row \<in> set mx \<Longrightarrow> e \<in> set row \<Longrightarrow> refines_in I (\<kappa> e) (ev e) (\<delta> e)"
  shows "refines_in I (\<Sum>row\<leftarrow>mx. sum_list (map \<kappa> row)) (eval_to_matrix ev mx)
    (rbind (rguard (\<not> fst (check_capnp_matrix mx)) Bare_Throw) (\<lambda>_. rmap (rmap \<delta>) mx))"
proof -
  have "refines_in I (\<Sum>row\<leftarrow>mx. sum_list (map \<kappa> row)) (mapC (mapC ev) mx) (rmap (rmap \<delta>) mx)"
    by (intro in_mapC) (use assms in auto)
  then show ?thesis
    by (auto simp: eval_to_matrix_def rguard_def split_def intro: in_raise)
qed

lemma in_eval_body:
  assumes env: "\<And>s. I s \<Longrightarrow> bound_vars s = env"
    and ev: "\<And>e. e \<in> set (real_parts b) \<Longrightarrow> refines_in I (\<kappa> e) (ev e) (\<delta> e)"
    and mem: "\<And>st pt. st \<in> set (set_parts b) \<Longrightarrow> refines_in I (\<kappa>s st) (mem st pt) (\<delta>s st pt)"
    and "\<And>r. b \<noteq> Reference r"
  shows "refines_in I (cost_body \<kappa> \<kappa>s b) (eval_body M ev mem b) (den_body M env \<delta> \<delta>s b)"
proof (cases b)
  case (ListOperation op es)
  then show ?thesis using ev by (auto simp: eval_list_def intro!: in_foldC in_bnd_same in_ret)
next
  case (CaseDistinction vs cs)
  have "refines_in I 0 (mapC case_var vs) (rmap (lookup_or Evaluation_Error env) vs)"
    using in_mapC [of vs "\<lambda>_. 0" case_var] in_lookup [OF env] by (simp add: case_var_def)
  then show ?thesis
    unfolding CaseDistinction eval_body.simps eval_case_def den_body.simps cost_body.simps
    by (rule in_bnd_free [OF _ in_select]) (use ev mem CaseDistinction in force)+
next
  case (BinaryOperation op a c)
  then show ?thesis using ev
    by (auto simp: eval_binary_def intro!: in_bnd [OF ev in_bnd_same [OF ev in_ret]])
qed (use assms in \<open>auto simp: eval_unary_def eval_var_def intro!: in_ret in_bnd_same in_lookup in_eval_poly\<close>)

lemma in_membership_body:
  assumes ev: "\<And>e. e \<in> set (real_sparts b) \<Longrightarrow> refines_in I (\<kappa> e) (ev e) (\<delta> e)"
    and mem: "\<And>st. st \<in> set (set_sparts b) \<Longrightarrow> refines_in I (\<kappa>s st) (mem st pt) (\<delta>s st pt)"
    and "\<And>r. b \<noteq> SetReference r"
  shows "refines_in I (cost_sbody \<kappa> \<kappa>s b) (membership_body M ev mem b pt) (den_sbody M \<delta> \<delta>s b pt)"
proof (cases b)
  case (Singleton es)
  then show ?thesis using ev
    by (auto simp: mem_singleton_def intro!: in_guarded in_bnd_same in_vector in_ret)
next
  case (Ball cs r)
  then show ?thesis using ev
    by (auto simp: mem_ball_def intro!: in_guarded in_bnd [OF in_vector in_bnd_same [OF ev in_ret]])
next
  case (Rectangle bs)
  have "refines_in I ((\<lambda>(a, b). \<kappa> a + \<kappa> b) ab)
      (case (ab, x) of ((a, b), x) \<Rightarrow> bnd (ev a) (\<lambda>val1. bnd (ev b) (\<lambda>val2. ret (in_bounds x val1 val2))))
      (case (ab, x) of (a, x) \<Rightarrow> rbind (\<delta> (fst a)) (\<lambda>v1. rbind (\<delta> (snd a)) (\<lambda>v2. Inr (in_bounds x v1 v2))))"
    if "ab \<in> set bs" for ab x
    using ev Rectangle that by (cases ab) (force intro!: in_bnd [OF ev in_bnd_same [OF ev in_ret]])
  then have "refines_in I (\<Sum>(ab, x)\<leftarrow>zip bs pt. case ab of (a, b) \<Rightarrow> \<kappa> a + \<kappa> b)
      (allC (\<lambda>((a, b), x). bnd (ev a) (\<lambda>val1. bnd (ev b) (\<lambda>val2. ret (in_bounds x val1 val2)))) (zip bs pt))
      (rall (\<lambda>(a, x). rbind (\<delta> (fst a)) (\<lambda>v1. rbind (\<delta> (snd a)) (\<lambda>v2. Inr (in_bounds x v1 v2)))) (zip bs pt))"
    by (intro in_allC) (fastforce dest: set_zip_leftD)
  then show ?thesis
    unfolding Rectangle membership_body.simps mem_rectangle_def den_sbody.simps cost_sbody.simps
    using sum_list_zip_le [of bs pt "\<lambda>(a, b). \<kappa> a + \<kappa> b"] by (intro in_guarded) simp
next
  case (ConvexPolytope mx c)
  have "refines_in I ((\<Sum>row\<leftarrow>mx. sum_list (map \<kappa> row)) + sum_list (map \<kappa> c))
     (mem_polytope M ev mx c pt)
     (rbind (rbind (rguard (\<not> fst (check_capnp_matrix mx)) Bare_Throw) (\<lambda>_. rmap (rmap \<delta>) mx))
       (\<lambda>mat. rbind (rmap \<delta> c) (\<lambda>rhs.
     rbind (rguard ((\<forall>row \<in> set mat. length row = length pt) \<and> length mat = length rhs) Assert_Failed) (\<lambda>_.
     Inr (list_all (\<lambda>(row, c). dle (dot M row pt) c) (zip mat rhs))))))"
    unfolding mem_polytope_def using ev ConvexPolytope
    by (intro in_bnd [OF in_matrix in_bnd_same [OF in_vector in_guarded [OF in_ret]]]) auto
  then show ?thesis by (simp add: ConvexPolytope rbind_assoc)
next
  case (Intersection ss)
  then show ?thesis using mem by (auto simp: mem_intersection_def intro!: in_allC)
qed (use assms in \<open>auto intro: in_raise\<close>)

end

lemma refines_lookup:
  "refines env 0 (bnd get_st (\<lambda>s. case bound_vars s v of Some x \<Rightarrow> ret x | None \<Rightarrow> raise e)) (lookup_or e env v)"
  unfolding refines_def by (rule vars.in_lookup)

lemma refines_eval_poly: "refines env 0 (eval_poly M k p) (eval_polynomial M k p env)"
  unfolding refines_def by (rule vars.in_eval_poly)

section \<open>All nodes\<close>

definition implements_upto :: "platform \<Rightarrow> value_map \<Rightarrow> nat \<Rightarrow> (real_expr \<Rightarrow> double interp) \<Rightarrow>
    (set_expr \<Rightarrow> double list \<Rightarrow> bool interp) \<Rightarrow> bool" where
  "implements_upto M env n ev mem \<longleftrightarrow>
     (\<forall>e. calls_real e \<le> n \<longrightarrow> ref_free_real e \<longrightarrow> refines env (calls_real e) (ev e) (den_real M env e)) \<and>
     (\<forall>st pt. calls_set st \<le> n \<longrightarrow> ref_free_set st \<longrightarrow>
        refines env (calls_set st) (mem st pt) (den_set M env st pt))"

lemma implements_real:
  "implements_upto M env n ev mem \<Longrightarrow> calls_real e \<le> n \<Longrightarrow> ref_free_real e \<Longrightarrow>
    refines env (calls_real e) (ev e) (den_real M env e)"
  by (simp add: implements_upto_def)

lemma implements_set:
  "implements_upto M env n ev mem \<Longrightarrow> calls_set st \<le> n \<Longrightarrow> ref_free_set st \<Longrightarrow>
    refines env (calls_set st) (mem st pt) (den_set M env st pt)"
  by (simp add: implements_upto_def)

lemma refines_vector:
  assumes "implements_upto M env n ev mem" "sum_list (map calls_real es) \<le> n" "\<forall>e \<in> set es. ref_free_real e"
  shows "refines env (sum_list (map calls_real es)) (eval_to_vector ev es) (rmap (den_real M env) es)"
  using assms unfolding refines_def
  by (intro vars.in_vector implements_real [unfolded refines_def]) (auto intro: le_sum_map_le)

lemma refines_matrix:
  assumes "implements_upto M env n ev mem"
    and le: "(\<Sum>row\<leftarrow>mx. sum_list (map calls_real row)) \<le> n"
    and "\<forall>row \<in> set mx. \<forall>e \<in> set row. ref_free_real e"
  shows "refines env (\<Sum>row\<leftarrow>mx. sum_list (map calls_real row)) (eval_to_matrix ev mx)
    (rbind (rguard (\<not> fst (check_capnp_matrix mx)) Bare_Throw) (\<lambda>_. rmap (rmap (den_real M env)) mx))"
  using assms unfolding refines_def
  by (intro vars.in_matrix implements_real [unfolded refines_def]) (auto intro: le_sum_map_le [OF _ le_sum_map_le [OF _ le]])

lemma eval_body_refines:
  assumes imp: "implements_upto M env n ev mem" and le: "calls_real_body b \<le> n" and rf: "ref_free_real_body b"
  shows "refines env (calls_real_body b) (eval_body M ev mem b) (den_real_body M env b)"
  unfolding calls_node den_real_body_node refines_def
proof (rule vars.in_eval_body)
  show "refines_in (\<lambda>s. bound_vars s = env) (calls_real e) (ev e) (den_real M env e)" if "e \<in> set (real_parts b)" for e
    using implements_real [OF imp, of e] ref_free_parts(1) [OF rf] part_costs(1) [OF that, of calls_real calls_set] le that
    by (simp add: refines_def calls_node)
  show "refines_in (\<lambda>s. bound_vars s = env) (calls_set st) (mem st pt) (den_set M env st pt)"
    if "st \<in> set (set_parts b)" for st pt
    using implements_set [OF imp, of st] ref_free_parts(1) [OF rf] part_costs(2) [OF that, of calls_set calls_real] le that
    by (simp add: refines_def calls_node)
qed (use rf in auto)

lemma membership_body_refines:
  assumes imp: "implements_upto M env n ev mem" and le: "calls_set_body b \<le> n" and rf: "ref_free_set_body b"
  shows "refines env (calls_set_body b) (membership_body M ev mem b pt) (den_set_body M env b pt)"
  unfolding calls_node den_set_body_node refines_def
proof (rule vars.in_membership_body)
  show "refines_in (\<lambda>s. bound_vars s = env) (calls_real e) (ev e) (den_real M env e)" if "e \<in> set (real_sparts b)" for e
    using implements_real [OF imp, of e] ref_free_parts(2) [OF rf] part_costs(3) [OF that, of calls_real calls_set] le that
    by (simp add: refines_def calls_node)
  show "refines_in (\<lambda>s. bound_vars s = env) (calls_set st) (mem st pt) (den_set M env st pt)"
    if "st \<in> set (set_sparts b)" for st
    using implements_set [OF imp, of st] ref_free_parts(2) [OF rf] part_costs(4) [OF that, of calls_set calls_real] le that
    by (simp add: refines_def calls_node)
qed (use rf in auto)

lemma interpreter_implements: "implements_upto M env n (eval M n) (membership M n)"
proof (induction n)
  case 0
  have "calls_real e = Suc (calls_real_body (re_body e))" "calls_set st = Suc (calls_set_body (se_body st))"
    for e st by (cases e, simp) (cases st, simp)
  then show ?case by (simp add: implements_upto_def)
next
  case (Suc n)
  have "refines env (calls_real e) (eval M (Suc n) e) (den_real M env e)"
    if "calls_real e \<le> Suc n" "ref_free_real e" for e
    using that eval_body_refines [OF Suc.IH] by (cases e) (simp add: refines_enter_real)
  moreover have "refines env (calls_set st) (membership M (Suc n) st pt) (den_set M env st pt)"
    if "calls_set st \<le> Suc n" "ref_free_set st" for st pt
    using that membership_body_refines [OF Suc.IH] by (cases st) (simp add: refines_enter_set)
  ultimately show ?case by (simp add: implements_upto_def)
qed

end
