(* ===== verification/Interp_Fuel.thy ===== *)
theory Interp_Fuel imports Interp_Spec begin

text \<open>
  Fuel, termination and divergence of the interpreter: more fuel never changes a result;
  expressions without case distinctions always return, cyclic references included; a
  cyclic set reference never returns.
\<close>

section \<open>More fuel\<close>

lemma below_case_option [below_intros]:
  "below m m' \<Longrightarrow> (\<And>x. below (f x) (f' x)) \<Longrightarrow>
    below (case z of None \<Rightarrow> m | Some x \<Rightarrow> f x) (case z of None \<Rightarrow> m' | Some x \<Rightarrow> f' x)"
  by (cases z) auto

lemma below_case_prod [below_intros]:
  "(\<And>a b. below (f a b) (f' a b)) \<Longrightarrow> below (case z of (a, b) \<Rightarrow> f a b) (case z of (a, b) \<Rightarrow> f' a b)"
  by (cases z) auto

lemma below_select_case [below_intros]:
  "(\<And>st. below (mem st pt) (mem' st pt)) \<Longrightarrow> (\<And>e. below (ev e) (ev' e)) \<Longrightarrow>
    below (select_case mem ev pt cs) (select_case mem' ev' pt cs)"
  by (induction cs) (auto intro!: below_intros)

lemmas eval_overloads = eval_unary_def eval_binary_def eval_list_def eval_var_def eval_ref_def
  eval_case_def eval_to_vector_def eval_to_matrix_def mem_singleton_def mem_ball_def
  mem_rectangle_def mem_polytope_def mem_intersection_def

lemma below_eval_body:
  assumes "\<And>e. below (ev e) (ev' e)" "\<And>st pt. below (mem st pt) (mem' st pt)"
  shows "below (eval_body M ev mem b) (eval_body M ev' mem' b)"
  by (cases b) (auto simp: eval_overloads intro!: below_intros assms)

lemma below_membership_body:
  assumes "\<And>e. below (ev e) (ev' e)" "\<And>st pt. below (mem st pt) (mem' st pt)"
  shows "below (membership_body M ev mem b pt) (membership_body M ev' mem' b pt)"
  by (cases b) (auto simp: eval_overloads split_def intro!: below_intros assms)

lemma below_Suc:
  "(\<forall>e. below (eval M n e) (eval M (Suc n) e)) \<and>
   (\<forall>st pt. below (membership M n st pt) (membership M (Suc n) st pt))"
proof (induction n)
  case 0
  show ?case by (simp add: below_def)
next
  case (Suc n)
  have "below (eval M (Suc n) e) (eval M (Suc (Suc n)) e)" for e
    unfolding eval.simps(2) [of M n] eval.simps(2) [of M "Suc n"]
    by (rule below_bnd [OF below_refl below_eval_body]) (use Suc.IH in auto)
  moreover have "below (membership M (Suc n) st pt) (membership M (Suc (Suc n)) st pt)" for st pt
    unfolding membership.simps(2) [of M n] membership.simps(2) [of M "Suc n"]
    by (rule below_bnd [OF below_refl below_membership_body]) (use Suc.IH in auto)
  ultimately show ?case by blast
qed

lemma below_le:
  assumes "n \<le> n'"
  shows "below (eval M n e) (eval M n' e)" and "below (membership M n st pt) (membership M n' st pt)"
proof -
  have "below (eval M n e) (eval M (n + k) e) \<and> below (membership M n st pt) (membership M (n + k) st pt)" for k
  proof (induction k)
    case (Suc k)
    then show ?case using below_Suc [of M "n + k"] by (auto simp: below_def simp del: eval.simps membership.simps)
  qed (simp add: below_def)
  with assms show "below (eval M n e) (eval M n' e)" "below (membership M n st pt) (membership M n' st pt)"
    by (metis le_add_diff_inverse)+
qed

section \<open>Cyclic references\<close>

lemma bnd_None: "m s = None \<Longrightarrow> bnd m f s = None"
  by (simp add: bnd_def)

lemma cyclic_set_run:
  "se_body st = SetReference r \<Longrightarrow> set_refs s r = Some st \<Longrightarrow> membership M n st pt s = None"
proof (induction n arbitrary: s)
  case (Suc n)
  then show ?case by (simp add: run_simps set_ref_def)
qed simp

lemma cyclic_real_run:
  assumes "re_body e = Reference r" "real_refs s r = Some e"
    and "0 \<le> nesting_depth s" "nesting_depth s \<le> MAX_NESTING_DEPTH"
    and "nesting_depth s + int n > MAX_NESTING_DEPTH"
  shows "eval M n e s = Some (Inl Evaluation_Error, s\<lparr>nesting_depth := MAX_NESTING_DEPTH + 1\<rparr>)"
  using assms
proof (induction n arbitrary: s)
  case (Suc n)
  show ?case
  proof (cases "nesting_depth s = MAX_NESTING_DEPTH")
    case True
    then show ?thesis by (simp add: run_simps MAX_NESTING_DEPTH_def)
  next
    case False
    with Suc.prems Suc.IH [of "s\<lparr>nesting_depth := nesting_depth s + 1\<rparr>"]
    show ?thesis by (auto simp: run_simps eval_ref_def MAX_NESTING_DEPTH_def)
  qed
qed simp

section \<open>Termination without case distinctions\<close>

text \<open>
  \<open>case_free\<close>: no case distinction, hence no call of \<open>membership\<close>, anywhere inside; the
  calls are then counted by the throwing counter alone.
\<close>

fun case_free :: "real_expr \<Rightarrow> bool" where
  "case_free (RealExpr nm b) = (case b of
      UnaryOperation op a \<Rightarrow> case_free a
    | BinaryOperation op a c \<Rightarrow> case_free a \<and> case_free c
    | ListOperation op es \<Rightarrow> (\<forall>e \<in> set es. case_free e)
    | CaseDistinction vs cs \<Rightarrow> False
    | _ \<Rightarrow> True)"

definition refs_case_free :: "advfunc \<Rightarrow> bool" where
  "refs_case_free s \<longleftrightarrow> (\<forall>e \<in> ran (real_refs s). case_free e)"

text \<open>
  \<open>settles d c\<close>: started with the counter at \<open>d\<close> or above, \<open>c\<close> returns, touches only the
  counter, and never lowers it.
\<close>

definition settles :: "int \<Rightarrow> 'a interp \<Rightarrow> bool" where
  "settles d c \<longleftrightarrow> (\<forall>s. refs_case_free s \<longrightarrow> d \<le> nesting_depth s \<longrightarrow>
     (\<exists>r d'. c s = Some (r, s\<lparr>nesting_depth := d'\<rparr>) \<and> nesting_depth s \<le> d'))"

lemma settlesD:
  "settles d c \<Longrightarrow> refs_case_free s \<Longrightarrow> d \<le> nesting_depth s \<Longrightarrow>
     \<exists>r d'. c s = Some (r, s\<lparr>nesting_depth := d'\<rparr>) \<and> nesting_depth s \<le> d'"
  unfolding settles_def by blast

named_theorems settle_intros

lemma settles_const [settle_intros]:
  "settles d (ret x)" "settles d (raise e)" "settles d (from_result r)"
  by (auto simp: settles_def run_simps intro!: exI [of _ "nesting_depth _"])

lemma settles_bnd [settle_intros]:
  assumes "settles d c" "\<And>x. settles d (f x)"
  shows "settles d (bnd c f)"
  unfolding settles_def
proof (intro allI impI)
  fix s :: advfunc assume s: "refs_case_free s" "d \<le> nesting_depth s"
  then obtain r d' where c: "c s = Some (r, s\<lparr>nesting_depth := d'\<rparr>)" "nesting_depth s \<le> d'"
    using assms(1) unfolding settles_def by blast
  have "refs_case_free (s\<lparr>nesting_depth := d'\<rparr>)" using s by (simp add: refs_case_free_def)
  then have "\<exists>r' d''. f x (s\<lparr>nesting_depth := d'\<rparr>) = Some (r', s\<lparr>nesting_depth := d''\<rparr>) \<and> d' \<le> d''" for x
    using assms(2) [of x] c s unfolding settles_def by fastforce
  then show "\<exists>r d'. bnd c f s = Some (r, s\<lparr>nesting_depth := d'\<rparr>) \<and> nesting_depth s \<le> d'"
    using c by (cases r) (auto simp: run_simps, meson order_trans)
qed

lemma settles_get [settle_intros]:
  assumes "\<And>s. refs_case_free s \<Longrightarrow> settles d (f s)"
  shows "settles d (bnd get_st f)"
  using assms by (auto simp: settles_def run_simps)

lemma settles_case_option [settle_intros]:
  "(z = None \<Longrightarrow> settles d m) \<Longrightarrow> (\<And>x. z = Some x \<Longrightarrow> settles d (f x)) \<Longrightarrow>
    settles d (case z of None \<Rightarrow> m | Some x \<Rightarrow> f x)"
  by (cases z) auto

lemma settles_foldC [settle_intros]:
  "(\<And>x a. x \<in> set xs \<Longrightarrow> settles d (f x a)) \<Longrightarrow> settles d (foldC f xs acc)"
  by (induction xs arbitrary: acc) (auto intro!: settle_intros)

lemma settles_eval_body:
  assumes "\<And>e. case_free e \<Longrightarrow> settles d (ev e)" "case_free (RealExpr nm b)"
  shows "settles d (eval_body M ev mem b)"
  using assms(2)
  by (cases b) (auto simp: eval_overloads eval_poly_def refs_case_free_def ranI
      intro!: settles_bnd settles_foldC settles_get settles_case_option settles_const assms(1))

lemma eval_settles:
  "case_free e \<Longrightarrow> settles (MAX_NESTING_DEPTH + 1 - int n) (eval M n e)" if "0 < n" for n
  using that
proof (induction n arbitrary: e)
  case (Suc n)
  show ?case unfolding settles_def
  proof (intro allI impI)
    fix s assume s: "refs_case_free s" "MAX_NESTING_DEPTH + 1 - int (Suc n) \<le> nesting_depth s"
    show "\<exists>r d'. eval M (Suc n) e s = Some (r, s\<lparr>nesting_depth := d'\<rparr>) \<and> nesting_depth s \<le> d'"
    proof (cases "nesting_depth s \<ge> MAX_NESTING_DEPTH")
      case True
      then show ?thesis by (auto simp: run_simps MAX_NESTING_DEPTH_def)
    next
      case False
      with s have n: "0 < n" by auto
      have "settles (MAX_NESTING_DEPTH + 1 - int n) (eval_body M (eval M n) (membership M n) (re_body e))"
        using settles_eval_body [of _ "eval M n" "re_name e" "re_body e"] Suc.IH [OF _ n] Suc.prems by simp
      with s False obtain r d' where "eval_body M (eval M n) (membership M n) (re_body e)
          (s\<lparr>nesting_depth := nesting_depth s + 1\<rparr>) = Some (r, s\<lparr>nesting_depth := d'\<rparr>)" "nesting_depth s + 1 \<le> d'"
        using settlesD [of "MAX_NESTING_DEPTH + 1 - int n" _ "s\<lparr>nesting_depth := nesting_depth s + 1\<rparr>"]
        unfolding refs_case_free_def by fastforce
      with False show ?thesis by (auto simp: run_simps MAX_NESTING_DEPTH_def intro!: exI [of _ d'])
    qed
  qed
qed simp

end
