(* ===== verification/Interp_Refs.thy ===== *)
theory Interp_Refs imports Interp_Fuel begin

text \<open>
  \<open>findReferences\<close> (\<open>adv-interpreter.cpp\<close>) against its specification: a walk over the nodes
  of the message in pre-order that records the named ones, and fails exactly when there are
  more than \<open>MAX_NESTING_DEPTH\<close> of them.
\<close>

section \<open>The nodes in pre-order\<close>

function nodes_real :: "real_expr \<Rightarrow> (real_expr + set_expr) list"
  and nodes_real_body :: "real_body \<Rightarrow> (real_expr + set_expr) list"
  and nodes_set :: "set_expr \<Rightarrow> (real_expr + set_expr) list"
  and nodes_set_body :: "set_body \<Rightarrow> (real_expr + set_expr) list" where
  "nodes_real (RealExpr nm b) = Inl (RealExpr nm b) # nodes_real_body b"
| "nodes_real_body (UnaryOperation op a) = nodes_real a"
| "nodes_real_body (BinaryOperation op a b) = nodes_real a @ nodes_real b"
| "nodes_real_body (ListOperation op es) = concat (map nodes_real es)"
| "nodes_real_body (CaseDistinction vs cs) = concat (map (\<lambda>(st, e). nodes_set st @ nodes_real e) cs)"
| "nodes_real_body (Real x) = []"
| "nodes_real_body (Polynomial p) = []"
| "nodes_real_body (Reference r) = []"
| "nodes_real_body (Variable v) = []"
| "nodes_set (SetExpr nm b) = Inr (SetExpr nm b) # nodes_set_body b"
| "nodes_set_body (Singleton es) = concat (map nodes_real es)"
| "nodes_set_body (Ball cs r) = concat (map nodes_real cs) @ nodes_real r"
| "nodes_set_body (Rectangle bs) = concat (map (\<lambda>(a, b). nodes_real a @ nodes_real b) bs)"
| "nodes_set_body (ConvexPolytope rows bs) =
     concat (map (\<lambda>row. concat (map nodes_real row)) rows) @ concat (map nodes_real bs)"
| "nodes_set_body (Intersection ss) = concat (map nodes_set ss)"
| "nodes_set_body (SetCaseDistinction vs cs) = concat (map (\<lambda>(st, e). nodes_set st @ nodes_set e) cs)"
| "nodes_set_body (SetReference r) = []"
  by pat_completeness auto
termination by lexicographic_order

definition visit :: "real_expr + set_expr \<Rightarrow> unit interp" where
  "visit x = bnd enter_real (\<lambda>_. case x of Inl e \<Rightarrow> record_real e | Inr st \<Rightarrow> record_set st)"

lemma bnd_assoc: "bnd (bnd m f) g = bnd m (\<lambda>x. bnd (f x) g)"
  by (rule ext) (auto simp: bnd_def split: option.splits sum.splits)

lemma bnd_ret_left: "bnd (ret x) f = f x"
  by (rule ext) (simp add: run_simps)

lemma forC_append: "forC f (xs @ ys) = bnd (forC f xs) (\<lambda>_. forC f ys)"
  by (induction xs) (simp_all add: bnd_assoc bnd_ret_left)

lemma forC_concat_map:
  "(\<And>x. x \<in> set xs \<Longrightarrow> g x = forC f (h x)) \<Longrightarrow> forC g xs = forC f (concat (map h xs))"
  by (induction xs) (simp_all add: forC_append)

lemma bnd_eqI: "m = m' \<Longrightarrow> (\<And>x. f x = f' x) \<Longrightarrow> bnd m f = bnd m' f'"
  by (rule arg_cong2 [of m m' f f' bnd]) auto

lemma find_refs_walk:
  "find_refs_real e = forC visit (nodes_real e)"
  "find_refs_real_body b = forC visit (nodes_real_body b)"
  "find_refs_set st = forC visit (nodes_set st)"
  "find_refs_set_body sb = forC visit (nodes_set_body sb)"
proof (induction e and b and st and sb rule: find_refs_real_find_refs_real_body_find_refs_set_find_refs_set_body.induct)
qed (auto simp: visit_def forC_append bnd_assoc intro!: forC_concat_map bnd_eqI)

section \<open>What the walk records\<close>

fun named_real :: "real_expr + set_expr \<Rightarrow> (string \<times> real_expr) list" where
  "named_real (Inl e) = (case re_name e of None \<Rightarrow> [] | Some nm \<Rightarrow> [(nm, e)])"
| "named_real (Inr st) = []"

fun named_set :: "real_expr + set_expr \<Rightarrow> (string \<times> set_expr) list" where
  "named_set (Inr st) = (case se_name st of None \<Rightarrow> [] | Some nm \<Rightarrow> [(nm, st)])"
| "named_set (Inl e) = []"

definition add_bindings :: "(real_expr + set_expr) list \<Rightarrow> advfunc \<Rightarrow> advfunc" where
  "add_bindings xs s = s\<lparr>
     nesting_depth := nesting_depth s + int (length xs),
     real_refs := map_upds (real_refs s) (map fst (concat (map named_real xs))) (map snd (concat (map named_real xs))),
     set_refs := map_upds (set_refs s) (map fst (concat (map named_set xs))) (map snd (concat (map named_set xs)))\<rparr>"

lemma visit_run:
  "nesting_depth s < MAX_NESTING_DEPTH \<Longrightarrow> visit x s = Some (Inr (), add_bindings [x] s)"
  by (cases x) (auto simp: visit_def run_simps record_real_def record_set_def add_bindings_def
      MAX_NESTING_DEPTH_def split: option.splits)

lemma add_bindings_Cons: "add_bindings xs (add_bindings [x] s) = add_bindings (x # xs) s"
  by (cases x) (auto simp: add_bindings_def map_upds_append1 split: option.splits)

lemma walk_run:
  "nesting_depth s + int (length xs) \<le> MAX_NESTING_DEPTH \<Longrightarrow>
    forC visit xs s = Some (Inr (), add_bindings xs s)"
proof (induction xs arbitrary: s)
  case Nil
  then show ?case by (simp add: run_simps add_bindings_def)
next
  case (Cons x xs)
  moreover have "nesting_depth (add_bindings [x] s) = nesting_depth s + 1" by (simp add: add_bindings_def)
  ultimately show ?case by (simp add: run_simps visit_run add_bindings_Cons)
qed

lemma walk_too_long:
  "0 \<le> nesting_depth s \<Longrightarrow> nesting_depth s \<le> MAX_NESTING_DEPTH \<Longrightarrow>
   nesting_depth s + int (length xs) > MAX_NESTING_DEPTH \<Longrightarrow>
    \<exists>t. forC visit xs s = Some (Inl Evaluation_Error, t)"
proof (induction xs arbitrary: s)
  case (Cons x xs)
  have d: "nesting_depth (add_bindings [x] s) = nesting_depth s + 1" by (simp add: add_bindings_def)
  show ?case
  proof (cases "nesting_depth s = MAX_NESTING_DEPTH")
    case True
    then show ?thesis by (simp add: run_simps visit_def MAX_NESTING_DEPTH_def)
  next
    case False
    with Cons.prems Cons.IH [of "add_bindings [x] s"] d show ?thesis by (simp add: run_simps visit_run)
  qed
qed simp

end
