(* ===== verification/Binary64.thy ===== *)
theory Binary64 imports Rounding begin

text \<open>
  The rounding of IEEE 754 binary64, round to nearest with ties to even, with gradual
  underflow and overflow to infinity, as a function on the reals; the proof that it
  satisfies \<open>rounding\<close>; and the platform \<open>ieee64\<close>: binary64 with a correctly rounded
  maths library and left-to-right reductions.
\<close>

section \<open>Nearest integer, ties to even\<close>

definition rne :: "real \<Rightarrow> int" where
  "rne y = (let f = \<lfloor>y\<rfloor> in
     if y - of_int f < 1/2 then f
     else if 1/2 < y - of_int f then f + 1
     else if even f then f else f + 1)"

lemma rne_int [simp]: "rne (of_int i) = i"
  by (simp add: rne_def)

lemma rne_floor: "\<lfloor>y\<rfloor> \<le> rne y \<and> rne y \<le> \<lfloor>y\<rfloor> + 1"
  by (simp add: rne_def Let_def)

lemma rne_mono: "x \<le> y \<Longrightarrow> rne x \<le> rne y"
proof (cases "\<lfloor>x\<rfloor> = \<lfloor>y\<rfloor>")
  case True
  assume "x \<le> y"
  with True show ?thesis by (auto simp: rne_def Let_def)
next
  case False
  assume "x \<le> y"
  then have "\<lfloor>x\<rfloor> \<le> \<lfloor>y\<rfloor>" by (rule floor_mono)
  with False have "\<lfloor>x\<rfloor> + 1 \<le> \<lfloor>y\<rfloor>" by simp
  with rne_floor [of x] rne_floor [of y] show ?thesis by linarith
qed

lemma rne_neg: "rne (- x) = - rne x"
proof (cases "x = of_int \<lfloor>x\<rfloor>")
  case True
  have "- x = of_int (- \<lfloor>x\<rfloor>)"
    by (subst True) simp
  then have "rne (- x) = - \<lfloor>x\<rfloor>" by (metis rne_int)
  moreover have "rne x = \<lfloor>x\<rfloor>" by (metis True rne_int)
  ultimately show ?thesis by simp
next
  case False
  then have "\<lfloor>- x\<rfloor> = - \<lfloor>x\<rfloor> - 1"
    by linarith
  then show ?thesis
    by (auto simp: rne_def Let_def)
qed

lemma rne_ge: "of_int i \<le> x \<Longrightarrow> i \<le> rne x"
  using rne_mono [of "of_int i" x] by simp

lemma rne_le: "x \<le> of_int i \<Longrightarrow> rne x \<le> i"
  using rne_mono [of x "of_int i"] by simp

section \<open>Rounding a real\<close>

definition expo64 :: "real \<Rightarrow> int" where
  "expo64 x = max (- 1074) (\<lfloor>log 2 \<bar>x\<bar>\<rfloor> - 52)"

definition val64 :: "real \<Rightarrow> real" where
  "val64 x = of_int (rne (x / 2 powi expo64 x)) * 2 powi expo64 x"

definition rnd64 :: "real \<Rightarrow> double" where
  "rnd64 x =
     (if x = 0 then Fin 0
      else if 2 ^ 1024 \<le> \<bar>val64 x\<bar> then inf_of (x < 0)
      else if val64 x = 0 then zero_of (x < 0)
      else Fin (val64 x))"

lemma powi_pos [simp]: "0 < (2::real) powi e"
  by (rule zero_less_power_int) simp

lemma powi_split: "(2::real) powi (a + b) = 2 powi a * 2 powi b"
  by (rule power_int_add) simp

lemma powi_diff_int: "b \<le> a \<Longrightarrow> (2::real) powi a / 2 powi b = of_int (2 ^ nat (a - b))"
  by (simp add: power_int_diff [symmetric] power_int_nonneg_exp)

lemma log2_bounds:
  assumes "x \<noteq> 0"
  shows "2 powi \<lfloor>log 2 \<bar>x\<bar>\<rfloor> \<le> \<bar>x\<bar>" and "\<bar>x\<bar> < 2 powi (\<lfloor>log 2 \<bar>x\<bar>\<rfloor> + 1)"
proof -
  have e: "(2::real) powi k = 2 powr of_int k" for k
    by (rule powr_real_of_int' [symmetric]) auto
  have x: "2 powr log 2 \<bar>x\<bar> = \<bar>x\<bar>"
    using assms by simp
  show "2 powi \<lfloor>log 2 \<bar>x\<bar>\<rfloor> \<le> \<bar>x\<bar>"
    unfolding e by (subst (2) x [symmetric], subst powr_le_cancel_iff) simp_all
  show "\<bar>x\<bar> < 2 powi (\<lfloor>log 2 \<bar>x\<bar>\<rfloor> + 1)"
    unfolding e by (subst (1) x [symmetric], subst powr_less_cancel_iff) (simp, linarith)
qed

lemma log2_upper:
  assumes "x \<noteq> 0" and "\<bar>x\<bar> < 2 powi (k + 1)"
  shows "\<lfloor>log 2 \<bar>x\<bar>\<rfloor> \<le> k"
proof (rule ccontr)
  assume "\<not> ?thesis"
  then have "(2::real) powi (k + 1) \<le> 2 powi \<lfloor>log 2 \<bar>x\<bar>\<rfloor>"
    by (intro power_int_increasing) auto
  with log2_bounds(1) [OF assms(1)] assms(2) show False by simp
qed

lemma log2_mono: "x \<noteq> 0 \<Longrightarrow> \<bar>x\<bar> \<le> \<bar>y\<bar> \<Longrightarrow> \<lfloor>log 2 \<bar>x\<bar>\<rfloor> \<le> \<lfloor>log 2 \<bar>y\<bar>\<rfloor>"
  by (intro floor_mono) auto

lemma val64_integral:
  "x / 2 powi expo64 x = of_int i \<Longrightarrow> val64 x = x"
proof -
  assume a: "x / 2 powi expo64 x = of_int i"
  then have "x = of_int i * 2 powi expo64 x"
    by (simp add: field_simps)
  with a show ?thesis
    unfolding val64_def by simp
qed

lemma dyadic_integral:
  fixes x :: real
  assumes "x = of_int m * 2 powi e" and "E \<le> e"
  shows "\<exists>i. x / 2 powi E = of_int i"
proof -
  have "x / 2 powi E = of_int m * (2 powi e / 2 powi E)"
    by (simp add: assms(1))
  then show ?thesis
    unfolding powi_diff_int [OF assms(2)] by (metis of_int_mult)
qed

lemma val64_dyadic:
  assumes "\<bar>m\<bar> \<le> 2 ^ 53" and "- 1074 \<le> e"
  shows "val64 (of_int m * 2 powi e) = of_int m * 2 powi e" (is "val64 ?x = ?x")
proof (cases "m = 0")
  case True
  then show ?thesis by (simp add: val64_def rne_def)
next
  case False
  have nz: "?x \<noteq> 0" using False by simp
  have p: "(2::real) powi (53 + e) = 2 ^ 53 * 2 powi e"
    by (simp add: powi_split)
  have m_real: "\<bar>real_of_int m\<bar> \<le> 2 ^ 53"
    using assms(1) by (metis of_int_abs of_int_le_iff of_int_numeral of_int_power)
  show ?thesis
  proof (cases "\<bar>m\<bar> = 2 ^ 53")
    case True
    then have m: "m = sgn m * 2 ^ 53" by (metis mult.commute abs_mult_sgn)
    have x: "?x = of_int (sgn m) * 2 powi (53 + e)"
      by (subst m) (simp add: p)
    have "\<bar>?x\<bar> = 2 powi (53 + e)"
      using False by (subst x) (simp add: abs_mult sgn_if)
    then have "\<lfloor>log 2 \<bar>?x\<bar>\<rfloor> \<le> 53 + e"
      by (intro log2_upper [OF nz]) (simp add: powi_split)
    then have "expo64 ?x \<le> 53 + e"
      using assms(2) by (simp add: expo64_def)
    then show ?thesis
      using dyadic_integral [OF x] val64_integral by blast
  next
    case less: False
    then have "\<bar>real_of_int m\<bar> < 2 ^ 53"
      using assms(1) by (metis of_int_abs of_int_less_iff of_int_numeral of_int_power order_less_le)
    then have "\<bar>?x\<bar> < 2 powi (53 + e)"
      by (simp add: abs_mult p)
    then have "\<bar>?x\<bar> < 2 powi ((52 + e) + 1)"
      by (simp add: add.commute)
    then have "\<lfloor>log 2 \<bar>?x\<bar>\<rfloor> \<le> 52 + e"
      by (rule log2_upper [OF nz])
    then have "expo64 ?x \<le> e"
      using assms(2) by (simp add: expo64_def)
    then show ?thesis
      using dyadic_integral [OF refl] val64_integral by blast
  qed
qed

lemma val64_neg: "val64 (- x) = - val64 x"
  by (simp add: val64_def expo64_def rne_neg)

lemma val64_nonneg: "0 \<le> x \<Longrightarrow> 0 \<le> val64 x"
  unfolding val64_def using rne_ge [of 0 "x / 2 powi expo64 x"] by simp

lemma val64_mono_pos:
  assumes "0 < x" and "x \<le> y"
  shows "val64 x \<le> val64 y"
proof (cases "expo64 x = expo64 y")
  case True
  have "rne (x / 2 powi expo64 y) \<le> rne (y / 2 powi expo64 y)"
    using assms by (intro rne_mono divide_right_mono) (auto intro: less_imp_le)
  with True show ?thesis
    by (simp add: val64_def)
next
  case False
  define kx ky where "kx = \<lfloor>log 2 \<bar>x\<bar>\<rfloor>" and "ky = \<lfloor>log 2 \<bar>y\<bar>\<rfloor>"
  have "kx \<le> ky"
    unfolding kx_def ky_def using assms by (intro log2_mono) auto
  with False have k: "kx < ky" and Ey: "expo64 y = ky - 52" and Ex: "expo64 x \<le> expo64 y"
    by (auto simp: expo64_def kx_def [symmetric] ky_def [symmetric] max_def split: if_splits)
  have "x < 2 powi (kx + 1)"
    using log2_bounds(2) [of x] assms by (simp add: kx_def)
  also have "(2::real) powi (kx + 1) \<le> 2 powi ky"
    using k by (intro power_int_increasing) auto
  finally have "x / 2 powi expo64 x \<le> 2 powi ky / 2 powi expo64 x"
    by (intro divide_right_mono) (auto intro: less_imp_le)
  also have "\<dots> = of_int (2 ^ nat (ky - expo64 x))"
    using Ex Ey by (intro powi_diff_int) simp
  finally have "rne (x / 2 powi expo64 x) \<le> 2 ^ nat (ky - expo64 x)"
    by (rule rne_le)
  then have "val64 x \<le> of_int (2 ^ nat (ky - expo64 x)) * 2 powi expo64 x"
    unfolding val64_def by (metis mult_right_mono of_int_le_iff less_imp_le powi_pos)
  also have "\<dots> = 2 powi ky"
    using Ex Ey by (subst powi_diff_int [symmetric]) (auto simp: less_imp_neq)
  also have "\<dots> = of_int (2 ^ 52) * 2 powi expo64 y"
    unfolding Ey by (simp add: power_int_diff)
  also have "\<dots> \<le> val64 y"
  proof -
    have "2 powi ky \<le> y"
      using log2_bounds(1) [of y] assms by (simp add: ky_def)
    then have "of_int (2 ^ 52) \<le> y / 2 powi expo64 y"
      unfolding Ey by (simp add: power_int_diff field_simps)
    then have "2 ^ 52 \<le> rne (y / 2 powi expo64 y)"
      by (rule rne_ge)
    then show ?thesis
      unfolding val64_def by (intro mult_right_mono) (auto intro: less_imp_le)
  qed
  finally show ?thesis .
qed

lemma val64_mono:
  assumes "x \<le> y"
  shows "val64 x \<le> val64 y"
proof (cases "0 < x \<or> y < 0")
  case True
  then show ?thesis
    using val64_mono_pos [of x y] val64_mono_pos [of "- y" "- x"] assms by (auto simp: val64_neg)
next
  case False
  then have "0 \<le> val64 (- x)" and "0 \<le> val64 y"
    by (auto intro!: val64_nonneg)
  then show ?thesis by (simp add: val64_neg)
qed

section \<open>Binary64 is a rounding\<close>

lemma val64_neg_iff: "val64 z \<noteq> 0 \<Longrightarrow> val64 z < 0 \<longleftrightarrow> z < 0"
  using val64_nonneg [of z] val64_nonneg [of "- z"] by (cases "0 \<le> z") (auto simp: val64_neg)

definition place64 :: "bool \<Rightarrow> real \<Rightarrow> double" where
  "place64 s v =
     (if 2 ^ 1024 \<le> v then PInf else if v \<le> - (2 ^ 1024) then NInf
      else if v = 0 then zero_of s else Fin v)"

lemma rnd64_place: "rnd64 z = place64 (z < 0) (val64 z)"
proof (cases "z = 0 \<or> val64 z = 0")
  case True
  then show ?thesis by (auto simp: rnd64_def place64_def val64_def rne_def)
next
  case False
  then have "val64 z < 0 \<longleftrightarrow> z < 0" using val64_neg_iff by blast
  moreover have "(0::real) < 2 ^ 1024" by simp
  ultimately show ?thesis using False
    unfolding rnd64_def place64_def inf_of_def by (auto simp: abs_if)
qed

lemma place64_mono:
  assumes "v \<le> w"
  shows "dle (place64 s v) (place64 t w)"
proof -
  have zeros: "dle (zero_of s) (zero_of t)" "0 \<le> u \<Longrightarrow> dle (zero_of s) (Fin u)"
    "u \<le> 0 \<Longrightarrow> dle (Fin u) (zero_of t)" "zero_of s \<noteq> Nan" for u s t
    by (auto simp: zero_of_def dle_def dlt_def deq_def)
  show ?thesis
    using assms unfolding place64_def by (simp add: zeros)
qed

lemma rnd64_mono: "x \<le> y \<Longrightarrow> dle (rnd64 x) (rnd64 y)"
  unfolding rnd64_place by (intro place64_mono val64_mono)

lemma rnd64_fixed: "y \<noteq> 0 \<Longrightarrow> \<bar>y\<bar> < 2 ^ 1024 \<Longrightarrow> val64 y = y \<Longrightarrow> rnd64 y = Fin y"
  by (simp add: rnd64_def)

lemma rnd64_dyadic:
  assumes "\<bar>m\<bar> \<le> 2 ^ 53" and "- 1074 \<le> e" and "e \<le> 970"
  shows "rnd64 (of_int m * 2 powi e) = Fin (of_int m * 2 powi e)"
proof (cases "m = 0")
  case True
  then show ?thesis by (simp add: rnd64_def)
next
  case False
  have "\<bar>real_of_int m\<bar> \<le> 2 ^ 53"
    using assms(1) by (metis of_int_abs of_int_le_iff of_int_numeral of_int_power)
  moreover have "(2::real) powi e \<le> 2 powi 970"
    using assms(3) by (intro power_int_increasing) auto
  ultimately have "\<bar>of_int m * 2 powi e\<bar> \<le> (2 ^ 53 * 2 powi 970 :: real)"
    unfolding abs_mult by (intro mult_mono) (auto intro: less_imp_le)
  also have "\<dots> < 2 ^ 1024"
    by simp
  finally show ?thesis
    using False assms by (intro rnd64_fixed val64_dyadic) auto
qed

lemma rnd64_idem: "rnd64 x = Fin y \<Longrightarrow> rnd64 y = Fin y"
proof -
  assume a: "rnd64 x = Fin y"
  show ?thesis
  proof (cases "y = 0")
    case True
    then show ?thesis by (simp add: rnd64_def)
  next
    case False
    let ?m = "rne (x / 2 powi expo64 x)"
    from a False have y: "y = val64 x" "\<bar>y\<bar> < 2 ^ 1024" and x: "x \<noteq> 0"
      by (auto simp: rnd64_def inf_of_def zero_of_def split: if_splits)
    have "\<bar>x\<bar> < 2 powi (\<lfloor>log 2 \<bar>x\<bar>\<rfloor> + 1)"
      using x by (rule log2_bounds)
    also have "(2::real) powi (\<lfloor>log 2 \<bar>x\<bar>\<rfloor> + 1) \<le> 2 powi (53 + expo64 x)"
      by (intro power_int_increasing) (auto simp: expo64_def)
    finally have "\<bar>x / 2 powi expo64 x\<bar> \<le> 2 ^ 53"
      by (simp add: powi_split abs_divide divide_le_eq)
    then have "x / 2 powi expo64 x \<le> of_int (2 ^ 53)" and "of_int (- (2 ^ 53)) \<le> x / 2 powi expo64 x"
      by (simp_all only: abs_le_iff of_int_minus of_int_power of_int_numeral) linarith+
    then have "\<bar>?m\<bar> \<le> 2 ^ 53"
      using rne_le rne_ge by (metis abs_le_iff minus_le_iff)
    then have "val64 y = y"
      unfolding y(1) by (subst (1 2) val64_def, intro val64_dyadic) (auto simp: expo64_def)
    with False y(2) show ?thesis by (intro rnd64_fixed)
  qed
qed

lemma rnd64_neg: "x \<noteq> 0 \<Longrightarrow> rnd64 (- x) = dneg (rnd64 x)"
  by (auto simp: rnd64_def val64_neg inf_of_def zero_of_def)

interpretation r64: rounding rnd64
  by unfold_locales (fact rnd64_mono rnd64_dyadic rnd64_neg rnd64_idem)+

definition ieee64 :: platform where
  "ieee64 = std_platform rnd64"

interpretation ieee64_p: platform_laws ieee64
  unfolding ieee64_def by (rule std_platform_laws) unfold_locales

lemma ieee64_rnd [simp]: "rnd ieee64 = rnd64"
  by (simp add: ieee64_def)

end
