(* ===== verification/Interp_Props.thy ===== *)
theory Interp_Props imports Interp_Refs Binary64 begin

text \<open>
  The properties of the interpreter's user functions \<open>evaluate\<close>, \<open>testMembership\<close> and
  \<open>setAdv\<close>: agreement with the denotation, termination and divergence, name resolution.
\<close>

section \<open>Agreement with the denotation\<close>

lemma start_call_run:
  "adv_valid s \<Longrightarrow> start_call env s = Some (Inr (), s\<lparr>bound_vars := env, nesting_depth := 0\<rparr>)"
  by (simp add: start_call_def run_simps)

lemma refines_run:
  assumes "refines env k c r" "k \<le> 10000"
  shows "\<exists>d. c (s\<lparr>bound_vars := env, nesting_depth := 0\<rparr>) = Some (r, s\<lparr>bound_vars := env, nesting_depth := d\<rparr>) \<and>
    0 \<le> d \<and> d \<le> int k"
  using refinesD [OF assms(1), of "s\<lparr>bound_vars := env, nesting_depth := 0\<rparr>"] assms(2)
  by (auto simp: MAX_NESTING_DEPTH_def)

lemma start_call_invalid: "\<not> adv_valid s \<Longrightarrow> start_call env s = Some (Inl Assert_Failed, s)"
  by (simp add: start_call_def run_simps)

lemma evaluate_denotes_lemma:
  assumes "adv_valid s" and "ref_free_real e" and "calls_real e \<le> 10000" and "calls_real e \<le> n"
  shows "\<exists>d. evaluate M n e env s =
    Some (den_real M env e, s\<lparr>bound_vars := env, nesting_depth := d\<rparr>) \<and> 0 \<le> d \<and> d \<le> int (calls_real e)"
proof -
  have "refines env (calls_real e) (eval M n e) (den_real M env e)"
    by (rule implements_real [OF interpreter_implements assms(4,2)])
  from refines_run [OF this assms(3)] show ?thesis using assms(1) by (auto simp: evaluate_def run_simps start_call_run)
qed

text \<open>On an expression without references and with at most \<open>MAX_NESTING_DEPTH\<close> nodes, \<open>evaluate\<close> with as much fuel as nodes returns the value, or the exception, of the denotation of the expression, and leaves the reference maps and the advertisement alone.\<close>

theorem evaluate_denotes:
  assumes "adv_valid s" and "ref_free_real e" and "calls_real e \<le> 10000" and "calls_real e \<le> n"
  shows "\<exists>d. evaluate M n e env s =
    Some (den_real M env e, s\<lparr>bound_vars := env, nesting_depth := d\<rparr>) \<and> 0 \<le> d \<and> d \<le> int (calls_real e)"
  using assms by (rule evaluate_denotes_lemma)

theorem evaluate_denotes_witness:
  "\<exists>d. evaluate exact 3 (RealExpr None (BinaryOperation OpSum (var_ref ''P'') (real_lit (Fin 2)))) [''P'' \<mapsto> Fin 5]
      (new_advfunc\<lparr>adv_valid := True\<rparr>) =
    Some (Inr (Fin 7), new_advfunc\<lparr>adv_valid := True, bound_vars := [''P'' \<mapsto> Fin 5], nesting_depth := d\<rparr>)"
  using evaluate_denotes [of "new_advfunc\<lparr>adv_valid := True\<rparr>"
      "RealExpr None (BinaryOperation OpSum (var_ref ''P'') (real_lit (Fin 2)))" 3 exact "[''P'' \<mapsto> Fin 5]"]
  by (auto simp: lookup_or_def dadd_def exact_rnd)

lemma membership_denotes_lemma:
  assumes "adv_valid s" and "ref_free_set st" and "calls_set st \<le> 10000" and "calls_set st \<le> n"
  shows "\<exists>d. test_membership M n st pt env s =
    Some (den_set M env st pt, s\<lparr>bound_vars := env, nesting_depth := d\<rparr>) \<and> 0 \<le> d \<and> d \<le> int (calls_set st)"
proof -
  have "refines env (calls_set st) (membership M n st pt) (den_set M env st pt)"
    by (rule implements_set [OF interpreter_implements assms(4,2)])
  from refines_run [OF this assms(3)] show ?thesis using assms(1) by (auto simp: test_membership_def run_simps start_call_run)
qed

text \<open>\<open>testMembership\<close> on a set without references and with at most \<open>MAX_NESTING_DEPTH\<close> nodes returns the verdict, or the exception, of the denotation of the set.\<close>

theorem membership_denotes:
  assumes "adv_valid s" and "ref_free_set st" and "calls_set st \<le> 10000" and "calls_set st \<le> n"
  shows "\<exists>d. test_membership M n st pt env s =
    Some (den_set M env st pt, s\<lparr>bound_vars := env, nesting_depth := d\<rparr>) \<and> 0 \<le> d \<and> d \<le> int (calls_set st)"
  using assms by (rule membership_denotes_lemma)

theorem membership_denotes_witness:
  "\<exists>d. test_membership exact 3 (set_of_body (Rectangle [(real_lit (Fin 2), real_lit (Fin 1))])) [Fin (3/2)] Map.empty
      (new_advfunc\<lparr>adv_valid := True\<rparr>) =
    Some (Inr True, new_advfunc\<lparr>adv_valid := True, bound_vars := Map.empty, nesting_depth := d\<rparr>)"
  using membership_denotes [of "new_advfunc\<lparr>adv_valid := True\<rparr>"
      "set_of_body (Rectangle [(real_lit (Fin 2), real_lit (Fin 1))])" 3 exact "[Fin (3/2)]" Map.empty]
  by (auto simp: rguard_def in_bounds_def dmin_def dmax_def dlt_def)

text \<open>The set a list of literal bounds denotes.\<close>

definition literal_box :: "(real \<times> real) list \<Rightarrow> set_expr" where
  "literal_box bs = set_of_body (Rectangle (map (\<lambda>(a, b). (real_lit (Fin a), real_lit (Fin b))) bs))"

lemma calls_literal_box: "calls_set (literal_box bs) = 2 * length bs + 1"
  by (induction bs) (auto simp: literal_box_def)

lemma in_bounds_Fin: "in_bounds (Fin x) (Fin a) (Fin b) \<longleftrightarrow> min a b \<le> x \<and> x \<le> max a b"
  by (auto simp: in_bounds_def dmin_def dmax_def dlt_def min_def max_def)

lemma den_literal_box:
  assumes "length pt = length bs"
  shows "den_set M env (literal_box bs) (map Fin pt) =
    Inr (\<forall>i < length bs. min (fst (bs ! i)) (snd (bs ! i)) \<le> pt ! i \<and> pt ! i \<le> max (fst (bs ! i)) (snd (bs ! i)))"
proof -
  have "rall (\<lambda>(a, x). rbind (den_real M env (fst a)) (\<lambda>v1. rbind (den_real M env (snd a)) (\<lambda>v2.
       Inr (in_bounds x v1 v2)))) (zip (map (\<lambda>(a, b). (real_lit (Fin a), real_lit (Fin b))) bs) (map Fin pt)) =
    Inr (list_all2 (\<lambda>(a, b) x. min a b \<le> x \<and> x \<le> max a b) bs pt)"
    using assms [symmetric] by (induction bs pt rule: list_induct2) (auto simp: in_bounds_Fin)
  then show ?thesis
    using assms by (simp add: literal_box_def rguard_def list_all2_iff_nth split_def)
qed

text \<open>\<open>testMembership\<close> on a rectangle of finite literal bounds accepts a point exactly when every coordinate lies between its two bounds, in whichever order the bounds are given.\<close>

theorem rectangle_membership:
  assumes "adv_valid s" and "length pt = length bs" and "2 * length bs + 1 \<le> min n 10000"
  shows "\<exists>t. test_membership M n (literal_box bs) (map Fin pt) env s =
    Some (Inr (\<forall>i < length bs. min (fst (bs ! i)) (snd (bs ! i)) \<le> pt ! i \<and>
                               pt ! i \<le> max (fst (bs ! i)) (snd (bs ! i))), t)"
proof -
  have "ref_free_set (literal_box bs)" by (auto simp: literal_box_def)
  then obtain d where "test_membership M n (literal_box bs) (map Fin pt) env s =
      Some (den_set M env (literal_box bs) (map Fin pt), s\<lparr>bound_vars := env, nesting_depth := d\<rparr>)"
    using membership_denotes_lemma [of s "literal_box bs" n M "map Fin pt" env] assms(1,3)
    by (auto simp: calls_literal_box)
  then show ?thesis by (simp add: den_literal_box [OF assms(2)])
qed

theorem rectangle_membership_witness:
  "\<exists>t. test_membership ieee64 5 (literal_box [(3, 1), (0, 4)]) (map Fin [2, 4]) Map.empty (new_advfunc\<lparr>adv_valid := True\<rparr>) =
    Some (Inr True, t)"
  using rectangle_membership [of "new_advfunc\<lparr>adv_valid := True\<rparr>" "[2, 4]" "[(3, 1), (0, 4)]" 5 ieee64 Map.empty]
  by (simp add: All_less_Suc numeral_2_eq_2)

section \<open>Termination and divergence\<close>

text \<open>C21: With fuel 10001, \<open>evaluate\<close> returns a value or an exception for every expression whose own nodes and whose referenced expressions contain no case distinction, cyclic references included: the call counter stops the evaluation.\<close>

theorem evaluate_case_free_returns:
  assumes "adv_valid s" and "case_free e" and "refs_case_free s" and "10001 \<le> n"
  shows "\<exists>r t. evaluate M n e env s = Some (r, t)"
proof -
  have "settles 0 (eval M 10001 e)"
    using eval_settles [of 10001 e M] assms(2) by (simp add: MAX_NESTING_DEPTH_def del: eval.simps)
  then obtain r d where "eval M 10001 e (s\<lparr>bound_vars := env, nesting_depth := 0\<rparr>) =
      Some (r, s\<lparr>bound_vars := env, nesting_depth := d\<rparr>)"
    using settlesD [of 0 _ "s\<lparr>bound_vars := env, nesting_depth := 0\<rparr>"] assms(3)
    by (fastforce simp: refs_case_free_def simp del: eval.simps)
  then have "eval M n e (s\<lparr>bound_vars := env, nesting_depth := 0\<rparr>) =
      Some (r, s\<lparr>bound_vars := env, nesting_depth := d\<rparr>)"
    using belowD [OF below_le(1) [OF assms(4)]] by blast
  then show ?thesis using assms(1) by (simp add: evaluate_def run_simps start_call_run)
qed

theorem evaluate_case_free_returns_witness:
  "\<exists>r t. evaluate ieee64 10001 (RealExpr (Some ''a'') (BinaryOperation OpSum (RealExpr None (Reference ''a'')) (real_lit (Fin 1)))) Map.empty
     (new_advfunc\<lparr>adv_valid := True, real_refs := [''a'' \<mapsto> RealExpr (Some ''a'')
        (BinaryOperation OpSum (RealExpr None (Reference ''a'')) (real_lit (Fin 1)))]\<rparr>) = Some (r, t)"
  by (rule evaluate_case_free_returns) (simp_all add: refs_case_free_def)

text \<open>More fuel never changes what \<open>evaluate\<close> or \<open>testMembership\<close> returned.\<close>

theorem more_fuel_same_result:
  assumes "n \<le> n'"
  shows "(evaluate M n e env s = Some r \<longrightarrow> evaluate M n' e env s = Some r) \<and>
    (test_membership M n st pt env s = Some q \<longrightarrow> test_membership M n' st pt env s = Some q)"
proof -
  have "below (evaluate M n e env) (evaluate M n' e env)"
    "below (test_membership M n st pt env) (test_membership M n' st pt env)"
    unfolding evaluate_def test_membership_def by (intro below_bnd below_refl below_le assms)+
  then show ?thesis by (auto dest: belowD)
qed

theorem more_fuel_same_result_witness:
  "evaluate exact 1 (real_lit (Fin 4)) Map.empty (new_advfunc\<lparr>adv_valid := True\<rparr>) \<noteq> None \<and>
   evaluate exact 10 (real_lit (Fin 4)) Map.empty (new_advfunc\<lparr>adv_valid := True\<rparr>) =
   evaluate exact 1 (real_lit (Fin 4)) Map.empty (new_advfunc\<lparr>adv_valid := True\<rparr>)"
proof -
  have "evaluate exact 1 (real_lit (Fin 4)) Map.empty (new_advfunc\<lparr>adv_valid := True\<rparr>) =
      Some (Inr (Fin 4), new_advfunc\<lparr>adv_valid := True, bound_vars := Map.empty, nesting_depth := 1\<rparr>)"
    by (simp add: evaluate_def run_simps start_call_run new_advfunc_def)
  then show ?thesis using more_fuel_same_result [of 1 10 exact "real_lit (Fin 4)" Map.empty] by simp
qed

lemma find_references_self_set:
  assumes "se_name st = Some r" "se_body st = SetReference q"
  shows "set_adv \<lparr>pQProfile = Some st, beliefFunction = None, costFunction = None, implementedSetpoint = sp\<rparr> new_advfunc =
    Some (Inr (), new_advfunc\<lparr>adv := \<lparr>pQProfile = Some st, beliefFunction = None, costFunction = None, implementedSetpoint = sp\<rparr>,
      adv_valid := True, set_refs := [r \<mapsto> st]\<rparr>)"
  using assms by (cases st) (simp add: set_adv_def find_references_def run_simps record_set_def new_advfunc_def)

lemma find_references_self_real:
  assumes "re_name e = Some r" "re_body e = Reference q"
  shows "set_adv \<lparr>pQProfile = None, beliefFunction = None, costFunction = Some e, implementedSetpoint = sp\<rparr> new_advfunc =
    Some (Inr (), new_advfunc\<lparr>adv := \<lparr>pQProfile = None, beliefFunction = None, costFunction = Some e, implementedSetpoint = sp\<rparr>,
      adv_valid := True, real_refs := [r \<mapsto> e]\<rparr>)"
  using assms by (cases e) (simp add: set_adv_def find_references_def run_simps record_real_def new_advfunc_def)

text \<open>After \<open>setAdv\<close> on an advertisement whose PQ profile is a set that refers to itself by name, \<open>testMembership\<close> on that profile returns for no amount of fuel: the counter of \<open>membership\<close> restarts at zero instead of throwing, so the guard against cyclic references does not hold for sets.\<close>

theorem cyclic_set_never_returns:
  "bnd (set_adv \<lparr>pQProfile = Some (SetExpr (Some r) (SetReference r)), beliefFunction = None, costFunction = None,
       implementedSetpoint = sp\<rparr>)
     (\<lambda>_. test_membership M n (SetExpr (Some r) (SetReference r)) pt env) new_advfunc = None"
proof -
  have "membership M n (SetExpr (Some r) (SetReference r)) pt s = None"
    if "set_refs s r = Some (SetExpr (Some r) (SetReference r))" for s
    using that by (intro cyclic_set_run) auto
  then show ?thesis
    by (simp add: run_simps find_references_self_set test_membership_def start_call_run)
qed

text \<open>The same cycle in a real expression is caught: with fuel 10001 or more, \<open>evaluate\<close> on a cost function that refers to itself by name throws an \<open>EvaluationError\<close> at call 10001.\<close>

theorem cyclic_real_throws:
  "\<exists>t. bnd (set_adv \<lparr>pQProfile = None, beliefFunction = None,
       costFunction = Some (RealExpr (Some r) (Reference r)), implementedSetpoint = sp\<rparr>)
     (\<lambda>_. evaluate M (10001 + n) (RealExpr (Some r) (Reference r)) env) new_advfunc =
   Some (Inl Evaluation_Error, t) \<and> nesting_depth t = 10001"
proof -
  let ?e = "RealExpr (Some r) (Reference r)"
  have run: "eval M (10001 + n) ?e s = Some (Inl Evaluation_Error, s\<lparr>nesting_depth := MAX_NESTING_DEPTH + 1\<rparr>)"
    if "real_refs s r = Some ?e" "nesting_depth s = 0" for s
    by (rule cyclic_real_run) (use that in \<open>auto simp: MAX_NESTING_DEPTH_def\<close>)
  show ?thesis
    by (simp add: run_simps find_references_self_real evaluate_def start_call_run run MAX_NESTING_DEPTH_def
        del: eval.simps)
qed

section \<open>Names\<close>

text \<open>The nodes of the three expressions of an advertisement that \<open>findReferences\<close> walks.\<close>

definition profile_nodes :: "advertisement \<Rightarrow> (real_expr + set_expr) list" where
  "profile_nodes a = (case pQProfile a of None \<Rightarrow> [] | Some st \<Rightarrow> nodes_set st)"

definition belief_nodes :: "advertisement \<Rightarrow> (real_expr + set_expr) list" where
  "belief_nodes a = (case beliefFunction a of None \<Rightarrow> [] | Some st \<Rightarrow> nodes_set st)"

definition cost_nodes :: "advertisement \<Rightarrow> (real_expr + set_expr) list" where
  "cost_nodes a = (case costFunction a of None \<Rightarrow> [] | Some e \<Rightarrow> nodes_real e)"

definition adv_nodes :: "advertisement \<Rightarrow> (real_expr + set_expr) list" where
  "adv_nodes a = profile_nodes a @ belief_nodes a @ cost_nodes a"

text \<open>The effect of one of the three walks on a fresh counter.\<close>

definition record_all :: "(real_expr + set_expr) list \<Rightarrow> advfunc \<Rightarrow> advfunc" where
  "record_all xs s = s\<lparr>nesting_depth := 0,
     real_refs := real_refs s ++ map_of (rev (concat (map named_real xs))),
     set_refs := set_refs s ++ map_of (rev (concat (map named_set xs)))\<rparr>"

lemma record_all_add_bindings: "(add_bindings xs s)\<lparr>nesting_depth := 0\<rparr> = record_all xs s"
  by (simp add: add_bindings_def record_all_def map_upds_def zip_map_fst_snd)

lemma record_all_nil: "nesting_depth s = 0 \<Longrightarrow> record_all [] s = s"
  by (simp add: record_all_def)

lemma record_all_append: "record_all ys (record_all xs s) = record_all (xs @ ys) s"
  by (simp add: record_all_def)

lemma walk_part_set:
  assumes "nesting_depth s = 0" "length (case z of None \<Rightarrow> [] | Some st \<Rightarrow> nodes_set st) \<le> 10000"
  shows "(case z of None \<Rightarrow> ret () | Some st \<Rightarrow> bnd (find_refs_set st) (\<lambda>_. put_st (\<lambda>s. s\<lparr>nesting_depth := 0\<rparr>))) s =
    Some (Inr (), record_all (case z of None \<Rightarrow> [] | Some st \<Rightarrow> nodes_set st) s)"
  using assms
  by (cases z) (simp_all add: run_simps record_all_nil find_refs_walk walk_run MAX_NESTING_DEPTH_def
      record_all_add_bindings)

lemma walk_part_real:
  assumes "nesting_depth s = 0" "length (case z of None \<Rightarrow> [] | Some e \<Rightarrow> nodes_real e) \<le> 10000"
  shows "(case z of None \<Rightarrow> ret () | Some e \<Rightarrow> bnd (find_refs_real e) (\<lambda>_. put_st (\<lambda>s. s\<lparr>nesting_depth := 0\<rparr>))) s =
    Some (Inr (), record_all (case z of None \<Rightarrow> [] | Some e \<Rightarrow> nodes_real e) s)"
  using assms
  by (cases z) (simp_all add: run_simps record_all_nil find_refs_walk walk_run MAX_NESTING_DEPTH_def
      record_all_add_bindings)

lemma record_all_depth: "nesting_depth (record_all xs s) = 0"
  by (simp add: record_all_def)

lemma find_references_run:
  assumes "length (profile_nodes (adv s)) \<le> 10000" "length (belief_nodes (adv s)) \<le> 10000"
    "length (cost_nodes (adv s)) \<le> 10000"
  shows "find_references s = Some (Inr (), record_all (adv_nodes (adv s)) s)"
  using walk_part_set [of "s\<lparr>nesting_depth := 0\<rparr>" "pQProfile (adv s)"]
    walk_part_set [of "record_all (profile_nodes (adv s)) (s\<lparr>nesting_depth := 0\<rparr>)" "beliefFunction (adv s)"]
    walk_part_real [of "record_all (profile_nodes (adv s) @ belief_nodes (adv s)) (s\<lparr>nesting_depth := 0\<rparr>)"
      "costFunction (adv s)"] assms
  by (simp add: find_references_def run_simps record_all_depth record_all_append
      adv_nodes_def profile_nodes_def [symmetric] belief_nodes_def [symmetric] cost_nodes_def [symmetric])
    (simp add: record_all_def)

text \<open>C26: \<open>setAdv\<close> on an advertisement whose three expressions have at most \<open>MAX_NESTING_DEPTH\<close> nodes each succeeds, makes the advertisement valid, and adds every named real expression and every named set of it to the reference maps: a name used twice means its last occurrence, and names from an advertisement set before stay.\<close>

theorem set_adv_records_names:
  assumes "length (profile_nodes a) \<le> 10000" "length (belief_nodes a) \<le> 10000" "length (cost_nodes a) \<le> 10000"
  shows "set_adv a s = Some (Inr (), s\<lparr>adv := a, adv_valid := True, nesting_depth := 0,
    real_refs := real_refs s ++ map_of (rev (concat (map named_real (adv_nodes a)))),
    set_refs := set_refs s ++ map_of (rev (concat (map named_set (adv_nodes a))))\<rparr>)"
  using find_references_run [of "s\<lparr>adv := a, adv_valid := True\<rparr>"] assms
  by (simp add: set_adv_def run_simps record_all_def)

theorem set_adv_records_names_witness:
  "\<exists>t. set_adv \<lparr>pQProfile = Some (SetExpr (Some ''s'') (Singleton [RealExpr (Some ''x'') (Real (Fin 1))])),
       beliefFunction = Some (SetExpr None (SetReference ''s'')),
       costFunction = Some (RealExpr (Some ''x'') (Real (Fin 2))), implementedSetpoint = []\<rparr> new_advfunc =
     Some (Inr (), t) \<and> real_refs t ''x'' = Some (RealExpr (Some ''x'') (Real (Fin 2))) \<and>
     set_refs t ''s'' = Some (SetExpr (Some ''s'') (Singleton [RealExpr (Some ''x'') (Real (Fin 1))]))"
  using set_adv_records_names [of "\<lparr>pQProfile = Some (SetExpr (Some ''s'') (Singleton [RealExpr (Some ''x'') (Real (Fin 1))])),
       beliefFunction = Some (SetExpr None (SetReference ''s'')),
       costFunction = Some (RealExpr (Some ''x'') (Real (Fin 2))), implementedSetpoint = []\<rparr>" new_advfunc]
  by (simp add: adv_nodes_def profile_nodes_def belief_nodes_def cost_nodes_def)

text \<open>A PQ profile with more than \<open>MAX_NESTING_DEPTH\<close> nodes, however shallow, makes \<open>setAdv\<close> throw an \<open>EvaluationError\<close>: the counter counts nodes, not nesting.\<close>

theorem set_adv_rejects_large:
  assumes "10000 < length (profile_nodes a)"
  shows "\<exists>t. set_adv a s = Some (Inl Evaluation_Error, t)"
proof -
  obtain st where st: "pQProfile a = Some st" "10000 < length (nodes_set st)"
    using assms by (auto simp: profile_nodes_def split: option.splits)
  have "\<exists>t. forC visit (nodes_set st) (s\<lparr>adv := a, adv_valid := True, nesting_depth := 0\<rparr>) =
      Some (Inl Evaluation_Error, t)"
    by (rule walk_too_long) (use st(2) in \<open>auto simp: MAX_NESTING_DEPTH_def\<close>)
  then show ?thesis using st(1)
    by (auto simp: set_adv_def find_references_def run_simps find_refs_walk)
qed

theorem set_adv_rejects_large_witness:
  "\<exists>t. set_adv (empty_adv\<lparr>pQProfile := Some (set_of_body (Singleton (replicate 10000 (real_lit (Fin 0)))))\<rparr>)
     new_advfunc = Some (Inl Evaluation_Error, t)"
proof (rule set_adv_rejects_large)
  have "length (concat (map nodes_real (replicate n (real_lit (Fin 0))))) = n" for n
    by (induction n) auto
  then show "10000 < length (profile_nodes
      (empty_adv\<lparr>pQProfile := Some (set_of_body (Singleton (replicate 10000 (real_lit (Fin 0)))))\<rparr>))"
    by (simp add: profile_nodes_def)
qed

text \<open>A set reference to a name the advertisement does not define raises no \<open>UnknownReference\<close>, unlike a real reference: the lookup enters the default set, an empty singleton, under that name, and the test against it aborts on the assertion that compares the dimensions unless the point has dimension zero.\<close>

theorem unknown_set_reference:
  assumes "adv_valid s" and "set_refs s r = None" and "real_refs s r = None"
  shows "\<exists>t u. test_membership M (Suc (Suc n)) (set_of_body (SetReference r)) (x # pt) env s = Some (Inl Assert_Failed, t)
    \<and> set_refs t r = Some default_set
    \<and> evaluate M (Suc (Suc n)) (RealExpr None (Reference r)) env s = Some (Inl (Unknown_Reference r), u)"
  using assms
  by (simp add: test_membership_def evaluate_def start_call_run run_simps set_ref_def eval_ref_def
      default_set_def mem_singleton_def)

theorem unknown_set_reference_witness:
  "\<exists>t u. test_membership ieee64 2 (set_of_body (SetReference ''nowhere'')) [Fin 1, Fin 2] Map.empty
      (new_advfunc\<lparr>adv_valid := True\<rparr>) = Some (Inl Assert_Failed, t) \<and> set_refs t ''nowhere'' = Some default_set \<and>
    evaluate ieee64 2 (RealExpr None (Reference ''nowhere'')) Map.empty (new_advfunc\<lparr>adv_valid := True\<rparr>) =
      Some (Inl (Unknown_Reference ''nowhere''), u)"
  using unknown_set_reference [of "new_advfunc\<lparr>adv_valid := True\<rparr>" "''nowhere''" ieee64 0 "Fin 1" "[Fin 2]" Map.empty]
  by (simp add: new_advfunc_def numeral_2_eq_2 del: eval.simps membership.simps)

end
