(* ===== verification/Interp_Inline.thy ===== *)
theory Interp_Inline imports Interp_Props begin

text \<open>
  Expressions with references. The interpreter follows a reference by looking its name up in the
  maps that \<open>setAdv\<close> fills. Here a reference is replaced by what it refers to, and the interpreter
  on the expression with references is shown to compute what the expression without them denotes.
\<close>

section \<open>Inlining\<close>

fun map_body :: "(real_expr \<Rightarrow> real_expr) \<Rightarrow> (set_expr \<Rightarrow> set_expr) \<Rightarrow> real_body \<Rightarrow> real_body" where
  "map_body f g (UnaryOperation op a) = UnaryOperation op (f a)"
| "map_body f g (BinaryOperation op a b) = BinaryOperation op (f a) (f b)"
| "map_body f g (ListOperation op es) = ListOperation op (map f es)"
| "map_body f g (CaseDistinction vs cs) = CaseDistinction vs (map (\<lambda>(st, e). (g st, f e)) cs)"
| "map_body f g b = b"

fun map_sbody :: "(real_expr \<Rightarrow> real_expr) \<Rightarrow> (set_expr \<Rightarrow> set_expr) \<Rightarrow> set_body \<Rightarrow> set_body" where
  "map_sbody f g (Singleton es) = Singleton (map f es)"
| "map_sbody f g (Ball cs r) = Ball (map f cs) (f r)"
| "map_sbody f g (Rectangle bs) = Rectangle (map (\<lambda>(a, b). (f a, f b)) bs)"
| "map_sbody f g (ConvexPolytope mx b) = ConvexPolytope (map (map f) mx) (map f b)"
| "map_sbody f g (Intersection ss) = Intersection (map g ss)"
| "map_sbody f g b = b"

text \<open>
  \<open>k\<close> bounds the depth to which references are followed. A reference that is unknown or lies
  deeper stays, so that the result is not free of references.
\<close>

fun inline_real :: "(string \<Rightarrow> real_expr option) \<Rightarrow> (string \<Rightarrow> set_expr option) \<Rightarrow> nat \<Rightarrow> real_expr \<Rightarrow> real_expr"
  and inline_set :: "(string \<Rightarrow> real_expr option) \<Rightarrow> (string \<Rightarrow> set_expr option) \<Rightarrow> nat \<Rightarrow> set_expr \<Rightarrow> set_expr" where
  "inline_real rr sr 0 e = e"
| "inline_real rr sr (Suc k) e = (case re_body e of
     Reference r \<Rightarrow> (case rr r of None \<Rightarrow> e | Some e' \<Rightarrow> inline_real rr sr k e')
   | b \<Rightarrow> RealExpr (re_name e) (map_body (inline_real rr sr k) (inline_set rr sr k) b))"
| "inline_set rr sr 0 st = st"
| "inline_set rr sr (Suc k) st = (case se_body st of
     SetReference r \<Rightarrow> (case sr r of None \<Rightarrow> st | Some st' \<Rightarrow> inline_set rr sr k st')
   | b \<Rightarrow> SetExpr (se_name st) (map_sbody (inline_real rr sr k) (inline_set rr sr k) b))"

text \<open>The calls that the expression costs, those for the references included.\<close>

fun ref_calls_real :: "(string \<Rightarrow> real_expr option) \<Rightarrow> (string \<Rightarrow> set_expr option) \<Rightarrow> nat \<Rightarrow> real_expr \<Rightarrow> nat"
  and ref_calls_set :: "(string \<Rightarrow> real_expr option) \<Rightarrow> (string \<Rightarrow> set_expr option) \<Rightarrow> nat \<Rightarrow> set_expr \<Rightarrow> nat" where
  "ref_calls_real rr sr 0 e = calls_real e"
| "ref_calls_real rr sr (Suc k) e = Suc (case re_body e of
     Reference r \<Rightarrow> (case rr r of None \<Rightarrow> 0 | Some e' \<Rightarrow> ref_calls_real rr sr k e')
   | b \<Rightarrow> cost_body (ref_calls_real rr sr k) (ref_calls_set rr sr k) b)"
| "ref_calls_set rr sr 0 st = calls_set st"
| "ref_calls_set rr sr (Suc k) st = Suc (case se_body st of
     SetReference r \<Rightarrow> (case sr r of None \<Rightarrow> 0 | Some st' \<Rightarrow> ref_calls_set rr sr k st')
   | b \<Rightarrow> cost_sbody (ref_calls_real rr sr k) (ref_calls_set rr sr k) b)"

section \<open>Nodes and their images\<close>

lemma rmap_map: "rmap h (map f xs) = rmap (\<lambda>x. h (f x)) xs"
  by (induction xs) simp_all

lemma rfold_map: "rfold h (map f xs) acc = rfold (\<lambda>x. h (f x)) xs acc"
proof (induction xs arbitrary: acc)
  case (Cons x xs)
  then have "rfold h (map f xs) = rfold (\<lambda>x. h (f x)) xs" by (rule ext)
  then show ?case by simp
qed simp

lemma rall_map: "rall h (map f xs) = rall (\<lambda>x. h (f x)) xs"
  by (induction xs) (simp_all cong: if_cong)

lemma rfirst_map: "rfirst p h (map (\<lambda>(st, e). (g st, f e)) cs) =
    rfirst (\<lambda>(st, e). p (g st, f e)) (\<lambda>(st, e). h (g st, f e)) cs"
  by (induction cs) (auto cong: if_cong)

lemma check_map: "check_capnp_matrix (map (map f) mx) = check_capnp_matrix mx"
  by (simp add: check_capnp_matrix_def comp_def)

lemma den_map_body:
  "(\<And>r. b \<noteq> Reference r) \<Longrightarrow>
    den_body M env \<delta> \<delta>s (map_body f g b) = den_body M env (\<lambda>e. \<delta> (f e)) (\<lambda>st. \<delta>s (g st)) b"
  by (cases b) (simp_all add: rfold_map rfirst_map)

lemma den_map_sbody:
  "(\<And>r. b \<noteq> SetReference r) \<Longrightarrow>
    den_sbody M \<delta> \<delta>s (map_sbody f g b) pt = den_sbody M (\<lambda>e. \<delta> (f e)) (\<lambda>st. \<delta>s (g st)) b pt"
  by (cases b) (simp_all add: rmap_map rall_map check_map zip_map1 split_def comp_def cong: if_cong)

lemma ref_free_map_body:
  "ref_free_real_body (map_body f g b) \<Longrightarrow>
    (\<forall>e \<in> set (real_parts b). ref_free_real (f e)) \<and> (\<forall>st \<in> set (set_parts b). ref_free_set (g st))"
  by (cases b) (auto simp: split_def)

lemma ref_free_map_sbody:
  "ref_free_set_body (map_sbody f g b) \<Longrightarrow>
    (\<forall>e \<in> set (real_sparts b). ref_free_real (f e)) \<and> (\<forall>st \<in> set (set_sparts b). ref_free_set (g st))"
  by (cases b) (auto simp: split_def)

section \<open>The interpreter on expressions with references\<close>

definition state_inv :: "value_map \<Rightarrow> (string \<Rightarrow> real_expr option) \<Rightarrow> (string \<Rightarrow> set_expr option) \<Rightarrow> advfunc \<Rightarrow> bool" where
  "state_inv env rr sr s \<longleftrightarrow> bound_vars s = env \<and> real_refs s = rr \<and> set_refs s = sr"

interpretation refs: refinement "state_inv env rr sr" for env rr sr
  by unfold_locales (simp add: state_inv_def)

lemma refines_in_refs: "refines env k c r \<Longrightarrow> refines_in (state_inv env rr sr) k c r"
  by (simp add: refines_def refines_in_def state_inv_def)

lemma eval_ref_refines:
  "rr r = Some e \<Longrightarrow> refines_in (state_inv env rr sr) k (ev e) v \<Longrightarrow> refines_in (state_inv env rr sr) k (eval_ref ev r) v"
  by (simp add: refines_in_def state_inv_def eval_ref_def run_simps)

lemma set_ref_refines:
  "sr r = Some st \<Longrightarrow> refines_in (state_inv env rr sr) k (mem st) v \<Longrightarrow>
    refines_in (state_inv env rr sr) k (bnd (set_ref r) mem) v"
  by (simp add: refines_in_def state_inv_def set_ref_def run_simps)

definition follows_upto :: "platform \<Rightarrow> value_map \<Rightarrow> (string \<Rightarrow> real_expr option) \<Rightarrow> (string \<Rightarrow> set_expr option) \<Rightarrow> nat \<Rightarrow> bool" where
  "follows_upto M env rr sr k \<longleftrightarrow>
     (\<forall>n e. ref_free_real (inline_real rr sr k e) \<longrightarrow> ref_calls_real rr sr k e \<le> n \<longrightarrow>
        refines_in (state_inv env rr sr) (ref_calls_real rr sr k e) (eval M n e) (den_real M env (inline_real rr sr k e))) \<and>
     (\<forall>n st pt. ref_free_set (inline_set rr sr k st) \<longrightarrow> ref_calls_set rr sr k st \<le> n \<longrightarrow>
        refines_in (state_inv env rr sr) (ref_calls_set rr sr k st) (membership M n st pt)
          (den_set M env (inline_set rr sr k st) pt))"

lemma follows_real_node:
  assumes IH: "follows_upto M env rr sr k" and b: "\<And>r. b \<noteq> Reference r"
    and rf: "ref_free_real_body (map_body (inline_real rr sr k) (inline_set rr sr k) b)"
    and le: "cost_body (ref_calls_real rr sr k) (ref_calls_set rr sr k) b \<le> n"
  shows "refines_in (state_inv env rr sr) (cost_body (ref_calls_real rr sr k) (ref_calls_set rr sr k) b)
    (eval_body M (eval M n) (membership M n) b)
    (den_real_body M env (map_body (inline_real rr sr k) (inline_set rr sr k) b))"
  unfolding den_real_body_node den_map_body [OF b]
proof (rule refs.in_eval_body)
  fix e assume e: "e \<in> set (real_parts b)"
  then have "ref_calls_real rr sr k e \<le> n" "ref_free_real (inline_real rr sr k e)"
    using part_costs(1) [OF e, of "ref_calls_real rr sr k" "ref_calls_set rr sr k"] ref_free_map_body [OF rf] le by auto
  then show "refines_in (state_inv env rr sr) (ref_calls_real rr sr k e) (eval M n e) (den_real M env (inline_real rr sr k e))"
    using IH by (simp add: follows_upto_def)
next
  fix st pt assume st: "st \<in> set (set_parts b)"
  then have "ref_calls_set rr sr k st \<le> n" "ref_free_set (inline_set rr sr k st)"
    using part_costs(2) [OF st, of "ref_calls_set rr sr k" "ref_calls_real rr sr k"] ref_free_map_body [OF rf] le by auto
  then show "refines_in (state_inv env rr sr) (ref_calls_set rr sr k st) (membership M n st pt)
      (den_set M env (inline_set rr sr k st) pt)"
    using IH by (simp add: follows_upto_def)
qed (auto simp: state_inv_def b)

lemma follows_set_node:
  assumes IH: "follows_upto M env rr sr k" and b: "\<And>r. b \<noteq> SetReference r"
    and rf: "ref_free_set_body (map_sbody (inline_real rr sr k) (inline_set rr sr k) b)"
    and le: "cost_sbody (ref_calls_real rr sr k) (ref_calls_set rr sr k) b \<le> n"
  shows "refines_in (state_inv env rr sr) (cost_sbody (ref_calls_real rr sr k) (ref_calls_set rr sr k) b)
    (membership_body M (eval M n) (membership M n) b pt)
    (den_set_body M env (map_sbody (inline_real rr sr k) (inline_set rr sr k) b) pt)"
  unfolding den_set_body_node den_map_sbody [OF b]
proof (rule refs.in_membership_body)
  fix e assume e: "e \<in> set (real_sparts b)"
  then have "ref_calls_real rr sr k e \<le> n" "ref_free_real (inline_real rr sr k e)"
    using part_costs(3) [OF e, of "ref_calls_real rr sr k" "ref_calls_set rr sr k"] ref_free_map_sbody [OF rf] le by auto
  then show "refines_in (state_inv env rr sr) (ref_calls_real rr sr k e) (eval M n e) (den_real M env (inline_real rr sr k e))"
    using IH by (simp add: follows_upto_def)
next
  fix st assume st: "st \<in> set (set_sparts b)"
  then have "ref_calls_set rr sr k st \<le> n" "ref_free_set (inline_set rr sr k st)"
    using part_costs(4) [OF st, of "ref_calls_set rr sr k" "ref_calls_real rr sr k"] ref_free_map_sbody [OF rf] le by auto
  then show "refines_in (state_inv env rr sr) (ref_calls_set rr sr k st) (membership M n st pt)
      (den_set M env (inline_set rr sr k st) pt)"
    using IH by (simp add: follows_upto_def)
qed (rule b)

lemma interpreter_follows: "follows_upto M env rr sr k"
proof (induction k)
  case 0
  show ?case unfolding follows_upto_def
    by (auto intro!: refines_in_refs implements_real [OF interpreter_implements] implements_set [OF interpreter_implements])
next
  case (Suc k)
  have real: "refines_in (state_inv env rr sr) (ref_calls_real rr sr (Suc k) e) (eval M n e)
      (den_real M env (inline_real rr sr (Suc k) e))"
    if rf: "ref_free_real (inline_real rr sr (Suc k) e)" and le: "ref_calls_real rr sr (Suc k) e \<le> n" for n e
  proof -
    obtain nm b where e: "e = RealExpr nm b" by (cases e)
    obtain m where n: "n = Suc m" using le by (cases n) auto
    show ?thesis
    proof (cases "\<exists>r. b = Reference r")
      case True
      then obtain r where r: "b = Reference r" by blast
      then obtain e' where "rr r = Some e'" using rf e by (cases "rr r") auto
      with Suc.IH rf le e r n show ?thesis
        by (auto simp: follows_upto_def intro!: refs.in_enter eval_ref_refines)
    next
      case False
      then have b: "b \<noteq> Reference r" for r by blast
      have "refines_in (state_inv env rr sr) (cost_body (ref_calls_real rr sr k) (ref_calls_set rr sr k) b)
          (eval_body M (eval M m) (membership M m) b)
          (den_real_body M env (map_body (inline_real rr sr k) (inline_set rr sr k) b))"
        by (rule follows_real_node [OF Suc.IH b]) (use rf le e n b in \<open>auto split: real_body.splits\<close>)
      with e n b show ?thesis
        by (auto simp: refs.in_enter split: real_body.splits)
    qed
  qed
  have set: "refines_in (state_inv env rr sr) (ref_calls_set rr sr (Suc k) st) (membership M n st pt)
      (den_set M env (inline_set rr sr (Suc k) st) pt)"
    if rf: "ref_free_set (inline_set rr sr (Suc k) st)" and le: "ref_calls_set rr sr (Suc k) st \<le> n" for n st pt
  proof -
    obtain nm b where st: "st = SetExpr nm b" by (cases st)
    obtain m where n: "n = Suc m" using le by (cases n) auto
    show ?thesis
    proof (cases "\<exists>r. b = SetReference r")
      case True
      then obtain r where r: "b = SetReference r" by blast
      then obtain st' where "sr r = Some st'" using rf st by (cases "sr r") auto
      with Suc.IH rf le st r n show ?thesis
        by (auto simp: follows_upto_def intro!: refs.in_enter set_ref_refines)
    next
      case False
      then have b: "b \<noteq> SetReference r" for r by blast
      have "refines_in (state_inv env rr sr) (cost_sbody (ref_calls_real rr sr k) (ref_calls_set rr sr k) b)
          (membership_body M (eval M m) (membership M m) b pt)
          (den_set_body M env (map_sbody (inline_real rr sr k) (inline_set rr sr k) b) pt)"
        by (rule follows_set_node [OF Suc.IH b]) (use rf le st n b in \<open>auto split: set_body.splits\<close>)
      with st n b show ?thesis
        by (auto simp: refs.in_enter split: set_body.splits)
    qed
  qed
  show ?case unfolding follows_upto_def by (intro conjI allI impI real set)
qed

section \<open>Properties\<close>

lemma run_in_refs:
  assumes "refines_in (state_inv env rr sr) k c r" "k \<le> 10000" "real_refs s = rr" "set_refs s = sr"
  shows "\<exists>d. c (s\<lparr>bound_vars := env, nesting_depth := 0\<rparr>) = Some (r, s\<lparr>bound_vars := env, nesting_depth := d\<rparr>) \<and>
    0 \<le> d \<and> d \<le> int k"
  using refs.in_D [OF assms(1), of "s\<lparr>bound_vars := env, nesting_depth := 0\<rparr>"] assms(2-4)
  by (auto simp: state_inv_def MAX_NESTING_DEPTH_def)

text \<open>C1: \<open>evaluate\<close> returns the value, or the exception, that the expression denotes once every reference in it is replaced by the expression the reference map has for its name, to any depth, provided that all references resolve and that the calls, those for the references included, number at most \<open>MAX_NESTING_DEPTH\<close>; the reference maps and the advertisement stay as they are. The denotation is defined by recursion on the expression, without state, counter or fuel.\<close>

theorem evaluate_follows_references:
  assumes "adv_valid s" and "ref_free_real (inline_real (real_refs s) (set_refs s) k e)"
    and "ref_calls_real (real_refs s) (set_refs s) k e \<le> min n 10000"
  shows "\<exists>d. evaluate M n e env s = Some (den_real M env (inline_real (real_refs s) (set_refs s) k e),
    s\<lparr>bound_vars := env, nesting_depth := d\<rparr>)"
proof -
  have "refines_in (state_inv env (real_refs s) (set_refs s)) (ref_calls_real (real_refs s) (set_refs s) k e) (eval M n e)
      (den_real M env (inline_real (real_refs s) (set_refs s) k e))"
    using interpreter_follows assms(2,3) unfolding follows_upto_def by simp
  from run_in_refs [OF this _ refl refl] assms(1,3) show ?thesis
    by (auto simp: evaluate_def run_simps start_call_run)
qed

text \<open>The cost of a message whose cost function names a subexpression and refers to it.\<close>

definition named_cost :: real_expr where
  "named_cost = RealExpr None (BinaryOperation OpProd
     (RealExpr (Some ''x'') (BinaryOperation OpSum (var_ref ''P'') (real_lit (Fin 1)))) (RealExpr None (Reference ''x'')))"

theorem evaluate_follows_references_witness:
  "\<exists>t u. set_adv (empty_adv\<lparr>costFunction := Some named_cost\<rparr>) new_advfunc = Some (Inr (), t) \<and>
    evaluate exact 8 named_cost [''P'' \<mapsto> Fin 2] t = Some (Inr (Fin 9), u)"
proof -
  let ?x = "RealExpr (Some ''x'') (BinaryOperation OpSum (var_ref ''P'') (real_lit (Fin 1)))"
  let ?t = "new_advfunc\<lparr>adv := empty_adv\<lparr>costFunction := Some named_cost\<rparr>, adv_valid := True, real_refs := [''x'' \<mapsto> ?x]\<rparr>"
  have set: "set_adv (empty_adv\<lparr>costFunction := Some named_cost\<rparr>) new_advfunc = Some (Inr (), ?t)"
    by (simp add: set_adv_def find_references_def run_simps named_cost_def empty_adv_def new_advfunc_def record_real_def)
  have "inline_real (real_refs ?t) (set_refs ?t) 3 named_cost = RealExpr None (BinaryOperation OpProd ?x ?x)"
    "ref_calls_real (real_refs ?t) (set_refs ?t) 3 named_cost = 8"
    by (simp_all add: named_cost_def numeral_3_eq_3)
  with evaluate_follows_references [of ?t 3 named_cost 8 exact "[''P'' \<mapsto> Fin 2]"] obtain d where
    "evaluate exact 8 named_cost [''P'' \<mapsto> Fin 2] ?t = Some (Inr (Fin 9), ?t\<lparr>bound_vars := [''P'' \<mapsto> Fin 2], nesting_depth := d\<rparr>)"
    by (auto simp: lookup_or_def dadd_def dmul_def exact_rnd)
  with set show ?thesis by blast
qed

lemma membership_inlined:
  assumes "adv_valid s" and "ref_free_set (inline_set (real_refs s) (set_refs s) k st)"
    and "ref_calls_set (real_refs s) (set_refs s) k st \<le> min n 10000"
  shows "\<exists>d. test_membership M n st pt env s = Some (den_set M env (inline_set (real_refs s) (set_refs s) k st) pt,
    s\<lparr>bound_vars := env, nesting_depth := d\<rparr>)"
proof -
  have "refines_in (state_inv env (real_refs s) (set_refs s)) (ref_calls_set (real_refs s) (set_refs s) k st) (membership M n st pt)
      (den_set M env (inline_set (real_refs s) (set_refs s) k st) pt)"
    using interpreter_follows assms(2,3) unfolding follows_upto_def by simp
  from run_in_refs [OF this _ refl refl] assms(1,3) show ?thesis
    by (auto simp: test_membership_def run_simps start_call_run)
qed

text \<open>C2: \<open>testMembership\<close> returns the verdict, or the exception, that the set denotes once every reference to a set or to a real expression in it is replaced by what the reference maps have for its name, under the same conditions.\<close>

theorem membership_follows_references:
  assumes "adv_valid s" and "ref_free_set (inline_set (real_refs s) (set_refs s) k st)"
    and "ref_calls_set (real_refs s) (set_refs s) k st \<le> min n 10000"
  shows "\<exists>d. test_membership M n st pt env s = Some (den_set M env (inline_set (real_refs s) (set_refs s) k st) pt,
    s\<lparr>bound_vars := env, nesting_depth := d\<rparr>)"
  using assms by (rule membership_inlined)

theorem membership_follows_references_witness:
  "\<exists>u. test_membership exact 9 (SetExpr None (Intersection [SetExpr None (SetReference ''box''), SetExpr None (SetReference ''box'')]))
      [Fin 1] Map.empty (new_advfunc\<lparr>adv_valid := True, set_refs := [''box'' \<mapsto> literal_box [(0, 2)]]\<rparr>) = Some (Inr True, u)"
proof -
  let ?st = "SetExpr None (Intersection [SetExpr None (SetReference ''box''), SetExpr None (SetReference ''box'')])"
  let ?s = "new_advfunc\<lparr>adv_valid := True, set_refs := [''box'' \<mapsto> literal_box [(0, 2)]]\<rparr>"
  have "inline_set (real_refs ?s) (set_refs ?s) 2 ?st = SetExpr None (Intersection [literal_box [(0, 2)], literal_box [(0, 2)]])"
    "ref_calls_set (real_refs ?s) (set_refs ?s) 2 ?st \<le> 9"
    by (simp_all add: numeral_2_eq_2 calls_literal_box)
  moreover have "den_set exact Map.empty (literal_box [(0, 2)]) [Fin 1] = Inr True" "ref_free_set (literal_box [(0, 2)])"
    using den_literal_box [of "[1]" "[(0, 2)]" exact Map.empty] by (auto simp: literal_box_def)
  ultimately show ?thesis
    using membership_follows_references [of ?s 2 ?st 9 exact "[Fin 1]" Map.empty] by auto
qed

end
