(* ===== verification/Poly_Build.thy ===== *)
theory Poly_Build
  imports Schema Rounding "HOL-Library.Char_ord" "HOL-Library.List_Lexorder"
begin

text \<open>
  \<open>commelec-api/polynomial-convenience.hpp\<close>: polynomials written as sums of monomials and
  their encoding in the message format. A monomial's exponents are packed into one number,
  the digits of a number in base \<open>maxVarDegree + 1\<close>, least significant digit first in the
  alphabetical order of the variables.
\<close>

section \<open>Expressions\<close>

record power =
  pow_var :: string
  pow_exp :: int

record monomial =
  coeff :: double
  prodOfPowers :: "power list"

type_synonym monomial_sum = "monomial list"

definition monomial_of_var :: "string \<Rightarrow> monomial" where
  "monomial_of_var v = \<lparr> coeff = Fin 1, prodOfPowers = [\<lparr> pow_var = v, pow_exp = 1 \<rparr>] \<rparr>"

definition monomial_of_const :: "double \<Rightarrow> monomial" where
  "monomial_of_const c = \<lparr> coeff = c, prodOfPowers = [] \<rparr>"

text \<open>\<open>operator|\<close> keeps the left coefficient only.\<close>

definition mono_concat :: "monomial \<Rightarrow> monomial \<Rightarrow> monomial" where
  "mono_concat a b = a\<lparr> prodOfPowers := prodOfPowers a @ prodOfPowers b \<rparr>"

definition var_power :: "string \<Rightarrow> int \<Rightarrow> monomial" where
  "var_power v k = \<lparr> coeff = Fin 1, prodOfPowers = [\<lparr> pow_var = v, pow_exp = k \<rparr>] \<rparr>"

definition mono_scale :: "platform \<Rightarrow> double \<Rightarrow> monomial \<Rightarrow> monomial" where
  "mono_scale M c m = m\<lparr> coeff := dmul M (coeff m) c \<rparr>"

definition mono_plus :: "monomial \<Rightarrow> monomial \<Rightarrow> monomial_sum" where
  "mono_plus a b = [a, b]"

definition sum_plus :: "monomial_sum \<Rightarrow> monomial \<Rightarrow> monomial_sum" where
  "sum_plus s a = s @ [a]"

text \<open>
  \<open>std::max_element\<close> over the exponents, 0 for no powers; over the monomials, the degree
  of a monomial of largest degree, 0 for an empty sum.
\<close>

fun max_from :: "int \<Rightarrow> int list \<Rightarrow> int" where
  "max_from m [] = m"
| "max_from m (x # xs) = max_from (if m < x then x else m) xs"

fun max_element :: "int list \<Rightarrow> int" where
  "max_element [] = 0"
| "max_element (x # xs) = max_from x xs"

definition mono_maxVarDegree :: "monomial \<Rightarrow> int" where
  "mono_maxVarDegree m = max_element (map pow_exp (prodOfPowers m))"

definition sum_maxVarDegree :: "monomial_sum \<Rightarrow> int" where
  "sum_maxVarDegree s = max_element (map mono_maxVarDegree s)"

text \<open>The \<open>std::set\<close> of names, read out in its (lexicographic) order.\<close>

definition sum_variables :: "monomial_sum \<Rightarrow> string list" where
  "sum_variables s = sort (remdups (concat (map (\<lambda>m. map pow_var (prodOfPowers m)) s)))"

section \<open>Encoding\<close>

text \<open>Signed 32-bit arithmetic: a result that does not fit is undefined.\<close>

definition fits32 :: "int \<Rightarrow> int result" where
  "fits32 i = (if - (2 ^ 31) \<le> i \<and> i < 2 ^ 31 then Inr i else Inl Undefined)"

fun index_of :: "string \<Rightarrow> string list \<Rightarrow> nat option" where
  "index_of v [] = None"
| "index_of v (x # xs) = (if x = v then Some 0 else map_option Suc (index_of v xs))"

definition power_offset :: "platform \<Rightarrow> int \<Rightarrow> string list \<Rightarrow> power \<Rightarrow> int result" where
  "power_offset M maxvar vars p =
     (case index_of (pow_var p) vars of
        None \<Rightarrow> Inl Bare_Throw
      | Some i \<Rightarrow>
          rbind (to_int (m_pow M (of_i (maxvar + 1)) (of_i (int i)))) (\<lambda>w.
          fits32 (pow_exp p * w)))"

fun mono_offset_from :: "platform \<Rightarrow> int \<Rightarrow> string list \<Rightarrow> int \<Rightarrow> power list \<Rightarrow> int result" where
  "mono_offset_from M maxvar vars acc [] = Inr acc"
| "mono_offset_from M maxvar vars acc (p # ps) =
     rbind (power_offset M maxvar vars p) (\<lambda>w.
     rbind (fits32 (acc + w)) (\<lambda>acc'. mono_offset_from M maxvar vars acc' ps))"

definition mono_offset :: "platform \<Rightarrow> int \<Rightarrow> string list \<Rightarrow> monomial \<Rightarrow> int result" where
  "mono_offset M maxvar vars m = mono_offset_from M maxvar vars 0 (prodOfPowers m)"

definition build_polynomial :: "platform \<Rightarrow> monomial_sum \<Rightarrow> polynomial result" where
  "build_polynomial M m =
     (let vars = sum_variables m; maxvar = sum_maxVarDegree m in
      rbind (fits32 (maxvar + 1)) (\<lambda>_.
      rbind (rmap (\<lambda>mon. rbind (mono_offset M maxvar vars mon) (\<lambda>off.
          Inr \<lparr> offset = word_of_int off, coeff_value = coeff mon \<rparr>)) m) (\<lambda>cs.
      Inr \<lparr> poly_variables = vars, maxVarDegree = word_of_int maxvar, coefficients = cs \<rparr>)))"

end
