(* ===== verification/Poly_Props.thy ===== *)
theory Poly_Props imports Poly_Build Interp_Props begin

text \<open>
  The packing of the exponents of a monomial into one number: what \<open>buildPolynomial\<close> writes
  is what the digit extraction of \<open>eval(Polynomial)\<close> reads back.
\<close>

section \<open>Digits\<close>

definition packed :: "int \<Rightarrow> (nat \<Rightarrow> int) \<Rightarrow> nat \<Rightarrow> int" where
  "packed b f n = (\<Sum>i<n. f i * b ^ i)"

lemma packed_Suc: "packed b f (Suc n) = packed b f n + f n * b ^ n"
  by (simp add: packed_def)

lemma packed_nonneg: "1 \<le> b \<Longrightarrow> (\<And>i. i < n \<Longrightarrow> 0 \<le> f i) \<Longrightarrow> 0 \<le> packed b f n"
  unfolding packed_def by (intro sum_nonneg) auto

lemma packed_less:
  assumes "1 \<le> b" and "\<And>i. i < n \<Longrightarrow> 0 \<le> f i \<and> f i < b"
  shows "packed b f n < b ^ n"
  using assms(2)
proof (induction n)
  case (Suc n)
  have "f n * b ^ n \<le> (b - 1) * b ^ n"
    using Suc.prems [of n] assms(1) by (intro mult_right_mono) auto
  with Suc.IH Suc.prems show ?case by (auto simp: packed_Suc algebra_simps)
qed (simp add: packed_def)

lemma packed_digit:
  assumes "1 \<le> b" and "\<And>i. i < n \<Longrightarrow> 0 \<le> f i \<and> f i < b" and "k < n"
  shows "packed b f n div b ^ k mod b = f k"
  using assms(2,3)
proof (induction n)
  case (Suc n)
  show ?case
  proof (cases "k = n")
    case True
    have "packed b f n div b ^ n = 0"
      using packed_less [of b n f] packed_nonneg [of b n f] assms(1) Suc.prems(1) by (intro div_pos_pos_trivial) auto
    moreover have "b ^ n \<noteq> 0" using assms(1) by simp
    ultimately show ?thesis using True Suc.prems(1) [of n] by (simp add: packed_Suc)
  next
    case False
    with Suc.prems have k: "k < n" by simp
    then have "b ^ n = b ^ k * (b * b ^ (n - Suc k))"
      by (simp add: power_Suc [symmetric] power_add [symmetric] Suc_diff_Suc del: power_Suc)
    then have "f n * b ^ n = (f n * b ^ (n - Suc k) * b) * b ^ k" by (simp add: ac_simps)
    then have "packed b f (Suc n) = packed b f n + (f n * b ^ (n - Suc k) * b) * b ^ k"
      by (simp only: packed_Suc)
    moreover have "b ^ k \<noteq> 0" using assms(1) by simp
    ultimately have "packed b f (Suc n) div b ^ k = f n * b ^ (n - Suc k) * b + packed b f n div b ^ k"
      using div_mult_self1 [of "b ^ k" "packed b f n" "f n * b ^ (n - Suc k) * b"] by argo
    then show ?thesis using Suc.IH Suc.prems(1) k by simp
  qed
qed simp

section \<open>The offset of a monomial\<close>

definition exponent :: "power list \<Rightarrow> string \<Rightarrow> int" where
  "exponent ps v = sum_list (map pow_exp (filter (\<lambda>p. pow_var p = v) ps))"

definition well_formed :: "monomial \<Rightarrow> bool" where
  "well_formed m \<longleftrightarrow> distinct (map pow_var (prodOfPowers m)) \<and> list_all (\<lambda>p. 0 \<le> pow_exp p) (prodOfPowers m)"

lemma index_of_Some: "v \<in> set vs \<Longrightarrow> \<exists>i. index_of v vs = Some i \<and> i < length vs \<and> vs ! i = v"
  by (induction vs) auto

lemma exponent_distinct:
  "distinct (map pow_var ps) \<Longrightarrow> p \<in> set ps \<Longrightarrow> exponent ps (pow_var p) = pow_exp p"
proof (induction ps)
  case (Cons a ps)
  have "filter (\<lambda>q. pow_var q = pow_var a) ps = []"
    using Cons.prems(1) by (auto simp: filter_empty_conv image_iff)
  with Cons show ?case by (auto simp: exponent_def)
qed simp

lemma exponent_absent: "v \<notin> pow_var ` set ps \<Longrightarrow> exponent ps v = 0"
  by (induction ps) (auto simp: exponent_def)

lemma max_from_ge: "m \<le> max_from m xs \<and> (\<forall>x \<in> set xs. x \<le> max_from m xs)"
  by (induction xs arbitrary: m) (auto, meson order_trans less_imp_le, meson order_trans linorder_le_less_linear)

lemma max_element_ge: "x \<in> set xs \<Longrightarrow> x \<le> max_element xs"
  using max_from_ge by (cases xs) auto

lemma max_from_mem: "max_from m xs \<in> insert m (set xs)"
  by (induction xs arbitrary: m) auto

lemma max_element_mem: "xs \<noteq> [] \<Longrightarrow> max_element xs \<in> set xs"
  using max_from_mem [of "hd xs" "tl xs"] by (cases xs) auto

lemma mono_maxVarDegree_nonneg:
  "list_all (\<lambda>p. 0 \<le> pow_exp p) (prodOfPowers m) \<Longrightarrow> 0 \<le> mono_maxVarDegree m"
  using max_element_mem [of "map pow_exp (prodOfPowers m)"]
  by (cases "prodOfPowers m = []") (auto simp: mono_maxVarDegree_def list_all_iff)

lemma sum_maxVarDegree_nonneg:
  assumes "list_all well_formed ms"
  shows "0 \<le> sum_maxVarDegree ms"
  using max_element_mem [of "map mono_maxVarDegree ms"] assms mono_maxVarDegree_nonneg
  by (cases "ms = []") (auto simp: sum_maxVarDegree_def list_all_iff well_formed_def)

lemma exponent_bounds:
  assumes "list_all well_formed ms" "m \<in> set ms"
  shows "0 \<le> exponent (prodOfPowers m) v \<and> exponent (prodOfPowers m) v \<le> sum_maxVarDegree ms"
proof (cases "v \<in> pow_var ` set (prodOfPowers m)")
  case True
  then obtain p where p: "p \<in> set (prodOfPowers m)" "v = pow_var p" by auto
  have wf: "well_formed m" using assms by (simp add: list_all_iff)
  have "pow_exp p \<le> mono_maxVarDegree m" "mono_maxVarDegree m \<le> sum_maxVarDegree ms"
    using p assms(2) by (auto simp: mono_maxVarDegree_def sum_maxVarDegree_def intro: max_element_ge)
  with p wf show ?thesis by (auto simp: well_formed_def exponent_distinct list_all_iff)
next
  case False
  then show ?thesis using sum_maxVarDegree_nonneg [OF assms(1)] by (simp add: exponent_absent)
qed

lemma packed_exponents_Cons:
  assumes "distinct vs" "i < length vs" "vs ! i = pow_var p"
  shows "packed b (\<lambda>j. exponent (p # ps) (vs ! j)) (length vs) =
    pow_exp p * b ^ i + packed b (\<lambda>j. exponent ps (vs ! j)) (length vs)"
proof -
  have "exponent (p # ps) (vs ! j) = (if j = i then pow_exp p else 0) + exponent ps (vs ! j)"
    if "j < length vs" for j
    using assms that by (auto simp: exponent_def nth_eq_iff_index_eq)
  then have "packed b (\<lambda>j. exponent (p # ps) (vs ! j)) (length vs) =
      (\<Sum>j<length vs. (if j = i then pow_exp p else 0) * b ^ j) + packed b (\<lambda>j. exponent ps (vs ! j)) (length vs)"
    unfolding packed_def sum.distrib [symmetric] by (intro sum.cong) (auto simp: algebra_simps)
  moreover have "(\<Sum>j<length vs. (if j = i then pow_exp p else 0) * b ^ j) = pow_exp p * b ^ i"
    using assms(2) by (simp add: if_distrib [of "\<lambda>x. x * _"] sum.delta cong: if_cong)
  ultimately show ?thesis by simp
qed

section \<open>The conversions through doubles\<close>

lemma to_int_of_i: "- (2 ^ 31) \<le> i \<Longrightarrow> i < 2 ^ 31 \<Longrightarrow> to_int (Fin (of_int i)) = Inr i"
  by (simp add: to_int_def trunc_real_def)

lemma power_word_small:
  assumes "1 \<le> b" "b ^ n \<le> 2 ^ 31" "i < n"
  shows "b ^ i < (2::int) ^ 31"
proof (cases "b = 1")
  case False
  with assms have "b ^ i < b ^ n" by (intro power_strict_increasing) auto
  with assms show ?thesis by simp
qed simp

lemma pow_to_int:
  assumes "platform_laws M" "1 \<le> b" "b ^ n \<le> 2 ^ 31" "i < n"
  shows "to_int (m_pow M (of_i b) (of_i (int i))) = Inr (b ^ i)"
proof -
  have small: "b ^ i < 2 ^ 31" by (rule power_word_small [OF assms(2-4)])
  with assms(2) have "m_pow M (Fin (of_int b)) (Fin (of_nat i)) = Fin (of_int (b ^ i))"
    by (intro platform_laws.pow_exact [OF assms(1)]) auto
  then have "m_pow M (of_i b) (of_i (int i)) = Fin (of_int (b ^ i))"
    by (simp add: of_i_def)
  moreover have "0 \<le> b ^ i" using assms(2) by simp
  ultimately show ?thesis
    using small by (simp only: to_int_of_i)
qed

lemma pow_half_to_int:
  assumes "platform_laws M" "1 \<le> b" "b ^ n \<le> 2 ^ 31" "i < n"
  shows "to_int (dadd M (m_pow M (of_i b) (of_i (int i))) (Fin (1/2))) = Inr (b ^ i)"
proof -
  have small: "b ^ i < 2 ^ 31" and pos: "0 < b ^ i"
    using power_word_small [OF assms(2-4)] assms(2) by simp_all
  from small assms(2) have pw: "m_pow M (Fin (of_int b)) (Fin (of_nat i)) = Fin (of_int (b ^ i))"
    by (intro platform_laws.pow_exact [OF assms(1)]) auto
  have "rnd M (of_int (2 * b ^ i + 1) * 2 powi - 1) = Fin (of_int (2 * b ^ i + 1) * 2 powi - 1)"
    using small pos
    by (intro rounding.r_dyadic [OF platform_laws.axioms(1) [OF assms(1)]]) auto
  then have "rnd M (of_int (b ^ i) + 1/2) = Fin (of_int (b ^ i) + 1/2)"
    by (simp add: power_int_minus field_simps)
  moreover have "of_int (b ^ i) + 1/2 \<noteq> (0::real)" using pos
    by (metis add_pos_pos half_gt_zero_iff of_int_0_less_iff order_less_irrefl zero_less_one)
  ultimately have "dadd M (m_pow M (of_i b) (of_i (int i))) (Fin (1/2)) = Fin (of_int (b ^ i) + 1/2)"
    using pw by (simp add: of_i_def dadd_def)
  moreover have "trunc_real (of_int (b ^ i) + 1/2) = b ^ i"
    using assms(2) by (simp add: trunc_real_def floor_eq_iff)
  ultimately show ?thesis using small pos by (simp add: to_int_def)
qed

section \<open>What buildPolynomial writes\<close>

lemma mono_offset_packed:
  assumes M: "platform_laws M" "1 \<le> b" "b ^ length vs \<le> 2 ^ 31" and vs: "distinct vs"
  shows "pow_var ` set ps \<subseteq> set vs \<Longrightarrow> list_all (\<lambda>p. 0 \<le> pow_exp p) ps \<Longrightarrow> 0 \<le> acc \<Longrightarrow>
    acc + packed b (\<lambda>j. exponent ps (vs ! j)) (length vs) < 2 ^ 31 \<Longrightarrow>
    mono_offset_from M (b - 1) vs acc ps = Inr (acc + packed b (\<lambda>j. exponent ps (vs ! j)) (length vs))"
proof (induction ps arbitrary: acc)
  case Nil
  then show ?case by (simp add: packed_def exponent_def)
next
  case (Cons p ps)
  from Cons.prems(1) obtain i where i: "index_of (pow_var p) vs = Some i" "i < length vs" "vs ! i = pow_var p"
    using index_of_Some [of "pow_var p" vs] by auto
  note split = packed_exponents_Cons [OF vs i(2,3), of b ps]
  have rest: "0 \<le> packed b (\<lambda>j. exponent ps (vs ! j)) (length vs)"
    using Cons.prems(2) assms(2) by (intro packed_nonneg) (auto simp: exponent_def list_all_iff intro!: sum_list_nonneg)
  have "0 \<le> pow_exp p * b ^ i" using Cons.prems(2) assms(2) by simp
  moreover have "acc + pow_exp p * b ^ i < 2 ^ 31" using Cons.prems(4) rest split by simp
  ultimately have "power_offset M (b - 1) vs p = Inr (pow_exp p * b ^ i)"
      "fits32 (acc + pow_exp p * b ^ i) = Inr (acc + pow_exp p * b ^ i)"
    using i pow_to_int [OF M i(2)] Cons.prems(3) by (auto simp: power_offset_def fits32_def)
  moreover have "mono_offset_from M (b - 1) vs (acc + pow_exp p * b ^ i) ps =
      Inr (acc + pow_exp p * b ^ i + packed b (\<lambda>j. exponent ps (vs ! j)) (length vs))"
    using Cons.prems \<open>0 \<le> pow_exp p * b ^ i\<close> split by (intro Cons.IH) auto
  ultimately show ?case by (simp add: split)
qed

text \<open>The sums whose encoding has room: every digit fits, and so does every offset.\<close>

definition encodable :: "monomial_sum \<Rightarrow> bool" where
  "encodable ms \<longleftrightarrow> list_all well_formed ms \<and> sum_maxVarDegree ms \<le> 255 \<and>
     (sum_maxVarDegree ms + 1) ^ length (sum_variables ms) \<le> 2 ^ 31"

definition mono_packed :: "monomial_sum \<Rightarrow> monomial \<Rightarrow> int" where
  "mono_packed ms m = packed (sum_maxVarDegree ms + 1)
     (\<lambda>j. exponent (prodOfPowers m) (sum_variables ms ! j)) (length (sum_variables ms))"

lemma mono_packed_bounds:
  assumes "encodable ms" "m \<in> set ms"
  shows "0 \<le> mono_packed ms m \<and> mono_packed ms m < 2 ^ 31"
proof -
  have wf: "list_all well_formed ms" and room: "(sum_maxVarDegree ms + 1) ^ length (sum_variables ms) \<le> 2 ^ 31"
    using assms(1) by (auto simp: encodable_def)
  have ex: "0 \<le> exponent (prodOfPowers m) v \<and> exponent (prodOfPowers m) v < sum_maxVarDegree ms + 1" for v
    using exponent_bounds [OF wf assms(2), of v] by simp
  have one: "1 \<le> sum_maxVarDegree ms + 1" using sum_maxVarDegree_nonneg [OF wf] by simp
  show ?thesis
    unfolding mono_packed_def using packed_nonneg [OF one] packed_less [OF one] ex room by (meson order_less_le_trans)
qed

lemma mono_offset_run:
  assumes "platform_laws M" "encodable ms" "m \<in> set ms"
  shows "mono_offset M (sum_maxVarDegree ms) (sum_variables ms) m = Inr (mono_packed ms m)"
proof -
  have wf: "list_all well_formed ms" using assms(2) by (auto simp: encodable_def)
  have one: "1 \<le> sum_maxVarDegree ms + 1" using sum_maxVarDegree_nonneg [OF wf] by simp
  have room: "(sum_maxVarDegree ms + 1) ^ length (sum_variables ms) \<le> 2 ^ 31"
    using assms(2) by (auto simp: encodable_def)
  have vars: "pow_var ` set (prodOfPowers m) \<subseteq> set (sum_variables ms)" "distinct (sum_variables ms)"
    using assms(3) by (auto simp: sum_variables_def)
  have nn: "list_all (\<lambda>p. 0 \<le> pow_exp p) (prodOfPowers m)"
    using wf assms(3) by (auto simp: list_all_iff well_formed_def)
  show ?thesis
    using mono_offset_packed [OF assms(1) one room vars(2) vars(1) nn, of 0] mono_packed_bounds [OF assms(2,3)]
    by (simp add: mono_offset_def mono_packed_def)
qed

lemma build_polynomial_run:
  assumes "platform_laws M" "encodable ms"
  shows "build_polynomial M ms = Inr \<lparr> poly_variables = sum_variables ms,
    maxVarDegree = word_of_int (sum_maxVarDegree ms),
    coefficients = map (\<lambda>m. \<lparr> offset = word_of_int (mono_packed ms m), coeff_value = coeff m \<rparr>) ms \<rparr>"
proof -
  have "rmap (\<lambda>mon. rbind (mono_offset M (sum_maxVarDegree ms) (sum_variables ms) mon) (\<lambda>off.
      Inr \<lparr> offset = word_of_int off, coeff_value = coeff mon \<rparr>)) ms =
    Inr (map (\<lambda>m. \<lparr> offset = word_of_int (mono_packed ms m), coeff_value = coeff m \<rparr>) ms)"
    by (rule rmap_Inr) (simp add: mono_offset_run [OF assms])
  moreover have "fits32 (sum_maxVarDegree ms + 1) = Inr (sum_maxVarDegree ms + 1)"
    using assms(2) sum_maxVarDegree_nonneg [of ms] by (simp add: fits32_def encodable_def)
  ultimately show ?thesis by (simp add: build_polynomial_def Let_def)
qed

lemma sint_word_small: "0 \<le> i \<Longrightarrow> i < 2 ^ 31 \<Longrightarrow> sint (word_of_int i :: 32 word) = i"
  by (simp add: sint_sbintrunc' signed_take_bit_int_eq_self)

lemma uint_word8_small: "0 \<le> i \<Longrightarrow> i \<le> 255 \<Longrightarrow> uint (word_of_int i :: 8 word) = i"
  by (simp add: uint_word_of_int)

lemma sdiv_smod_nonneg:
  assumes "0 \<le> x" "0 < w" "0 < d"
  shows "(x sdiv w) smod d = x div w mod (d::int)"
proof -
  have "x sdiv w = x div w"
    using assms by (cases "x = 0") (auto simp: signed_divide_int_def)
  moreover have "0 \<le> x div w" using assms by (simp add: pos_imp_zdiv_nonneg_iff)
  then have "x div w smod d = x div w mod d"
    using assms by (cases "x div w = 0") (auto simp: signed_modulo_int_def)
  ultimately show ?thesis by simp
qed

lemma digit_of_packed:
  assumes M: "platform_laws M" and enc: "encodable ms" "m \<in> set ms" and k: "k < length (sum_variables ms)"
  shows "poly_digit M (sum_maxVarDegree ms + 1) (mono_packed ms m) k =
    Inr (exponent (prodOfPowers m) (sum_variables ms ! k))"
proof -
  let ?b = "sum_maxVarDegree ms + 1"
  have wf: "list_all well_formed ms" and room: "?b ^ length (sum_variables ms) \<le> 2 ^ 31"
    using enc(1) by (auto simp: encodable_def)
  have one: "1 \<le> ?b" using sum_maxVarDegree_nonneg [OF wf] by simp
  have ex: "0 \<le> exponent (prodOfPowers m) v \<and> exponent (prodOfPowers m) v < ?b" for v
    using exponent_bounds [OF wf enc(2), of v] by simp
  have "mono_packed ms m div ?b ^ k mod ?b = exponent (prodOfPowers m) (sum_variables ms ! k)"
    unfolding mono_packed_def by (rule packed_digit [OF one _ k]) (use ex in blast)
  then show ?thesis
    using pow_half_to_int [OF M one room k] mono_packed_bounds [OF enc] one
    by (simp add: poly_digit_def sdiv_smod_nonneg)
qed

text \<open>C19: Round trip of the exponents: for monomials whose variables are distinct and whose exponents are not negative, with degree at most 255 and offsets that fit, \<open>buildPolynomial\<close> succeeds, and the digit extraction of \<open>eval(Polynomial)\<close> reads back from every coefficient's offset the exponent its monomial gives to every variable.\<close>

theorem polynomial_exponents_roundtrip:
  assumes "platform_laws M" and "encodable ms"
  shows "\<exists>p. build_polynomial M ms = Inr p \<and> length (coefficients p) = length ms \<and>
    (\<forall>i < length ms. \<forall>k < length (poly_variables p).
      coeff_value (coefficients p ! i) = coeff (ms ! i) \<and>
      poly_digit M (uint (maxVarDegree p) + 1) (sint (offset (coefficients p ! i))) k =
        Inr (exponent (prodOfPowers (ms ! i)) (poly_variables p ! k)))"
proof -
  have deg: "uint (word_of_int (sum_maxVarDegree ms) :: 8 word) = sum_maxVarDegree ms"
    using assms(2) sum_maxVarDegree_nonneg [of ms] by (intro uint_word8_small) (auto simp: encodable_def)
  have "poly_digit M (sum_maxVarDegree ms + 1) (sint (word_of_int (mono_packed ms (ms ! i)) :: 32 word)) k =
      Inr (exponent (prodOfPowers (ms ! i)) (sum_variables ms ! k))"
    if "i < length ms" "k < length (sum_variables ms)" for i k
    using digit_of_packed [OF assms nth_mem [OF that(1)] that(2)]
      mono_packed_bounds [OF assms(2) nth_mem [OF that(1)]] by (simp add: sint_word_small)
  then show ?thesis
    by (simp add: build_polynomial_run [OF assms] deg)
qed

theorem polynomial_exponents_roundtrip_witness:
  "\<exists>p. build_polynomial ieee64 [mono_concat (var_power ''Q'' 3) (var_power ''P'' 2), monomial_of_var ''P''] = Inr p \<and>
    poly_digit ieee64 (uint (maxVarDegree p) + 1) (sint (offset (coefficients p ! 0))) 1 =
      Inr (exponent (prodOfPowers (mono_concat (var_power ''Q'' 3) (var_power ''P'' 2))) (poly_variables p ! 1))"
  (is "\<exists>p. build_polynomial ieee64 ?ms = Inr p \<and> _")
proof -
  have vars: "sum_variables ?ms = [''P'', ''Q'']"
    by (simp add: sum_variables_def mono_concat_def var_power_def monomial_of_var_def less_eq_list_code)
  have enc: "encodable ?ms"
    unfolding encodable_def vars
    by (simp add: well_formed_def mono_concat_def var_power_def monomial_of_var_def
        sum_maxVarDegree_def mono_maxVarDegree_def)
  show ?thesis
    using polynomial_exponents_roundtrip [OF ieee64_p.platform_laws_axioms enc]
    by (auto simp: build_polynomial_run [OF ieee64_p.platform_laws_axioms enc] vars)
qed

end
