(* ===== verification/Poly_Eval.thy ===== *)
theory Poly_Eval imports Poly_Props begin

text \<open>
  The value \<open>eval(Polynomial)\<close> computes, in exact arithmetic: the polynomial function of the
  monomials, and for \<open>dVar\<close> not negative its partial derivative.
\<close>

section \<open>Exact operations\<close>

definition has_val :: "double \<Rightarrow> real \<Rightarrow> bool" where
  "has_val a x \<longleftrightarrow> is_finite a \<and> val a = x"

named_theorems val_intros \<open>values of the exact operations\<close>

lemma has_val_Fin [val_intros]: "has_val (Fin x) x"
  by (simp add: has_val_def)

lemma has_val_of_i [val_intros]: "has_val (of_i i) (of_int i)"
  by (simp add: has_val_def of_i_def)

lemma has_val_neg [val_intros]: "has_val a x \<Longrightarrow> has_val (dneg a) (- x)"
  by (auto simp: has_val_def)

lemma has_val_add [val_intros]: "has_val a x \<Longrightarrow> has_val b y \<Longrightarrow> has_val (dadd exact a b) (x + y)"
  by (cases a; cases b) (auto simp: has_val_def dadd_def zero_of_def)

lemma has_val_sub [val_intros]: "has_val a x \<Longrightarrow> has_val b y \<Longrightarrow> has_val (dsub exact a b) (x - y)"
  using has_val_add [OF _ has_val_neg] by (auto simp: dsub_def)

lemma has_val_mul [val_intros]: "has_val a x \<Longrightarrow> has_val b y \<Longrightarrow> has_val (dmul exact a b) (x * y)"
  by (cases a; cases b) (auto simp: has_val_def dmul_def zero_of_def)

lemma has_val_div [val_intros]: "has_val a x \<Longrightarrow> has_val b y \<Longrightarrow> y \<noteq> 0 \<Longrightarrow> has_val (ddiv exact a b) (x / y)"
  by (cases a; cases b) (auto simp: has_val_def ddiv_def zero_of_def)

lemma exact_pow: "m_pow exact = pow_gen Fin"
  by (simp add: exact_def)

lemma has_val_pow [val_intros]:
  assumes "has_val a x" "0 \<le> e"
  shows "has_val (m_pow exact a (of_i e)) (x ^ nat e)"
proof -
  have "has_val (pow_fin Fin x (of_int e)) (x ^ nat e)"
    using assms(2) by (auto simp: pow_fin_def has_val_def power_int_def zero_power)
  moreover have "a = Fin x \<or> a = NZero \<and> x = 0" using assms(1) by (cases a) (auto simp: has_val_def)
  ultimately show ?thesis
    using assms(2) by (auto simp: exact_pow of_i_def has_val_def zero_power)
qed

lemma has_val_eqI: "has_val a x \<Longrightarrow> x = y \<Longrightarrow> has_val a y"
  by simp

section \<open>Monomials\<close>

text \<open>The factor of variable \<open>k\<close>: a power, or its derivative when \<open>k\<close> is \<open>dVar\<close>.\<close>

definition factor :: "int \<Rightarrow> (nat \<Rightarrow> int) \<Rightarrow> nat \<Rightarrow> real \<Rightarrow> real" where
  "factor dVar e k x =
     (if dVar = int k then of_int (e k) * x ^ nat (e k - 1) else x ^ nat (e k))"

lemma eval_monomial_value:
  assumes "\<And>k. k < length xs \<Longrightarrow> poly_digit exact d off (var + k) = Inr (e (var + k)) \<and> 0 \<le> e (var + k)"
    and "has_val monom y"
  shows "\<exists>r. eval_monomial exact d off dVar var (map Fin xs) monom = Inr r \<and>
    has_val r (y * (\<Prod>k<length xs. factor dVar e (var + k) (xs ! k)))"
  using assms
proof (induction xs arbitrary: var monom y)
  case Nil
  then show ?case by simp
next
  case (Cons x xs)
  have dig: "poly_digit exact d off var = Inr (e var)" and e0: "0 \<le> e var"
    using Cons.prems(1) [of 0] by auto
  have rest: "\<exists>r. eval_monomial exact d off dVar (Suc var) (map Fin xs) m = Inr r \<and>
      has_val r (z * (\<Prod>k<length xs. factor dVar e (Suc var + k) (xs ! k)))" if "has_val m z" for m z
    using Cons.prems(1) [of "Suc _"] that by (intro Cons.IH) auto
  have prod: "(\<Prod>k<length (x # xs). factor dVar e (var + k) ((x # xs) ! k)) =
      factor dVar e var x * (\<Prod>k<length xs. factor dVar e (Suc var + k) (xs ! k))"
    by (simp only: length_Cons prod.lessThan_Suc_shift) simp
  show ?case
  proof (cases "dVar = int var")
    case False
    then have "factor dVar e var x = x ^ nat (e var)" by (simp add: factor_def)
    with rest [of "dmul exact monom (m_pow exact (Fin x) (of_i (e var)))" "y * x ^ nat (e var)"] False
    show ?thesis
      using e0 Cons.prems(2) by (simp only: prod) (simp add: dig ac_simps val_intros)
  next
    case True
    consider "e var = 0" | "e var = 1" | "1 < e var" using e0 by linarith
    then show ?thesis
    proof cases
      case 1
      show ?thesis unfolding prod using 1 True by (simp add: dig factor_def val_intros)
    next
      case 2
      show ?thesis unfolding prod using 2 True rest [OF Cons.prems(2)] by (simp add: dig factor_def)
    next
      case 3
      have "has_val (dmul exact monom (dmul exact (of_i (e var)) (m_pow exact (Fin x) (of_i (e var - 1)))))
          (y * (of_int (e var) * x ^ nat (e var - 1)))"
        using 3 Cons.prems(2) by (intro val_intros) auto
      from rest [OF this] show ?thesis unfolding prod using 3 True by (simp add: dig factor_def ac_simps)
    qed
  qed
qed

lemma eval_coeffs_value:
  assumes "\<And>m k. m \<in> set ms \<Longrightarrow> k < length xs \<Longrightarrow>
      poly_digit exact d (sint (offset (f m))) k = Inr (e m k) \<and> 0 \<le> e m k"
    and "\<And>m. m \<in> set ms \<Longrightarrow> has_val (coeff_value (f m)) (c m)" and "has_val acc y"
  shows "\<exists>r. eval_coeffs exact d dVar (map Fin xs) (map f ms) acc = Inr r \<and>
    has_val r (y + (\<Sum>m\<leftarrow>ms. c m * (\<Prod>k<length xs. factor dVar (e m) k (xs ! k))))"
  using assms
proof (induction ms arbitrary: acc y)
  case (Cons m ms)
  obtain r where r: "eval_monomial exact d (sint (offset (f m))) dVar 0 (map Fin xs) (Fin 1) = Inr r"
      "has_val r (1 * (\<Prod>k<length xs. factor dVar (e m) (0 + k) (xs ! k)))"
    using eval_monomial_value [of xs d "sint (offset (f m))" 0 "e m" "Fin 1" 1 dVar] Cons.prems(1) [of m]
    by (auto simp: val_intros)
  have "has_val (dadd exact acc (dmul exact (coeff_value (f m)) r))
      (y + c m * (\<Prod>k<length xs. factor dVar (e m) k (xs ! k)))"
    using r(2) Cons.prems by (intro val_intros) auto
  from Cons.IH [OF _ _ this] Cons.prems(1,2) r(1) show ?case by (auto simp: add.assoc)
qed simp

section \<open>The polynomial function\<close>

definition poly_fun :: "monomial_sum \<Rightarrow> string list \<Rightarrow> real list \<Rightarrow> real" where
  "poly_fun ms vs xs = (\<Sum>m\<leftarrow>ms. val (coeff m) *
     (\<Prod>k<length vs. (xs ! k) ^ nat (exponent (prodOfPowers m) (vs ! k))))"

definition poly_partial :: "int \<Rightarrow> monomial_sum \<Rightarrow> string list \<Rightarrow> real list \<Rightarrow> real" where
  "poly_partial dVar ms vs xs = (\<Sum>m\<leftarrow>ms. val (coeff m) *
     (\<Prod>k<length vs. factor dVar (\<lambda>k. exponent (prodOfPowers m) (vs ! k)) k (xs ! k)))"

lemma poly_partial_none: "poly_partial (- 1) ms vs xs = poly_fun ms vs xs"
  by (simp add: poly_partial_def poly_fun_def factor_def)

lemma eval_built_polynomial:
  assumes enc: "encodable ms" and fin: "list_all (\<lambda>m. is_finite (coeff m)) ms"
    and env: "map env (sum_variables ms) = map (\<lambda>x. Some (Fin x)) xs"
  shows "\<exists>p r. build_polynomial exact ms = Inr p \<and> poly_variables p = sum_variables ms \<and>
    eval_polynomial exact dVar p env = Inr r \<and>
    has_val r (poly_partial dVar ms (sum_variables ms) xs)"
proof -
  let ?vs = "sum_variables ms"
  let ?f = "\<lambda>m. \<lparr> offset = word_of_int (mono_packed ms m), coeff_value = coeff m \<rparr> :: sparse_coeff"
  have len: "length ?vs = length xs" using map_eq_imp_length_eq [OF env] by simp
  have deg: "uint (word_of_int (sum_maxVarDegree ms) :: 8 word) = sum_maxVarDegree ms"
    using enc sum_maxVarDegree_nonneg [of ms] by (intro uint_word8_small) (auto simp: encodable_def)
  have at: "at_var env (?vs ! k) = Inr (Fin (xs ! k))" if "k < length xs" for k
    using arg_cong [OF env, of "\<lambda>l. l ! k"] that len by (simp add: at_var_def)
  have pts: "rmap (at_var env) ?vs = Inr (map Fin xs)"
  proof -
    have "rmap (at_var env) ?vs = Inr (map (\<lambda>v. val_of (at_var env v)) ?vs)" if "val_of = (\<lambda>r. case r of Inr x \<Rightarrow> x | Inl _ \<Rightarrow> Nan)" for val_of
      using at len that by (intro rmap_Inr) (auto simp: in_set_conv_nth)
    moreover have "map (\<lambda>v. (\<lambda>r. case r of Inr x \<Rightarrow> x | Inl _ \<Rightarrow> Nan) (at_var env v)) ?vs = map Fin xs"
      using at len by (intro nth_equalityI) auto
    ultimately show ?thesis by simp
  qed
  have digits: "poly_digit exact (sum_maxVarDegree ms + 1) (sint (offset (?f m))) k =
        Inr (exponent (prodOfPowers m) (?vs ! k)) \<and> 0 \<le> exponent (prodOfPowers m) (?vs ! k)"
    if "m \<in> set ms" "k < length xs" for m k
    using digit_of_packed [OF exact_p.platform_laws_axioms enc that(1)] mono_packed_bounds [OF enc that(1)]
      exponent_bounds [of ms m] enc that len by (simp add: sint_word_small encodable_def)
  have "has_val (coeff_value (?f m)) (val (coeff m))" if "m \<in> set ms" for m
    using fin that by (simp add: has_val_def list_all_iff)
  from eval_coeffs_value [of ms xs _ ?f, OF digits this has_val_Fin]
  obtain r where "eval_coeffs exact (sum_maxVarDegree ms + 1) dVar (map Fin xs) (map ?f ms) (Fin 0) = Inr r"
      "has_val r (0 + (\<Sum>m\<leftarrow>ms. val (coeff m) * (\<Prod>k<length xs.
         factor dVar (\<lambda>k. exponent (prodOfPowers m) (?vs ! k)) k (xs ! k))))"
    by blast
  then show ?thesis
    by (simp add: build_polynomial_run [OF exact_p.platform_laws_axioms enc] eval_polynomial_def deg pts
        poly_partial_def len)
qed

text \<open>C8: In exact arithmetic, evaluating the message that \<open>buildPolynomial\<close> wrote for a sum of monomials, at finite values of its variables, gives the value of the polynomial: the sum over the monomials of the coefficient times the powers of the variables. The polynomial is one that the message can hold (\<open>encodable\<close>): no monomial has a variable twice or a negative exponent, no exponent exceeds 255, and the packed exponents fit (the degree plus one, to the number of the variables, is at most \<open>2^31\<close>); the coefficients are finite.\<close>

theorem built_polynomial_value:
  assumes "encodable ms" and "list_all (\<lambda>m. is_finite (coeff m)) ms"
    and "map env (sum_variables ms) = map (\<lambda>x. Some (Fin x)) xs"
  shows "\<exists>p r. build_polynomial exact ms = Inr p \<and> eval_polynomial exact (- 1) p env = Inr r \<and>
    is_finite r \<and> val r = poly_fun ms (sum_variables ms) xs"
  using eval_built_polynomial [OF assms, of "- 1"] by (auto simp: poly_partial_none has_val_def)

lemma has_derivative_factor:
  assumes "i < length xs" "\<And>k. 0 \<le> e k"
  shows "((\<lambda>t. \<Prod>k<length xs. (xs[i := t] ! k) ^ nat (e k)) has_real_derivative
    (\<Prod>k<length xs. factor (int i) e k (xs ! k))) (at (xs ! i))"
proof -
  let ?rest = "\<Prod>k\<in>{..<length xs} - {i}. (xs ! k) ^ nat (e k)"
  have "(\<Prod>k<length xs. (xs[i := t] ! k) ^ nat (e k)) = t ^ nat (e i) * ?rest" for t
    using assms(1) by (subst prod.remove [of _ i]) (auto intro!: arg_cong2 [of _ _ _ _ "(*)"] prod.cong)
  moreover have "(\<Prod>k<length xs. factor (int i) e k (xs ! k)) = of_int (e i) * (xs ! i) ^ nat (e i - 1) * ?rest"
    using assms(1) by (subst prod.remove [of _ i]) (auto simp: factor_def intro!: arg_cong2 [of _ _ _ _ "(*)"] prod.cong)
  moreover have "nat (e i) - Suc 0 = nat (e i - 1)" by simp
  then have "((\<lambda>t. t ^ nat (e i) * ?rest) has_real_derivative
      of_int (e i) * (xs ! i) ^ nat (e i - 1) * ?rest) (at (xs ! i))"
    using assms(2) [of i] by (auto intro!: derivative_eq_intros)
  ultimately show ?thesis by simp
qed

lemma poly_fun_has_derivative:
  assumes "i < length xs" "length vs = length xs" "list_all well_formed ms"
  shows "((\<lambda>t. poly_fun ms vs (xs[i := t])) has_real_derivative poly_partial (int i) ms vs xs) (at (xs ! i))"
  using assms(3)
proof (induction ms)
  case (Cons m ms)
  have "0 \<le> exponent (prodOfPowers m) v" for v
    using exponent_bounds [of "[m]" m v] Cons.prems by simp
  then have "((\<lambda>t. val (coeff m) * (\<Prod>k<length xs. (xs[i := t] ! k) ^ nat (exponent (prodOfPowers m) (vs ! k)))
        + poly_fun ms vs (xs[i := t])) has_real_derivative
      val (coeff m) * (\<Prod>k<length xs. factor (int i) (\<lambda>k. exponent (prodOfPowers m) (vs ! k)) k (xs ! k))
        + poly_partial (int i) ms vs xs) (at (xs ! i))"
    using Cons by (intro DERIV_add DERIV_cmult has_derivative_factor assms(1)) auto
  then show ?case by (simp add: poly_fun_def poly_partial_def assms(2))
qed (simp add: poly_fun_def poly_partial_def)

text \<open>In exact arithmetic, \<open>eval(Polynomial, i)\<close> on the message of \<open>buildPolynomial\<close> gives the partial derivative of the polynomial function in its \<open>i\<close>-th variable.\<close>

theorem built_polynomial_derivative:
  assumes "encodable ms" and "list_all (\<lambda>m. is_finite (coeff m)) ms"
    and "map env (sum_variables ms) = map (\<lambda>x. Some (Fin x)) xs" and "i < length xs"
  shows "\<exists>p r. build_polynomial exact ms = Inr p \<and> eval_polynomial exact (int i) p env = Inr r \<and>
    is_finite r \<and>
    ((\<lambda>t. poly_fun ms (sum_variables ms) (xs[i := t])) has_real_derivative val r) (at (xs ! i))"
proof -
  have "length (sum_variables ms) = length xs" using map_eq_imp_length_eq [OF assms(3)] by simp
  then show ?thesis
    using eval_built_polynomial [OF assms(1-3), of "int i"]
      poly_fun_has_derivative [OF assms(4), of "sum_variables ms" ms] assms(1)
    by (auto simp: has_val_def encodable_def)
qed

text \<open>An example: \<open>5*(P^3|Q^2) + Q\<close>.\<close>

definition example_poly :: monomial_sum where
  "example_poly = [mono_scale exact (Fin 5) (mono_concat (var_power ''P'' 3) (var_power ''Q'' 2)), monomial_of_var ''Q'']"

lemma example_poly_facts:
  "sum_variables example_poly = [''P'', ''Q'']" "encodable example_poly"
  "list_all (\<lambda>m. is_finite (coeff m)) example_poly"
proof -
  show vars: "sum_variables example_poly = [''P'', ''Q'']"
    by (simp add: example_poly_def sum_variables_def mono_scale_def mono_concat_def var_power_def monomial_of_var_def
        less_eq_list_code)
  show "encodable example_poly"
    unfolding encodable_def vars
    by (simp add: example_poly_def well_formed_def mono_scale_def mono_concat_def var_power_def monomial_of_var_def
        sum_maxVarDegree_def mono_maxVarDegree_def)
  show "list_all (\<lambda>m. is_finite (coeff m)) example_poly"
    by (simp add: example_poly_def mono_scale_def mono_concat_def var_power_def monomial_of_var_def dmul_def)
qed

theorem built_polynomial_value_witness:
  "\<exists>p r. build_polynomial exact example_poly = Inr p \<and>
    eval_polynomial exact (- 1) p [''P'' \<mapsto> Fin 2, ''Q'' \<mapsto> Fin 3] = Inr r \<and> is_finite r \<and> val r = 363"
  using built_polynomial_value [of example_poly "[''P'' \<mapsto> Fin 2, ''Q'' \<mapsto> Fin 3]" "[2, 3]"]
  by (simp add: example_poly_facts)
    (simp add: example_poly_def poly_fun_def mono_scale_def mono_concat_def var_power_def monomial_of_var_def
      dmul_def exponent_def eval_nat_numeral)

theorem built_polynomial_derivative_witness:
  "\<exists>p r. build_polynomial exact example_poly = Inr p \<and>
    eval_polynomial exact 1 p [''P'' \<mapsto> Fin 2, ''Q'' \<mapsto> Fin 3] = Inr r \<and> is_finite r \<and>
    ((\<lambda>t. poly_fun example_poly [''P'', ''Q''] ([2, 3][1 := t])) has_real_derivative val r) (at 3)"
  using built_polynomial_derivative [of example_poly "[''P'' \<mapsto> Fin 2, ''Q'' \<mapsto> Fin 3]" "[2, 3]" 1]
  by (simp add: example_poly_facts)

end
