(* ===== verification/Expr_Build.thy ===== *)
theory Expr_Build imports Poly_Eval begin

text \<open>
  \<open>commelec-api/realexpr-convenience.hpp\<close>: the expression templates of the namespace \<open>cv\<close>.
  An \<open>Expr<T>\<close> is a value of the datatype \<open>expr\<close>, one constructor per specialisation of the
  template; its method \<open>build\<close>, which writes into a message builder, is \<open>build_expr\<close>.
\<close>

section \<open>Expressions\<close>

datatype expr =
    ERef string
  | EVar string
  | EName string expr
  | EReal double
  | EPoly monomial_sum
  | EUnary unary_op expr
  | EBinary binary_op expr expr

text \<open>
  \<open>build\<close> writes the union of the builder it is given and keeps the builder's name, which
  \<open>_Name\<close> sets before it descends. \<open>chk\<close> is the setting of the debug check of Cap'n Proto's
  union accessors: \<open>Expr<_Polynomial>\<close> calls \<open>getPolynomial\<close> on a union that still has its
  default tag, which the check rejects, and which without the check leaves the tag of a
  number (the literal 0).
\<close>

fun build_expr :: "platform \<Rightarrow> bool \<Rightarrow> string option \<Rightarrow> expr \<Rightarrow> real_expr result" where
  "build_expr M chk nm (ERef r) = Inr (RealExpr nm (Reference r))"
| "build_expr M chk nm (EVar v) = Inr (RealExpr nm (Variable v))"
| "build_expr M chk nm (EName n e) = build_expr M chk (Some n) e"
| "build_expr M chk nm (EReal x) = Inr (RealExpr nm (Real x))"
| "build_expr M chk nm (EPoly m) =
     (if chk then Inl Kj_Exception
      else rbind (build_polynomial M m) (\<lambda>_. Inr (RealExpr nm (Real (Fin 0)))))"
| "build_expr M chk nm (EUnary op a) =
     rbind (build_expr M chk None a) (\<lambda>x. Inr (RealExpr nm (UnaryOperation op x)))"
| "build_expr M chk nm (EBinary op a b) =
     rbind (build_expr M chk None a) (\<lambda>x. rbind (build_expr M chk None b) (\<lambda>y.
     Inr (RealExpr nm (BinaryOperation op x y))))"

definition build_real_expr :: "platform \<Rightarrow> bool \<Rightarrow> expr \<Rightarrow> real_expr result" where
  "build_real_expr M chk e = build_expr M chk None e"

text \<open>\<open>name(ref, expr)\<close>.\<close>

definition named :: "string \<Rightarrow> expr \<Rightarrow> expr" where
  "named r e = EName r e"

section \<open>Functions and operators\<close>

text \<open>The macros \<open>UNOPFUN\<close> and \<open>BINOPFUN\<close>, at the class of an operation.\<close>

definition unopfun :: "unary_op \<Rightarrow> expr \<Rightarrow> expr" where "unopfun type a = EUnary type a"
definition binopfun :: "binary_op \<Rightarrow> expr \<Rightarrow> expr \<Rightarrow> expr" where "binopfun type a b = EBinary type a b"

definition e_exp :: "expr \<Rightarrow> expr" where "e_exp a = unopfun OpExp a"
definition e_sin :: "expr \<Rightarrow> expr" where "e_sin a = unopfun OpSin a"

text \<open>The source instantiates \<open>cos\<close> with the class \<open>Sin\<close>.\<close>

definition e_cos :: "expr \<Rightarrow> expr" where "e_cos a = unopfun OpSin a"

definition e_sqrt :: "expr \<Rightarrow> expr" where "e_sqrt a = unopfun OpSqrt a"
definition e_square :: "expr \<Rightarrow> expr" where "e_square a = unopfun OpSquare a"
definition e_log10 :: "expr \<Rightarrow> expr" where "e_log10 a = unopfun OpLog10 a"
definition e_ln :: "expr \<Rightarrow> expr" where "e_ln a = unopfun OpLn a"
definition e_round :: "expr \<Rightarrow> expr" where "e_round a = unopfun OpRound a"
definition e_floor :: "expr \<Rightarrow> expr" where "e_floor a = unopfun OpFloor a"
definition e_ceil :: "expr \<Rightarrow> expr" where "e_ceil a = unopfun OpCeil a"
definition e_abs :: "expr \<Rightarrow> expr" where "e_abs a = unopfun OpAbs a"
definition e_sign :: "expr \<Rightarrow> expr" where "e_sign a = unopfun OpSign a"
definition e_max :: "expr \<Rightarrow> expr \<Rightarrow> expr" where "e_max a b = binopfun OpMax a b"
definition e_min :: "expr \<Rightarrow> expr \<Rightarrow> expr" where "e_min a b = binopfun OpMin a b"
definition e_pow :: "expr \<Rightarrow> expr \<Rightarrow> expr" where "e_pow a b = binopfun OpPow a b"
definition e_plus :: "expr \<Rightarrow> expr \<Rightarrow> expr" where "e_plus a b = EBinary OpSum a b"

definition e_minus :: "expr \<Rightarrow> expr \<Rightarrow> expr" where
  "e_minus a b = EBinary OpSum a (EUnary OpNegate b)"

definition e_times :: "expr \<Rightarrow> expr \<Rightarrow> expr" where "e_times a b = EBinary OpProd a b"

definition e_divide :: "expr \<Rightarrow> expr \<Rightarrow> expr" where
  "e_divide a b = EBinary OpProd a (EUnary OpMultInv b)"

lemmas expr_defs = e_exp_def e_sin_def e_cos_def e_sqrt_def e_square_def e_log10_def e_ln_def
  e_round_def e_floor_def e_ceil_def e_abs_def e_sign_def e_max_def e_min_def e_pow_def e_plus_def
  e_minus_def e_times_def e_divide_def named_def unopfun_def binopfun_def

section \<open>Meaning of an expression\<close>

text \<open>
  The value an expression has in C++ notation: variables looked up, a reference \<open>r\<close> standing
  for the value \<open>rho r\<close>, operations applied. A polynomial has the value of its function.
\<close>

fun expr_value :: "platform \<Rightarrow> (string \<Rightarrow> double result) \<Rightarrow> value_map \<Rightarrow> expr \<Rightarrow> double result" where
  "expr_value M rho env (ERef r) = rho r"
| "expr_value M rho env (EVar v) = lookup_or (Unknown_Variable v) env v"
| "expr_value M rho env (EName n e) = expr_value M rho env e"
| "expr_value M rho env (EReal x) = Inr x"
| "expr_value M rho env (EPoly m) =
     rbind (build_polynomial M m) (\<lambda>p. eval_polynomial M (- 1) p env)"
| "expr_value M rho env (EUnary op a) = rbind (expr_value M rho env a) (\<lambda>x. Inr (unary_value M op x))"
| "expr_value M rho env (EBinary op a b) =
     rbind (expr_value M rho env a) (\<lambda>x. rbind (expr_value M rho env b) (\<lambda>y. Inr (binary_value M op x y)))"

fun poly_free :: "expr \<Rightarrow> bool" where
  "poly_free (EPoly m) = False"
| "poly_free (EName n e) = poly_free e"
| "poly_free (EUnary op a) = poly_free a"
| "poly_free (EBinary op a b) = (poly_free a \<and> poly_free b)"
| "poly_free e = True"

fun closed_expr :: "expr \<Rightarrow> bool" where
  "closed_expr (ERef r) = False"
| "closed_expr (EPoly m) = False"
| "closed_expr (EName n e) = closed_expr e"
| "closed_expr (EUnary op a) = closed_expr a"
| "closed_expr (EBinary op a b) = (closed_expr a \<and> closed_expr b)"
| "closed_expr e = True"

fun expr_size :: "expr \<Rightarrow> nat" where
  "expr_size (EName n e) = expr_size e"
| "expr_size (EUnary op a) = Suc (expr_size a)"
| "expr_size (EBinary op a b) = Suc (expr_size a + expr_size b)"
| "expr_size e = 1"

lemma build_closed:
  "closed_expr e \<Longrightarrow> \<exists>x. build_expr M chk nm e = Inr x \<and> ref_free_real x \<and> calls_real x = expr_size e
     \<and> (\<forall>env. den_real M env x = expr_value M rho env e)"
proof (induction e arbitrary: nm)
  case (EUnary op a)
  then obtain x where "build_expr M chk None a = Inr x" "ref_free_real x" "calls_real x = expr_size a"
      "\<forall>env. den_real M env x = expr_value M rho env a"
    by fastforce
  then show ?case by simp
next
  case (EBinary op a b)
  then obtain x where x: "build_expr M chk None a = Inr x" "ref_free_real x" "calls_real x = expr_size a"
      "\<forall>env. den_real M env x = expr_value M rho env a"
    by fastforce
  from EBinary obtain y where "build_expr M chk None b = Inr y" "ref_free_real y" "calls_real y = expr_size b"
      "\<forall>env. den_real M env y = expr_value M rho env b"
    by fastforce
  with x show ?case by simp
qed auto

text \<open>An expression written with the templates of \<open>cv\<close>, without references and polynomials and with at most \<open>MAX_NESTING_DEPTH\<close> operations, is built into a message that \<open>evaluate\<close> gives exactly the value of the expression: building and interpreting are inverse to each other up to the meaning.\<close>

theorem built_expression_value:
  assumes "closed_expr e" and "expr_size e \<le> min n 10000" and "adv_valid s"
  shows "\<exists>x t. build_real_expr M chk e = Inr x \<and>
    evaluate M n x env s = Some (expr_value M rho env e, t) \<and> real_refs t = real_refs s \<and> set_refs t = set_refs s"
proof -
  obtain x where x: "build_expr M chk None e = Inr x" "ref_free_real x" "calls_real x = expr_size e"
      "den_real M env x = expr_value M rho env e"
    using build_closed [OF assms(1), of M chk None rho] by blast
  obtain d where "evaluate M n x env s = Some (den_real M env x, s\<lparr>bound_vars := env, nesting_depth := d\<rparr>)"
    using evaluate_denotes_lemma [of s x n M env] assms(2,3) x(2,3) by auto
  then show ?thesis using x(1,4) by (simp add: build_real_expr_def)
qed

theorem built_expression_value_witness:
  "\<exists>x t. build_real_expr exact True (e_divide (e_minus (EVar ''P'') (EReal (Fin 1))) (EReal (Fin 2))) = Inr x \<and>
    evaluate exact 10 x [''P'' \<mapsto> Fin 8] (new_advfunc\<lparr>adv_valid := True\<rparr>) = Some (Inr (Fin (7/2)), t)"
  using built_expression_value [of "e_divide (e_minus (EVar ''P'') (EReal (Fin 1))) (EReal (Fin 2))" 10
      "new_advfunc\<lparr>adv_valid := True\<rparr>" exact True "[''P'' \<mapsto> Fin 8]" "\<lambda>_. Inr Nan"]
  by (auto simp: expr_defs lookup_or_def dadd_def dmul_def ddiv_def)

text \<open>The function \<open>cos\<close> of the templates builds a sine: its message evaluates to \<open>sin\<close> of the argument's value, whatever the maths library.\<close>

theorem cos_builds_sin:
  "\<exists>x t. build_real_expr M chk (e_cos (EReal a)) = Inr x \<and>
    evaluate M (Suc (Suc n)) x env (new_advfunc\<lparr>adv_valid := True\<rparr>) = Some (Inr (m_sin M a), t)"
  by (simp add: build_real_expr_def e_cos_def unopfun_def evaluate_def start_call_run run_simps eval_unary_def new_advfunc_def)

end
