(* ===== verification/Adv_Deriv.thy ===== *)
theory Adv_Deriv imports Expr_Build begin

text \<open>
  Partial derivatives of real expressions: the overloads of \<open>evalPartialDerivative\<close>
  (\<open>adv-interpreter-eval.cpp\<close>), their denotation and the refinement between the two.
  As for evaluation, each overload takes the recursive calls as arguments: \<open>ev\<close> for
  \<open>eval\<close>, \<open>mem\<close> for \<open>membership\<close> and \<open>dv\<close> for \<open>evalPartialDerivative\<close> itself.
\<close>

section \<open>One definition per overload\<close>

text \<open>The factor in front of the derivative of the argument.\<close>

fun outer_slope :: "platform \<Rightarrow> unary_op \<Rightarrow> double \<Rightarrow> double" where
  "outer_slope M OpExp x = m_exp M x"
| "outer_slope M OpSin x = m_cos M x"
| "outer_slope M OpCos x = dneg (m_sin M x)"
| "outer_slope M OpTan x = (let c = m_cos M x in ddiv M (Fin 1) (dmul M c c))"
| "outer_slope M OpSqrt x = ddiv M (Fin 1) (dmul M (Fin 2) (dsqrt M x))"
| "outer_slope M OpLog10 x = ddiv M (rnd M (log 10 (exp 1))) x"
| "outer_slope M OpLn x = ddiv M (Fin 1) x"
| "outer_slope M OpMultInv x = ddiv M (Fin (- 1)) (dmul M x x)"
| "outer_slope M OpAbs x = of_i (sgn_int x)"
| "outer_slope M _ x = Fin 1"

definition deriv_unary :: "platform \<Rightarrow> (real_expr \<Rightarrow> double interp) \<Rightarrow> (real_expr \<Rightarrow> double interp) \<Rightarrow>
    unary_op \<Rightarrow> real_expr \<Rightarrow> double interp" where
  "deriv_unary M ev dv op arg = (case op of
     OpNegate \<Rightarrow> bnd (dv arg) (\<lambda>d. ret (dneg d))
   | OpSquare \<Rightarrow> bnd (dv arg) (\<lambda>d. ret (dmul M (Fin 2) d))
   | OpRound \<Rightarrow> dv arg
   | OpFloor \<Rightarrow> dv arg
   | OpCeil \<Rightarrow> dv arg
   | OpSign \<Rightarrow> ret (Fin 0)
   | _ \<Rightarrow> bnd (ev arg) (\<lambda>x. bnd (dv arg) (\<lambda>d. ret (dmul M (outer_slope M op x) d))))"

definition deriv_binary :: "platform \<Rightarrow> (real_expr \<Rightarrow> double interp) \<Rightarrow> (real_expr \<Rightarrow> double interp) \<Rightarrow>
    binary_op \<Rightarrow> real_expr \<Rightarrow> real_expr \<Rightarrow> double interp" where
  "deriv_binary M ev dv op arg1 arg2 = (case op of
     OpSum \<Rightarrow> bnd (dv arg1) (\<lambda>d. bnd (dv arg2) (\<lambda>e. ret (dadd M d e)))
   | OpProd \<Rightarrow> bnd (ev arg1) (\<lambda>x. bnd (dv arg2) (\<lambda>e. bnd (ev arg2) (\<lambda>y. bnd (dv arg1) (\<lambda>d.
       ret (dadd M (dmul M x e) (dmul M y d))))))
   | OpLessEqThan \<Rightarrow> ret (Fin 0)
   | OpGreaterThan \<Rightarrow> ret (Fin 0)
   | OpMin \<Rightarrow> bnd (ev arg1) (\<lambda>x. bnd (ev arg2) (\<lambda>y. if dle x y then dv arg1 else dv arg2))
   | OpMax \<Rightarrow> bnd (ev arg1) (\<lambda>x. bnd (ev arg2) (\<lambda>y. if dlt y x then dv arg1 else dv arg2))
   | OpPow \<Rightarrow> bnd (ev arg1) (\<lambda>base. bnd (ev arg2) (\<lambda>expon. bnd (dv arg1) (\<lambda>d. bnd (dv arg2) (\<lambda>e.
       ret (dmul M (m_pow M base (dsub M expon (Fin 1)))
         (dadd M (dmul M expon d) (dmul M (dmul M base (m_log M base)) e))))))))"

text \<open>The inner loop of the product rule: every value but the \<open>i\<close>-th.\<close>

fun mult_others :: "platform \<Rightarrow> nat \<Rightarrow> nat \<Rightarrow> double list \<Rightarrow> double \<Rightarrow> double" where
  "mult_others M i j [] mult = mult"
| "mult_others M i j (x # xs) mult =
     mult_others M i (Suc j) xs (if j \<noteq> i then dmul M mult x else mult)"

definition deriv_list :: "platform \<Rightarrow> (real_expr \<Rightarrow> double interp) \<Rightarrow> (real_expr \<Rightarrow> double interp) \<Rightarrow>
    list_op \<Rightarrow> real_expr list \<Rightarrow> double interp" where
  "deriv_list M ev dv op args = (case op of
     ListSum \<Rightarrow> foldC (\<lambda>arg acc. bnd (dv arg) (\<lambda>d. ret (dadd M acc d))) args (Fin 0)
   | ListProd \<Rightarrow> bnd (eval_to_vector ev args) (\<lambda>evaluations.
       foldC (\<lambda>(i, arg) acc. bnd (dv arg) (\<lambda>d. ret (dadd M acc (mult_others M i 0 evaluations d))))
         (enumerate 0 args) (Fin 0)))"

definition deriv_case :: "(set_expr \<Rightarrow> double list \<Rightarrow> bool interp) \<Rightarrow> (real_expr \<Rightarrow> double interp) \<Rightarrow>
    string list \<Rightarrow> (set_expr \<times> real_expr) list \<Rightarrow> double interp" where
  "deriv_case mem dv vars cs = bnd (mapC case_var vars) (\<lambda>pt. select_case mem dv pt cs)"

definition deriv_poly :: "platform \<Rightarrow> string \<Rightarrow> polynomial \<Rightarrow> double interp" where
  "deriv_poly M v p = (case index_of v (poly_variables p) of
     Some i \<Rightarrow> eval_poly M (int i) p | None \<Rightarrow> ret (Fin 0))"

definition deriv_ref :: "(real_expr \<Rightarrow> double interp) \<Rightarrow> string \<Rightarrow> double interp" where
  "deriv_ref dv r = bnd get_st (\<lambda>s. case real_refs s r of
     Some e \<Rightarrow> dv e | None \<Rightarrow> raise (Unknown_Reference r))"

definition deriv_var :: "string \<Rightarrow> string \<Rightarrow> double interp" where
  "deriv_var v var = bnd get_st (\<lambda>s. case bound_vars s var of
     Some x \<Rightarrow> ret (if var = v then Fin 1 else Fin 0) | None \<Rightarrow> raise (Unknown_Variable var))"

fun deriv_body :: "platform \<Rightarrow> (real_expr \<Rightarrow> double interp) \<Rightarrow> (set_expr \<Rightarrow> double list \<Rightarrow> bool interp) \<Rightarrow>
    (real_expr \<Rightarrow> double interp) \<Rightarrow> string \<Rightarrow> real_body \<Rightarrow> double interp" where
  "deriv_body M ev mem dv v (Real x) = ret (Fin 0)"
| "deriv_body M ev mem dv v (UnaryOperation op a) = deriv_unary M ev dv op a"
| "deriv_body M ev mem dv v (BinaryOperation op a b) = deriv_binary M ev dv op a b"
| "deriv_body M ev mem dv v (ListOperation op es) = deriv_list M ev dv op es"
| "deriv_body M ev mem dv v (CaseDistinction vs cs) = deriv_case mem dv vs cs"
| "deriv_body M ev mem dv v (Polynomial p) = deriv_poly M v p"
| "deriv_body M ev mem dv v (Reference r) = deriv_ref dv r"
| "deriv_body M ev mem dv v (Variable var) = deriv_var v var"

fun deriv :: "platform \<Rightarrow> nat \<Rightarrow> string \<Rightarrow> real_expr \<Rightarrow> double interp" where
  "deriv M 0 v e = (\<lambda>s. None)"
| "deriv M (Suc n) v e =
     bnd enter_real (\<lambda>_. deriv_body M (eval M n) (membership M n) (deriv M n v) v (re_body e))"

definition eval_partial_derivative :: "platform \<Rightarrow> nat \<Rightarrow> real_expr \<Rightarrow> string \<Rightarrow> value_map \<Rightarrow> double interp" where
  "eval_partial_derivative M n e v env = bnd (start_call env) (\<lambda>_. deriv M n v e)"

section \<open>The denotation of a derivative\<close>

text \<open>For expressions without references and case distinctions.\<close>

function den_deriv :: "platform \<Rightarrow> value_map \<Rightarrow> string \<Rightarrow> real_expr \<Rightarrow> double result"
  and den_deriv_body :: "platform \<Rightarrow> value_map \<Rightarrow> string \<Rightarrow> real_body \<Rightarrow> double result" where
  "den_deriv M env v (RealExpr nm b) = den_deriv_body M env v b"
| "den_deriv_body M env v (Real x) = Inr (Fin 0)"
| "den_deriv_body M env v (UnaryOperation op a) = (case op of
     OpNegate \<Rightarrow> rbind (den_deriv M env v a) (\<lambda>d. Inr (dneg d))
   | OpSquare \<Rightarrow> rbind (den_deriv M env v a) (\<lambda>d. Inr (dmul M (Fin 2) d))
   | OpRound \<Rightarrow> den_deriv M env v a
   | OpFloor \<Rightarrow> den_deriv M env v a
   | OpCeil \<Rightarrow> den_deriv M env v a
   | OpSign \<Rightarrow> Inr (Fin 0)
   | _ \<Rightarrow> rbind (den_real M env a) (\<lambda>x. rbind (den_deriv M env v a) (\<lambda>d. Inr (dmul M (outer_slope M op x) d))))"
| "den_deriv_body M env v (BinaryOperation op a b) = (case op of
     OpSum \<Rightarrow> rbind (den_deriv M env v a) (\<lambda>d. rbind (den_deriv M env v b) (\<lambda>e. Inr (dadd M d e)))
   | OpProd \<Rightarrow> rbind (den_real M env a) (\<lambda>x. rbind (den_deriv M env v b) (\<lambda>e.
       rbind (den_real M env b) (\<lambda>y. rbind (den_deriv M env v a) (\<lambda>d.
       Inr (dadd M (dmul M x e) (dmul M y d))))))
   | OpLessEqThan \<Rightarrow> Inr (Fin 0)
   | OpGreaterThan \<Rightarrow> Inr (Fin 0)
   | OpMin \<Rightarrow> rbind (den_real M env a) (\<lambda>x. rbind (den_real M env b) (\<lambda>y.
       if dle x y then den_deriv M env v a else den_deriv M env v b))
   | OpMax \<Rightarrow> rbind (den_real M env a) (\<lambda>x. rbind (den_real M env b) (\<lambda>y.
       if dlt y x then den_deriv M env v a else den_deriv M env v b))
   | OpPow \<Rightarrow> rbind (den_real M env a) (\<lambda>base. rbind (den_real M env b) (\<lambda>expon.
       rbind (den_deriv M env v a) (\<lambda>d. rbind (den_deriv M env v b) (\<lambda>e.
       Inr (dmul M (m_pow M base (dsub M expon (Fin 1)))
         (dadd M (dmul M expon d) (dmul M (dmul M base (m_log M base)) e))))))))"
| "den_deriv_body M env v (ListOperation op es) = (case op of
     ListSum \<Rightarrow> rfold (\<lambda>a acc. rbind (den_deriv M env v a) (\<lambda>d. Inr (dadd M acc d))) es (Fin 0)
   | ListProd \<Rightarrow> rbind (rmap (den_real M env) es) (\<lambda>xs. rbind (rmap (den_deriv M env v) es) (\<lambda>ds.
       Inr (fold (\<lambda>(i, d) acc. dadd M acc (mult_others M i 0 xs d)) (enumerate 0 ds) (Fin 0)))))"
| "den_deriv_body M env v (CaseDistinction vs cs) = Inl Evaluation_Error"
| "den_deriv_body M env v (Polynomial p) = (case index_of v (poly_variables p) of
     Some i \<Rightarrow> eval_polynomial M (int i) p env | None \<Rightarrow> Inr (Fin 0))"
| "den_deriv_body M env v (Reference r) = Inl (Unknown_Reference r)"
| "den_deriv_body M env v (Variable x) =
     rbind (lookup_or (Unknown_Variable x) env x) (\<lambda>_. Inr (if x = v then Fin 1 else Fin 0))"
  by pat_completeness auto
termination by lexicographic_order

text \<open>A bound on the calls of \<open>eval\<close> and \<open>evalPartialDerivative\<close> together.\<close>

fun dcalls :: "real_expr \<Rightarrow> nat" where
  "dcalls (RealExpr nm b) = Suc (case b of
      UnaryOperation op a \<Rightarrow> calls_real a + dcalls a
    | BinaryOperation op a c \<Rightarrow> calls_real a + (calls_real c + (dcalls a + dcalls c))
    | ListOperation op es \<Rightarrow> sum_list (map calls_real es) + sum_list (map dcalls es)
    | _ \<Rightarrow> 0)"

section \<open>Refinement\<close>

lemma refines_if:
  "(b \<Longrightarrow> refines env k c r) \<Longrightarrow> (\<not> b \<Longrightarrow> refines env l d q) \<Longrightarrow>
    refines env (k + l) (if b then c else d) (if b then r else q)"
  by (auto intro: refines_weaken [OF _ le_add1] refines_weaken [OF _ le_add2])

lemma refines_fold_products:
  assumes "\<And>a. a \<in> set es \<Longrightarrow> refines env (k a) (dv a) (dd a)"
  shows "refines env (sum_list (map k es))
    (foldC (\<lambda>(i, arg) acc. bnd (dv arg) (\<lambda>d. ret (f i acc d))) (enumerate n es) acc)
    (rbind (rmap dd es) (\<lambda>ds. Inr (fold (\<lambda>(i, d) acc. f i acc d) (enumerate n ds) acc)))"
  using assms
proof (induction es arbitrary: n acc)
  case (Cons a es)
  have "refines env (k a + sum_list (map k es))
      (bnd (dv a) (\<lambda>d. foldC (\<lambda>(i, arg) acc. bnd (dv arg) (\<lambda>d. ret (f i acc d))) (enumerate (Suc n) es) (f n acc d)))
      (rbind (dd a) (\<lambda>d. rbind (rmap dd es) (\<lambda>ds.
         Inr (fold (\<lambda>(i, d) acc. f i acc d) (enumerate (Suc n) ds) (f n acc d)))))"
    using Cons by (intro refines_bnd) auto
  then show ?case by (simp add: rbind_assoc bnd_assoc bnd_ret_left)
qed (simp add: refines_ret)

lemma refines_deriv_var:
  "refines env 0 (deriv_var v x) (rbind (lookup_or (Unknown_Variable x) env x) (\<lambda>_. Inr (if x = v then Fin 1 else Fin 0)))"
  by (auto simp: refines_state_def run_simps lookup_or_def deriv_var_def split: option.splits
      intro!: exI [of _ "nesting_depth _"])

definition derives_upto :: "platform \<Rightarrow> value_map \<Rightarrow> string \<Rightarrow> nat \<Rightarrow> (real_expr \<Rightarrow> double interp) \<Rightarrow> bool" where
  "derives_upto M env v n dv \<longleftrightarrow> (\<forall>e. dcalls e \<le> n \<longrightarrow> ref_free_real e \<longrightarrow> case_free e \<longrightarrow>
     refines env (dcalls e) (dv e) (den_deriv M env v e))"

lemma derives_uptoD:
  "derives_upto M env v n dv \<Longrightarrow> dcalls e \<le> n \<Longrightarrow> ref_free_real e \<Longrightarrow> case_free e \<Longrightarrow>
    refines env (dcalls e) (dv e) (den_deriv M env v e)"
  by (simp add: derives_upto_def)

lemma deriv_unary_refines:
  assumes "implements_upto M env n ev mem" "derives_upto M env v n dv"
    and "calls_real a + dcalls a \<le> n" "ref_free_real a" "case_free a"
  shows "refines env (calls_real a + dcalls a) (deriv_unary M ev dv op a) (den_deriv_body M env v (UnaryOperation op a))"
proof -
  have a: "refines env (calls_real a) (ev a) (den_real M env a)"
    and d: "refines env (dcalls a) (dv a) (den_deriv M env v a)"
    using assms by (auto intro: implements_real derives_uptoD)
  have "refines env (calls_real a + dcalls a) (bnd (ev a) (\<lambda>x. bnd (dv a) (\<lambda>d. ret (f x d))))
      (rbind (den_real M env a) (\<lambda>x. rbind (den_deriv M env v a) (\<lambda>d. Inr (f x d))))" for f
    by (rule refines_bnd [OF a refines_bnd_same [OF d refines_ret]])
  moreover have "refines env (calls_real a + dcalls a) (bnd (dv a) (\<lambda>d. ret (g d)))
      (rbind (den_deriv M env v a) (\<lambda>d. Inr (g d)))" for g
    by (rule refines_weaken [OF refines_bnd_same [OF d refines_ret]]) simp
  moreover have "refines env (calls_real a + dcalls a) (dv a) (den_deriv M env v a)"
    by (rule refines_weaken [OF d]) simp
  ultimately show ?thesis by (cases op) (simp_all add: deriv_unary_def refines_ret)
qed

lemma deriv_binary_refines:
  assumes "implements_upto M env n ev mem" "derives_upto M env v n dv"
    and "calls_real a + (calls_real b + (dcalls a + dcalls b)) \<le> n"
    and "ref_free_real a" "case_free a" "ref_free_real b" "case_free b"
  shows "refines env (calls_real a + (calls_real b + (dcalls a + dcalls b)))
    (deriv_binary M ev dv op a b) (den_deriv_body M env v (BinaryOperation op a b))"
proof -
  have a: "refines env (calls_real a) (ev a) (den_real M env a)"
    and b: "refines env (calls_real b) (ev b) (den_real M env b)"
    and d: "refines env (dcalls a) (dv a) (den_deriv M env v a)"
    and e: "refines env (dcalls b) (dv b) (den_deriv M env v b)"
    using assms by (auto intro: implements_real derives_uptoD)
  have sum: "refines env (dcalls a + dcalls b) (bnd (dv a) (\<lambda>d. bnd (dv b) (\<lambda>e. ret (f d e))))
      (rbind (den_deriv M env v a) (\<lambda>d. rbind (den_deriv M env v b) (\<lambda>e. Inr (f d e))))" for f
    by (rule refines_bnd [OF d refines_bnd_same [OF e refines_ret]])
  have sum': "refines env (calls_real a + (calls_real b + (dcalls a + dcalls b)))
      (bnd (dv a) (\<lambda>d. bnd (dv b) (\<lambda>e. ret (f d e))))
      (rbind (den_deriv M env v a) (\<lambda>d. rbind (den_deriv M env v b) (\<lambda>e. Inr (f d e))))" for f
    by (rule refines_weaken [OF sum]) simp
  have pow: "refines env (calls_real a + (calls_real b + (dcalls a + dcalls b)))
      (bnd (ev a) (\<lambda>x. bnd (ev b) (\<lambda>y. bnd (dv a) (\<lambda>d. bnd (dv b) (\<lambda>e. ret (f x y d e))))))
      (rbind (den_real M env a) (\<lambda>x. rbind (den_real M env b) (\<lambda>y.
        rbind (den_deriv M env v a) (\<lambda>d. rbind (den_deriv M env v b) (\<lambda>e. Inr (f x y d e))))))" for f
    by (rule refines_bnd [OF a refines_bnd [OF b sum]])
  have prod: "refines env (calls_real a + (dcalls b + (calls_real b + dcalls a)))
      (bnd (ev a) (\<lambda>x. bnd (dv b) (\<lambda>e. bnd (ev b) (\<lambda>y. bnd (dv a) (\<lambda>d. ret (f x y d e))))))
      (rbind (den_real M env a) (\<lambda>x. rbind (den_deriv M env v b) (\<lambda>e.
        rbind (den_real M env b) (\<lambda>y. rbind (den_deriv M env v a) (\<lambda>d. Inr (f x y d e))))))" for f
    by (rule refines_bnd [OF a refines_bnd [OF e refines_bnd [OF b refines_bnd_same [OF d refines_ret]]]])
  have pick: "refines env (calls_real a + (calls_real b + (dcalls a + dcalls b)))
      (bnd (ev a) (\<lambda>x. bnd (ev b) (\<lambda>y. if P x y then dv a else dv b)))
      (rbind (den_real M env a) (\<lambda>x. rbind (den_real M env b) (\<lambda>y.
        if P x y then den_deriv M env v a else den_deriv M env v b)))" for P
    by (rule refines_bnd [OF a refines_bnd [OF b refines_if [OF d e]]])
  show ?thesis
    using sum' pow prod pick
    by (cases op) (simp_all add: deriv_binary_def refines_ret ac_simps)
qed

lemma deriv_list_refines:
  assumes "implements_upto M env n ev mem" "derives_upto M env v n dv"
    and "sum_list (map calls_real es) + sum_list (map dcalls es) \<le> n"
    and "\<forall>e \<in> set es. ref_free_real e \<and> case_free e"
  shows "refines env (sum_list (map calls_real es) + sum_list (map dcalls es))
    (deriv_list M ev dv op es) (den_deriv_body M env v (ListOperation op es))"
proof -
  have d: "refines env (dcalls a) (dv a) (den_deriv M env v a)" if "a \<in> set es" for a
    using assms that le_sum_map [OF that, of dcalls] by (intro derives_uptoD [OF assms(2)]) auto
  have "refines env (sum_list (map dcalls es)) (foldC (\<lambda>arg acc. bnd (dv arg) (\<lambda>d. ret (dadd M acc d))) es (Fin 0))
      (rfold (\<lambda>a acc. rbind (den_deriv M env v a) (\<lambda>d. Inr (dadd M acc d))) es (Fin 0))"
    by (intro refines_foldC refines_bnd_same [OF d refines_ret])
  then have sum: "refines env (sum_list (map calls_real es) + sum_list (map dcalls es))
      (foldC (\<lambda>arg acc. bnd (dv arg) (\<lambda>d. ret (dadd M acc d))) es (Fin 0))
      (rfold (\<lambda>a acc. rbind (den_deriv M env v a) (\<lambda>d. Inr (dadd M acc d))) es (Fin 0))"
    by (rule refines_weaken) simp
  have "refines env (sum_list (map calls_real es)) (eval_to_vector ev es) (rmap (den_real M env) es)"
    using assms by (intro refines_vector) auto
  from refines_bnd [OF this refines_fold_products [OF d]] sum show ?thesis
    by (cases op) (simp_all add: deriv_list_def)
qed

lemma deriv_refines: "derives_upto M env v n (deriv M n v)"
proof (induction n)
  case 0
  have "dcalls e = Suc (dcalls e - 1)" for e by (cases e) simp
  then show ?case unfolding derives_upto_def by (metis Suc_neq_Zero le_zero_eq)
next
  case (Suc n)
  have "refines env (dcalls e) (deriv M (Suc n) v e) (den_deriv M env v e)"
    if le: "dcalls e \<le> Suc n" and rf: "ref_free_real e" and cf: "case_free e" for e
  proof -
    obtain nm b where e: "e = RealExpr nm b" by (cases e)
    have "refines env (dcalls e - 1) (deriv_body M (eval M n) (membership M n) (deriv M n v) v b) (den_deriv_body M env v b)"
    proof (cases b)
      case (UnaryOperation op a)
      then show ?thesis
        using deriv_unary_refines [OF interpreter_implements Suc.IH, of a op] le rf cf e
        by (simp del: den_deriv_body.simps)
    next
      case (BinaryOperation op a c)
      then show ?thesis
        using deriv_binary_refines [OF interpreter_implements Suc.IH, of a c op] le rf cf e
        by (simp del: den_deriv_body.simps)
    next
      case (ListOperation op es)
      then show ?thesis
        using deriv_list_refines [OF interpreter_implements Suc.IH, of es op] le rf cf e
        by (simp del: den_deriv_body.simps)
    next
      case (Polynomial p)
      then show ?thesis by (auto simp: e deriv_poly_def refines_ret refines_eval_poly split: option.splits)
    qed (use e rf cf in \<open>simp_all add: refines_ret refines_deriv_var\<close>)
    with e le show ?thesis using refines_enter_real [of env "dcalls e - 1"] by simp
  qed
  then show ?case by (simp add: derives_upto_def)
qed

lemma eval_partial_derivative_lemma:
  assumes "adv_valid s" and "ref_free_real e" and "case_free e" and "dcalls e \<le> min n 10000"
  shows "\<exists>d. eval_partial_derivative M n e v env s =
    Some (den_deriv M env v e, s\<lparr>bound_vars := env, nesting_depth := d\<rparr>)"
proof -
  have "refines env (dcalls e) (deriv M n v e) (den_deriv M env v e)"
    by (rule derives_uptoD [OF deriv_refines]) (use assms in auto)
  from refines_run [OF this] show ?thesis using assms(1,4)
    by (fastforce simp: eval_partial_derivative_def run_simps start_call_run)
qed

end
