(* ===== verification/Adv_Deriv_Props.thy ===== *)
theory Adv_Deriv_Props imports Adv_Deriv begin

text \<open>
  Correctness of \<open>evalPartialDerivative\<close> in exact arithmetic: on the expressions and at the
  points where every operation inside is differentiable, the value returned is the partial
  derivative. The operation \<open>square\<close> is excluded, its derivative is wrong in the source.
\<close>

section \<open>Real semantics\<close>

fun real_unary :: "unary_op \<Rightarrow> real \<Rightarrow> real" where
  "real_unary OpNegate y = - y"
| "real_unary OpExp y = exp y"
| "real_unary OpSin y = sin y"
| "real_unary OpCos y = cos y"
| "real_unary OpTan y = tan y"
| "real_unary OpSquare y = y * y"
| "real_unary OpSqrt y = sqrt y"
| "real_unary OpLog10 y = log 10 y"
| "real_unary OpLn y = ln y"
| "real_unary OpMultInv y = 1 / y"
| "real_unary OpAbs y = \<bar>y\<bar>"
| "real_unary OpRound y = of_int (round_away y)"
| "real_unary OpFloor y = of_int \<lfloor>y\<rfloor>"
| "real_unary OpCeil y = of_int \<lceil>y\<rceil>"
| "real_unary OpSign y = sgn y"

fun real_binary :: "binary_op \<Rightarrow> real \<Rightarrow> real \<Rightarrow> real" where
  "real_binary OpSum x y = x + y"
| "real_binary OpProd x y = x * y"
| "real_binary OpMin x y = min x y"
| "real_binary OpMax x y = max x y"
| "real_binary OpPow x y = x powr y"
| "real_binary OpLessEqThan x y = (if x \<le> y then 1 else 0)"
| "real_binary OpGreaterThan x y = (if x > y then 1 else 0)"

text \<open>The arguments at which an operation is differentiable and its derivative implemented.\<close>

fun unary_ok :: "unary_op \<Rightarrow> real \<Rightarrow> bool" where
  "unary_ok OpTan y = (cos y \<noteq> 0)"
| "unary_ok OpSqrt y = (0 < y)"
| "unary_ok OpLog10 y = (0 < y)"
| "unary_ok OpLn y = (0 < y)"
| "unary_ok OpMultInv y = (y \<noteq> 0)"
| "unary_ok OpAbs y = (y \<noteq> 0)"
| "unary_ok OpSquare y = False"
| "unary_ok OpRound y = False"
| "unary_ok OpFloor y = False"
| "unary_ok OpCeil y = False"
| "unary_ok OpSign y = False"
| "unary_ok _ y = True"

fun binary_ok :: "binary_op \<Rightarrow> real \<Rightarrow> real \<Rightarrow> bool" where
  "binary_ok OpSum x y = True"
| "binary_ok OpProd x y = True"
| "binary_ok OpPow x y = (0 < x)"
| "binary_ok _ x y = (x \<noteq> y)"

fun rval :: "(string \<Rightarrow> real) \<Rightarrow> real_expr \<Rightarrow> real" where
  "rval x (RealExpr nm b) = (case b of
      Real c \<Rightarrow> val c
    | Variable v \<Rightarrow> x v
    | UnaryOperation op a \<Rightarrow> real_unary op (rval x a)
    | BinaryOperation op a c \<Rightarrow> real_binary op (rval x a) (rval x c)
    | ListOperation op es \<Rightarrow> (case op of ListSum \<Rightarrow> sum_list (map (rval x) es) | ListProd \<Rightarrow> prod_list (map (rval x) es))
    | _ \<Rightarrow> 0)"

fun smooth :: "string list \<Rightarrow> (string \<Rightarrow> real) \<Rightarrow> real_expr \<Rightarrow> bool" where
  "smooth vs x (RealExpr nm b) = (case b of
      Real c \<Rightarrow> is_finite c
    | Variable v \<Rightarrow> v \<in> set vs
    | UnaryOperation op a \<Rightarrow> smooth vs x a \<and> unary_ok op (rval x a)
    | BinaryOperation op a c \<Rightarrow> smooth vs x a \<and> smooth vs x c \<and> binary_ok op (rval x a) (rval x c)
    | ListOperation op es \<Rightarrow> (\<forall>e \<in> set es. smooth vs x e)
    | _ \<Rightarrow> False)"

definition env_of :: "string list \<Rightarrow> (string \<Rightarrow> real) \<Rightarrow> value_map" where
  "env_of vs x = (\<lambda>v. if v \<in> set vs then Some (Fin (x v)) else None)"

lemma smooth_plain: "smooth vs x e \<Longrightarrow> ref_free_real e \<and> case_free e"
proof (induction vs x e rule: smooth.induct)
  case (1 vs x nm b)
  then show ?case by (cases b) auto
qed

section \<open>Values and slopes of one operation\<close>

fun real_slope :: "unary_op \<Rightarrow> real \<Rightarrow> real" where
  "real_slope OpExp y = exp y"
| "real_slope OpSin y = cos y"
| "real_slope OpCos y = - sin y"
| "real_slope OpTan y = 1 / (cos y * cos y)"
| "real_slope OpSqrt y = 1 / (2 * sqrt y)"
| "real_slope OpLog10 y = log 10 (exp 1) / y"
| "real_slope OpLn y = 1 / y"
| "real_slope OpMultInv y = - 1 / (y * y)"
| "real_slope OpAbs y = sgn y"
| "real_slope OpNegate y = - 1"
| "real_slope _ y = 0"

lemma has_val_lift: "has_val a y \<Longrightarrow> has_val (lift_fun Fin f a) (f y)"
  by (cases a) (auto simp: has_val_def)

lemma exact_functions:
  "m_exp exact = exp_gen Fin" "m_sin exact = lift_fun Fin sin" "m_cos exact = lift_fun Fin cos"
  "m_tan exact = lift_fun Fin tan" "m_log exact = log_gen Fin ln" "m_log10 exact = log_gen Fin (log 10)"
  by (simp_all add: exact_def std_platform_def base_platform_def Let_def)

lemma has_val_exp [val_intros]: "has_val a y \<Longrightarrow> has_val (m_exp exact a) (exp y)"
  by (cases a) (auto simp: has_val_def exact_functions)

lemma has_val_log: "has_val a y \<Longrightarrow> 0 < y \<Longrightarrow> has_val (log_gen Fin f a) (f y)"
  by (cases a) (auto simp: has_val_def)

lemma has_val_sqrt [val_intros]: "has_val a y \<Longrightarrow> 0 \<le> y \<Longrightarrow> has_val (dsqrt exact a) (sqrt y)"
  by (cases a) (auto simp: has_val_def)

lemma has_val_cases: "has_val a y \<longleftrightarrow> a = Fin y \<or> a = NZero \<and> y = 0"
  by (cases a) (auto simp: has_val_def)

lemma has_val_trig [val_intros]:
  assumes "has_val a y"
  shows "has_val (m_sin exact a) (sin y)" "has_val (m_cos exact a) (cos y)" "has_val (m_tan exact a) (tan y)"
  using has_val_lift [OF assms] by (simp_all add: exact_functions)

lemma has_val_logs [val_intros]:
  assumes "has_val a y" "0 < y"
  shows "has_val (m_log exact a) (ln y)" "has_val (m_log10 exact a) (log 10 y)"
  using has_val_log [OF assms] by (simp_all add: exact_functions)

lemma has_val_abs [val_intros]: "has_val a y \<Longrightarrow> has_val (dabs a) \<bar>y\<bar>"
  by (cases a) (auto simp: has_val_def)

lemma has_val_sgn [val_intros]: "has_val a y \<Longrightarrow> has_val (of_i (sgn_int a)) (sgn y)"
  by (auto simp: has_val_cases sgn_int_def dlt_def of_i_def sgn_if)

lemma pow_fin_powr:
  assumes "0 < x"
  shows "pow_fin Fin x y = Fin (x powr y)"
proof (cases "y = of_int \<lfloor>y\<rfloor>")
  case True
  then have "x powi \<lfloor>y\<rfloor> = x powr y" using powr_real_of_int' [of x "\<lfloor>y\<rfloor>"] assms by simp
  with True assms show ?thesis by (simp add: pow_fin_def)
qed (use assms in \<open>simp add: pow_fin_def\<close>)

lemma has_val_powr:
  assumes "has_val a x" "has_val b y" "0 < x"
  shows "has_val (m_pow exact a b) (x powr y)"
  using assms by (auto simp: has_val_cases exact_pow pow_fin_powr)

lemma unary_value_ok:
  assumes "has_val a y" "unary_ok op y"
  shows "has_val (unary_value exact op a) (real_unary op y)"
proof (cases op)
  case OpMultInv
  with assms show ?thesis by (simp add: has_val_div has_val_Fin)
qed (use assms in \<open>simp_all add: val_intros\<close>)

lemma binary_value_ok:
  assumes "has_val a x" "has_val b y" "binary_ok op x y"
  shows "has_val (binary_value exact op a b) (real_binary op x y)"
proof -
  have "dle a b \<longleftrightarrow> x \<le> y" "dlt b a \<longleftrightarrow> y < x" "dlt a b \<longleftrightarrow> x < y"
    using assms(1,2) by (auto simp: has_val_def dle_finite dlt_finite)
  with assms show ?thesis
    by (cases op) (auto simp: val_intros has_val_powr dmin_def dmax_def of_bool_d_def min_def max_def)
qed

lemma outer_slope_ok:
  assumes a: "has_val a y" and ok: "unary_ok op y" and op: "op \<noteq> OpNegate"
  shows "has_val (outer_slope exact op a) (real_slope op y)"
proof (cases op)
  case OpTan
  with ok have "cos y * cos y \<noteq> 0" by simp
  with OpTan show ?thesis using a by (simp add: Let_def has_val_div val_intros)
next
  case OpSqrt
  with ok have "2 * sqrt y \<noteq> 0" "0 \<le> y" by auto
  with OpSqrt show ?thesis
    using has_val_div [OF has_val_Fin [of 1] has_val_mul [OF has_val_Fin [of 2] has_val_sqrt [OF a]]] by simp
next
  case OpLog10
  then show ?thesis using ok has_val_div [OF has_val_Fin [of "log 10 (exp 1)"] a] by simp
next
  case OpLn
  then show ?thesis using a ok by (simp add: has_val_div val_intros)
next
  case OpMultInv
  with ok have "y * y \<noteq> 0" by simp
  with OpMultInv show ?thesis
    using has_val_div [OF has_val_Fin [of "- 1"] has_val_mul [OF a a]] by simp
qed (use a ok op in \<open>simp_all add: val_intros\<close>)

lemma DERIV_less_eventually:
  assumes "(f has_real_derivative d) (at t)" "(g has_real_derivative e) (at t)" "f t < (g t :: real)"
  shows "eventually (\<lambda>s. f s < g s) (nhds t)"
proof -
  have "((\<lambda>s. g s - f s) \<longlongrightarrow> g t - f t) (nhds t)"
    using DERIV_isCont [OF DERIV_diff [OF assms(2,1)]]
      tendsto_at_iff_tendsto_nhds [of "\<lambda>s. g s - f s" t] by (simp add: isCont_def)
  then have "eventually (\<lambda>s. 0 < g s - f s) (nhds t)"
    using assms(3) by (intro order_tendstoD(1)) auto
  then show ?thesis by (rule eventually_mono) simp
qed

lemma DERIV_eventually_eq:
  assumes "(f has_real_derivative d) (at t)" "eventually (\<lambda>s. g s = f s) (nhds t)"
  shows "(g has_real_derivative d) (at t)"
  using assms DERIV_cong_ev [OF refl assms(2) refl] by blast

lemma DERIV_abs:
  assumes "y \<noteq> (0::real)"
  shows "(abs has_real_derivative sgn y) (at y)"
proof (cases "0 < y")
  case True
  then have "eventually (\<lambda>s. \<bar>s\<bar> = s) (nhds y)"
    using DERIV_less_eventually [OF DERIV_const [of 0] DERIV_ident, of y] by (auto elim: eventually_mono)
  with True show ?thesis using DERIV_eventually_eq [OF DERIV_ident] by (simp add: sgn_if)
next
  case False
  with assms have y: "y < 0" by simp
  then have "eventually (\<lambda>s. \<bar>s\<bar> = - s) (nhds y)"
    using DERIV_less_eventually [OF DERIV_ident DERIV_const [of 0], of y] by (auto elim: eventually_mono)
  with y show ?thesis using DERIV_eventually_eq [OF DERIV_minus [OF DERIV_ident]] by (simp add: sgn_if)
qed

lemma real_slope_derivative:
  assumes "unary_ok op y"
  shows "(real_unary op has_real_derivative real_slope op y) (at y)"
proof (cases op)
  case OpTan
  with assms have "(tan has_real_derivative 1 / (cos y * cos y)) (at y)"
    using DERIV_tan [of y] by (simp add: power2_eq_square divide_inverse)
  with OpTan show ?thesis by (simp add: real_unary.simps [abs_def])
next
  case OpSqrt
  with assms have "(sqrt has_real_derivative 1 / (2 * sqrt y)) (at y)"
    using DERIV_real_sqrt [of y] by (simp add: field_simps)
  with OpSqrt show ?thesis by (simp add: real_unary.simps [abs_def])
next
  case OpLog10
  with assms have "(log 10 has_real_derivative log 10 (exp 1) / y) (at y)"
    using DERIV_log [of y 10] by (simp add: log_def [of _ "exp 1"])
  with OpLog10 show ?thesis by (simp add: real_unary.simps [abs_def])
next
  case OpLn
  with assms have "(ln has_real_derivative 1 / y) (at y)" using DERIV_ln_divide [of y] by simp
  with OpLn show ?thesis by (simp add: real_unary.simps [abs_def])
next
  case OpMultInv
  with assms have "((\<lambda>t. 1 / t) has_real_derivative - 1 / (y * y)) (at y)"
    by (auto intro!: derivative_eq_intros simp: field_simps)
  with OpMultInv show ?thesis by (simp add: real_unary.simps [abs_def])
next
  case OpAbs
  with assms show ?thesis using DERIV_abs [of y] by (simp add: real_unary.simps [abs_def])
qed (use assms in \<open>auto simp: real_unary.simps [abs_def] intro!: derivative_eq_intros\<close>)

section \<open>Correctness\<close>

lemma powr_rule:
  assumes "(f has_real_derivative f') (at t)" "(g has_real_derivative g') (at t)" "0 < f t"
  shows "((\<lambda>s. f s powr g s) has_real_derivative
    f t powr (g t - 1) * (g t * f' + f t * ln (f t) * g')) (at t)"
proof -
  have "f t powr g t = f t powr (g t - 1) * f t" using assms(3) by (simp add: powr_diff)
  then have "f t powr g t * (g' * ln (f t) + f' * g t / f t) = f t powr (g t - 1) * (g t * f' + f t * ln (f t) * g')"
    using assms(3) by (simp add: field_simps)
  with DERIV_powr [OF assms(1,3,2)] show ?thesis by simp
qed

definition values_agree :: "string list \<Rightarrow> (string \<Rightarrow> real) \<Rightarrow> real_expr \<Rightarrow> bool" where
  "values_agree vs x e \<longleftrightarrow> (\<exists>r. den_real exact (env_of vs x) e = Inr r \<and> has_val r (rval x e))"

definition slopes_agree :: "string list \<Rightarrow> (string \<Rightarrow> real) \<Rightarrow> string \<Rightarrow> real_expr \<Rightarrow> bool" where
  "slopes_agree vs x v e \<longleftrightarrow> (\<exists>d. den_deriv exact (env_of vs x) v e = Inr d \<and> is_finite d \<and>
     ((\<lambda>t. rval (x(v := t)) e) has_real_derivative val d) (at (x v)))"

lemma slopes_unary:
  assumes "values_agree vs x a" "slopes_agree vs x v a" "unary_ok op (rval x a)"
  shows "slopes_agree vs x v (RealExpr nm (UnaryOperation op a))"
proof -
  obtain r where r: "den_real exact (env_of vs x) a = Inr r" "has_val r (rval x a)"
    using assms(1) by (auto simp: values_agree_def)
  obtain d where d: "den_deriv exact (env_of vs x) v a = Inr d" "has_val d (val d)"
      "((\<lambda>t. rval (x(v := t)) a) has_real_derivative val d) (at (x v))"
    using assms(2) by (auto simp: slopes_agree_def has_val_def)
  have chain: "((\<lambda>t. real_unary op (rval (x(v := t)) a)) has_real_derivative real_slope op (rval x a) * val d) (at (x v))"
    by (rule DERIV_chain2 [OF _ d(3)]) (simp add: real_slope_derivative assms(3))
  show ?thesis
  proof (cases "op = OpNegate")
    case True
    with d chain show ?thesis
      by (auto simp: slopes_agree_def has_val_def)
  next
    case False
    then have "has_val (dmul exact (outer_slope exact op r) d) (real_slope op (rval x a) * val d)"
      by (intro has_val_mul outer_slope_ok [OF r(2) assms(3)] d(2))
    with False r d chain assms(3) show ?thesis
      by (cases op) (auto simp: slopes_agree_def has_val_def)
  qed
qed

lemma slopes_binary:
  assumes "values_agree vs x a" "slopes_agree vs x v a" "values_agree vs x c" "slopes_agree vs x v c"
    and ok: "binary_ok op (rval x a) (rval x c)"
  shows "slopes_agree vs x v (RealExpr nm (BinaryOperation op a c))"
proof -
  obtain r q where r: "den_real exact (env_of vs x) a = Inr r" "has_val r (rval x a)"
      "den_real exact (env_of vs x) c = Inr q" "has_val q (rval x c)"
    using assms(1,3) by (auto simp: values_agree_def)
  obtain d e where d: "den_deriv exact (env_of vs x) v a = Inr d" "has_val d (val d)"
      "den_deriv exact (env_of vs x) v c = Inr e" "has_val e (val e)"
    and D: "((\<lambda>t. rval (x(v := t)) a) has_real_derivative val d) (at (x v))"
      "((\<lambda>t. rval (x(v := t)) c) has_real_derivative val e) (at (x v))"
    using assms(2,4) by (auto simp: slopes_agree_def has_val_def)
  have here: "rval (x(v := x v)) a = rval x a" "rval (x(v := x v)) c = rval x c" by simp_all
  have ordered: "eventually (\<lambda>t. rval (x(v := t)) a < rval (x(v := t)) c) (nhds (x v))" if "rval x a < rval x c"
    using DERIV_less_eventually [OF D] that by simp
  have reversed: "eventually (\<lambda>t. rval (x(v := t)) c < rval (x(v := t)) a) (nhds (x v))" if "rval x c < rval x a"
    using DERIV_less_eventually [OF D(2,1)] that by simp
  have cmp: "dle r q \<longleftrightarrow> rval x a \<le> rval x c" "dlt q r \<longleftrightarrow> rval x c < rval x a"
    using r by (auto simp: has_val_def dle_finite dlt_finite)
  note pick = DERIV_eventually_eq [of _ _ "x v" "\<lambda>t. real_binary op (rval (x(v := t)) a) (rval (x(v := t)) c)"]
  have left: "eventually (\<lambda>t. real_binary op (rval (x(v := t)) a) (rval (x(v := t)) c) = rval (x(v := t)) a) (nhds (x v))"
    if "op = OpMin \<and> rval x a < rval x c \<or> op = OpMax \<and> rval x c < rval x a"
    using that ordered reversed by (auto elim!: eventually_mono)
  have right: "eventually (\<lambda>t. real_binary op (rval (x(v := t)) a) (rval (x(v := t)) c) = rval (x(v := t)) c) (nhds (x v))"
    if "op = OpMax \<and> rval x a < rval x c \<or> op = OpMin \<and> rval x c < rval x a"
    using that ordered reversed by (auto elim!: eventually_mono)
  have const: "eventually (\<lambda>t. real_binary op (rval (x(v := t)) a) (rval (x(v := t)) c) =
      real_binary op (rval x a) (rval x c)) (nhds (x v))"
    if "op = OpLessEqThan \<or> op = OpGreaterThan" "rval x a < rval x c \<or> rval x c < rval x a"
    using that ordered reversed by (auto elim!: eventually_mono)
  show ?thesis
  proof (cases op)
    case OpSum
    with d D show ?thesis
      using has_val_add [OF d(2,4)] DERIV_add [OF D] by (auto simp: slopes_agree_def has_val_def)
  next
    case OpProd
    have "has_val (dadd exact (dmul exact r e) (dmul exact q d)) (rval x a * val e + rval x c * val d)"
      using r d by (intro val_intros) auto
    moreover have "((\<lambda>t. rval (x(v := t)) a * rval (x(v := t)) c) has_real_derivative
        rval x a * val e + rval x c * val d) (at (x v))"
      using DERIV_mult [OF D] by (simp add: algebra_simps)
    ultimately show ?thesis using OpProd r d by (auto simp: slopes_agree_def has_val_def)
  next
    case OpPow
    with ok have pos: "0 < rval x a" by simp
    have "has_val (dmul exact (m_pow exact r (dsub exact q (Fin 1)))
        (dadd exact (dmul exact q d) (dmul exact (dmul exact r (m_log exact r)) e)))
        (rval x a powr (rval x c - 1) * (rval x c * val d + rval x a * ln (rval x a) * val e))"
      using r d pos by (intro val_intros has_val_powr) auto
    moreover have "((\<lambda>t. rval (x(v := t)) a powr rval (x(v := t)) c) has_real_derivative
        rval x a powr (rval x c - 1) * (rval x c * val d + rval x a * ln (rval x a) * val e)) (at (x v))"
      using powr_rule [OF D] pos by simp
    ultimately show ?thesis using OpPow r d by (auto simp: slopes_agree_def has_val_def)
  next
    case OpMin
    with ok have "rval x a < rval x c \<or> rval x c < rval x a" by auto
    with OpMin show ?thesis
      using r d cmp pick [OF D(1) left] pick [OF D(2) right] by (auto simp: slopes_agree_def has_val_def)
  next
    case OpMax
    with ok have "rval x a < rval x c \<or> rval x c < rval x a" by auto
    with OpMax show ?thesis
      using r d cmp pick [OF D(1) left] pick [OF D(2) right] by (auto simp: slopes_agree_def has_val_def)
  next
    case OpLessEqThan
    with ok have "rval x a < rval x c \<or> rval x c < rval x a" by auto
    with OpLessEqThan show ?thesis
      using const pick [OF DERIV_const] by (fastforce simp: slopes_agree_def)
  next
    case OpGreaterThan
    with ok have "rval x a < rval x c \<or> rval x c < rval x a" by auto
    with OpGreaterThan show ?thesis
      using const pick [OF DERIV_const] by (fastforce simp: slopes_agree_def)
  qed
qed

text \<open>The product rule over a list: \<open>mult_others\<close> multiplies with the values of all arguments but one.\<close>

definition others :: "nat \<Rightarrow> nat \<Rightarrow> real list \<Rightarrow> real" where
  "others i j ys = prod_list (map (\<lambda>(k, y). if k = i then 1 else y) (enumerate j ys))"

lemma has_val_mult_others:
  "list_all2 has_val xs ys \<Longrightarrow> has_val m y \<Longrightarrow> has_val (mult_others exact i j xs m) (y * others i j ys)"
proof (induction xs ys arbitrary: j m y rule: list_all2_induct)
  case (Cons x xs z ys)
  then show ?case using Cons.IH [of m y "Suc j"] Cons.IH [of "dmul exact m x" "y * z" "Suc j"] has_val_mul [of m y x z]
    by (auto simp: others_def mult.assoc)
qed (simp add: others_def)

lemma others_prod: "i < length ys \<Longrightarrow> others i 0 ys = (\<Prod>k \<in> {..<length ys} - {i}. ys ! k)"
proof -
  assume i: "i < length ys"
  have "others i 0 ys = (\<Prod>k = 0..<length ys. if k = i then 1 else ys ! k)"
    unfolding others_def by (subst prod.list_conv_set_nth) (simp add: nth_enumerate_eq case_prod_beta)
  also have "\<dots> = (\<Prod>k \<in> {..<length ys} - {i}. ys ! k)"
    by (rule prod.mono_neutral_cong_right) auto
  finally show ?thesis .
qed

lemma has_val_product_rule:
  assumes "list_all2 has_val xs ys" "list_all2 has_val ds es" "length es = length ys"
  shows "has_val (fold (\<lambda>(i, d) acc. dadd exact acc (mult_others exact i 0 xs d)) (enumerate 0 ds) (Fin 0))
    (\<Sum>i < length ys. es ! i * (\<Prod>k \<in> {..<length ys} - {i}. ys ! k))"
proof -
  have "has_val (fold (\<lambda>(i, d) acc. dadd exact acc (mult_others exact i 0 xs d)) (enumerate j ds) acc)
      (a + sum_list (map (\<lambda>(i, e). e * others i 0 ys) (enumerate j es)))" if "has_val acc a" for acc a j
    using assms(2) that
  proof (induction ds es arbitrary: acc a j rule: list_all2_induct)
    case (Cons d ds e es)
    have "has_val (dadd exact acc (mult_others exact j 0 xs d)) (a + e * others j 0 ys)"
      by (intro has_val_add has_val_mult_others [OF assms(1)] Cons.prems Cons.hyps(1))
    from Cons.IH [OF this, of "Suc j"] show ?case by (simp add: add.assoc)
  qed simp
  from this [OF has_val_Fin [of 0], of 0]
  have "has_val (fold (\<lambda>(i, d) acc. dadd exact acc (mult_others exact i 0 xs d)) (enumerate 0 ds) (Fin 0))
      (\<Sum>i < length es. es ! i * others i 0 ys)"
    by (simp add: sum_list_sum_nth nth_enumerate_eq atLeast0LessThan)
  then show ?thesis using assms(3) by (simp add: others_prod)
qed

lemma rmap_agrees:
  "\<forall>e \<in> set es. \<exists>r. f e = Inr r \<and> P r e \<Longrightarrow> \<exists>rs. rmap f es = Inr rs \<and> list_all2 P rs es"
  by (induction es) fastforce+

lemma slopes_product:
  assumes "\<forall>e \<in> set es. values_agree vs x e \<and> slopes_agree vs x v e"
  shows "values_agree vs x (RealExpr nm (ListOperation ListProd es))" "slopes_agree vs x v (RealExpr nm (ListOperation ListProd es))"
proof -
  have vals: "\<exists>r. rfold (\<lambda>e acc. rbind (den_real exact (env_of vs x) e) (\<lambda>x. Inr (dmul exact acc x))) es acc = Inr r \<and>
      has_val r (y * prod_list (map (rval x) es))" if "has_val acc y" for acc y
    using assms that
  proof (induction es arbitrary: acc y)
    case (Cons e es)
    then obtain r where "den_real exact (env_of vs x) e = Inr r" "has_val (dmul exact acc r) (y * rval x e)"
      by (auto simp: values_agree_def intro: has_val_mul)
    with Cons.IH [of "dmul exact acc r" "y * rval x e"] Cons.prems show ?case by (auto simp: mult.assoc)
  qed simp
  from vals [OF has_val_Fin [of 1]] show "values_agree vs x (RealExpr nm (ListOperation ListProd es))"
    by (auto simp: values_agree_def)
  obtain xs where xs: "rmap (den_real exact (env_of vs x)) es = Inr xs" "list_all2 (\<lambda>r e. has_val r (rval x e)) xs es"
    using rmap_agrees [of es "den_real exact (env_of vs x)" "\<lambda>r e. has_val r (rval x e)"] assms by (auto simp: values_agree_def)
  let ?D = "\<lambda>d e. is_finite d \<and> ((\<lambda>t. rval (x(v := t)) e) has_real_derivative val d) (at (x v))"
  obtain ds where ds: "rmap (den_deriv exact (env_of vs x) v) es = Inr ds" "list_all2 ?D ds es"
    using rmap_agrees [of es "den_deriv exact (env_of vs x) v" ?D] assms by (auto simp: slopes_agree_def)
  have len: "length ds = length es" using ds(2) by (rule list_all2_lengthD)
  let ?n = "length es"
  let ?slope = "\<Sum>i < ?n. val (ds ! i) * (\<Prod>k \<in> {..<?n} - {i}. rval x (es ! k))"
  have "has_val (fold (\<lambda>(i, d) acc. dadd exact acc (mult_others exact i 0 xs d)) (enumerate 0 ds) (Fin 0))
      (\<Sum>i < length (map (rval x) es). map val ds ! i * (\<Prod>k \<in> {..<length (map (rval x) es)} - {i}. map (rval x) es ! k))"
    using xs(2) ds(2) len
    by (intro has_val_product_rule) (auto simp: list_all2_map2 list_all2_conv_all_nth has_val_def)
  then have val: "has_val (fold (\<lambda>(i, d) acc. dadd exact acc (mult_others exact i 0 xs d)) (enumerate 0 ds) (Fin 0)) ?slope"
    using len by simp
  have "((\<lambda>t. \<Prod>i \<in> {..<?n}. rval (x(v := t)) (es ! i)) has_real_derivative
      (\<Sum>i \<in> {..<?n}. val (ds ! i) * (\<Prod>k \<in> {..<?n} - {i}. rval (x(v := x v)) (es ! k)))) (at (x v))"
    using ds(2) by (intro has_field_derivative_prod) (auto simp: list_all2_conv_all_nth)
  moreover have "prod_list (map f es) = (\<Prod>i \<in> {..<?n}. f (es ! i))" for f :: "real_expr \<Rightarrow> real"
    by (subst prod.list_conv_set_nth) (simp add: atLeast0LessThan)
  ultimately have "((\<lambda>t. prod_list (map (rval (x(v := t))) es)) has_real_derivative ?slope) (at (x v))"
    by (simp del: fun_upd_apply)
  with xs(1) ds(1) val show "slopes_agree vs x v (RealExpr nm (ListOperation ListProd es))"
    by (simp add: slopes_agree_def has_val_def del: fun_upd_apply)
qed

lemma smooth_agrees:
  "smooth vs x e \<Longrightarrow> values_agree vs x e \<and> slopes_agree vs x v e"
proof (induction vs x e rule: smooth.induct)
  case (1 vs x nm b)
  show ?case
  proof (cases b)
    case (Real c)
    with 1 show ?thesis by (auto simp: values_agree_def slopes_agree_def has_val_def)
  next
    case (Variable w)
    have "((\<lambda>t. if w = v then t else x w) has_real_derivative (if w = v then 1 else 0)) (at (x v))" by simp
    then have "((\<lambda>t. (x(v := t)) w) has_real_derivative (if w = v then 1 else 0)) (at (x v))"
      by (simp add: fun_upd_apply)
    with 1 Variable show ?thesis
      by (auto simp: values_agree_def slopes_agree_def has_val_def lookup_or_def env_of_def)
  next
    case (UnaryOperation op a)
    with 1 have a: "values_agree vs x a" "slopes_agree vs x v a" "unary_ok op (rval x a)" by auto
    then have "values_agree vs x (RealExpr nm (UnaryOperation op a))"
      by (auto simp: values_agree_def intro: unary_value_ok)
    with slopes_unary [OF a] UnaryOperation show ?thesis by simp
  next
    case (BinaryOperation op a c)
    with 1 have a: "values_agree vs x a" "slopes_agree vs x v a" "values_agree vs x c" "slopes_agree vs x v c"
        "binary_ok op (rval x a) (rval x c)" by auto
    have "values_agree vs x (RealExpr nm (BinaryOperation op a c))"
      using a(1,3,5) by (auto simp: values_agree_def intro: binary_value_ok)
    with slopes_binary [OF a] BinaryOperation show ?thesis by simp
  next
    case (ListOperation op es)
    with 1 have es: "\<forall>e \<in> set es. values_agree vs x e \<and> slopes_agree vs x v e" by auto
    show ?thesis
    proof (cases op)
      case ListProd
      with slopes_product [OF es] ListOperation show ?thesis by simp
    next
      case op: ListSum
    have vals: "\<exists>r. rfold (\<lambda>e acc. rbind (den_real exact (env_of vs x) e) (\<lambda>x. Inr (dadd exact acc x))) es acc = Inr r \<and>
        has_val r (y + sum_list (map (rval x) es))" if "has_val acc y" for acc y
      using es that
    proof (induction es arbitrary: acc y)
      case (Cons e es)
      then obtain r where "den_real exact (env_of vs x) e = Inr r" "has_val (dadd exact acc r) (y + rval x e)"
        by (auto simp: values_agree_def intro: has_val_add)
      with Cons.IH [of "dadd exact acc r" "y + rval x e"] Cons.prems show ?case by (auto simp: add.assoc)
    qed simp
    have "\<exists>d. rfold (\<lambda>e acc. rbind (den_deriv exact (env_of vs x) v e) (\<lambda>d. Inr (dadd exact acc d))) es acc = Inr d \<and>
        is_finite d \<and> ((\<lambda>t. sum_list (map (rval (x(v := t))) es)) has_real_derivative val d - val acc) (at (x v))"
      if "is_finite acc" for acc
      using es that
    proof (induction es arbitrary: acc)
      case (Cons e es)
      then obtain d where d: "den_deriv exact (env_of vs x) v e = Inr d" "is_finite d"
          "((\<lambda>t. rval (x(v := t)) e) has_real_derivative val d) (at (x v))"
        by (auto simp: slopes_agree_def)
      have acc: "has_val (dadd exact acc d) (val acc + val d)"
        using Cons.prems(2) d(2) by (intro has_val_add) (auto simp: has_val_def)
      have tail: "\<forall>e \<in> set es. values_agree vs x e \<and> slopes_agree vs x v e" using Cons.prems(1) by simp
      have fin: "is_finite (dadd exact acc d)" and sum: "val (dadd exact acc d) = val acc + val d"
        using acc by (simp_all add: has_val_def)
      from Cons.IH [OF tail fin, unfolded sum] obtain k where
        "rfold (\<lambda>e acc. rbind (den_deriv exact (env_of vs x) v e) (\<lambda>d. Inr (dadd exact acc d))) es
          (dadd exact acc d) = Inr k" "is_finite k"
        "((\<lambda>t. sum_list (map (rval (x(v := t))) es)) has_real_derivative val k - (val acc + val d)) (at (x v))"
        by blast
      with d DERIV_add [OF d(3), of "\<lambda>t. sum_list (map (rval (x(v := t))) es)" "val k - (val acc + val d)"]
      show ?case by (simp del: fun_upd_apply)
    qed simp
    from vals [OF has_val_Fin [of 0]] this [of "Fin 0"] op ListOperation show ?thesis
      by (auto simp: values_agree_def slopes_agree_def)
    qed
  qed (use 1 in auto)
qed

text \<open>C7: In exact arithmetic, \<open>evalPartialDerivative\<close> returns the partial derivative of the expression in the given variable, for every expression of constants, variables, sums and products of lists and operations other than \<open>square\<close>, \<open>sign\<close> and the rounding operations, at every point where the operations are differentiable. Not covered are polynomials, case distinctions and references; for \<open>square\<close> the code is wrong (\<open>square_derivative_wrong\<close>), and for the rounding operations it returns the derivative of the argument, as its comments say.\<close>

theorem partial_derivative_correct:
  assumes "adv_valid s" and "smooth vs x e" and "dcalls e \<le> min n 10000"
  shows "\<exists>d t. eval_partial_derivative exact n e v (env_of vs x) s = Some (Inr d, t) \<and> is_finite d \<and>
    ((\<lambda>y. rval (x(v := y)) e) has_real_derivative val d) (at (x v))"
proof -
  obtain d where "den_deriv exact (env_of vs x) v e = Inr d" "is_finite d"
      "((\<lambda>y. rval (x(v := y)) e) has_real_derivative val d) (at (x v))"
    using smooth_agrees [OF assms(2), of v] by (auto simp: slopes_agree_def)
  then show ?thesis
    using eval_partial_derivative_lemma [OF assms(1) _ _ assms(3), of exact v "env_of vs x"] smooth_plain [OF assms(2)]
    by auto
qed

theorem partial_derivative_correct_witness:
  "\<exists>d t. eval_partial_derivative exact 20
      (RealExpr None (BinaryOperation OpPow (var_ref ''P'') (RealExpr None (UnaryOperation OpSin (var_ref ''Q''))))) ''P''
      (env_of [''P'', ''Q''] (\<lambda>_. 2)) (new_advfunc\<lparr>adv_valid := True\<rparr>) = Some (Inr d, t) \<and> is_finite d \<and>
    ((\<lambda>y. y powr sin 2) has_real_derivative val d) (at 2)"
  using partial_derivative_correct [of "new_advfunc\<lparr>adv_valid := True\<rparr>" "[''P'', ''Q'']" "\<lambda>_. 2"
      "RealExpr None (BinaryOperation OpPow (var_ref ''P'') (RealExpr None (UnaryOperation OpSin (var_ref ''Q''))))" 20 "''P''"]
  by simp

text \<open>The derivative of \<open>square\<close> misses the factor of the argument: for \<open>square(X)\<close>, \<open>evalPartialDerivative\<close> returns 2 at every finite value of \<open>X\<close>, so it is the derivative of the square at 1 and nowhere else.\<close>

theorem square_derivative_wrong:
  "\<exists>t. eval_partial_derivative exact (Suc (Suc n)) (RealExpr None (UnaryOperation OpSquare (var_ref v))) v
      [v \<mapsto> Fin x] (new_advfunc\<lparr>adv_valid := True\<rparr>) = Some (Inr (Fin 2), t) \<and>
    (((\<lambda>y. y * y) has_real_derivative 2) (at x) \<longleftrightarrow> x = 1)"
proof -
  have "((\<lambda>y. y * y) has_real_derivative 2 * x) (at x)" by (auto intro!: derivative_eq_intros)
  then have "((\<lambda>y. y * y) has_real_derivative 2) (at x) \<longleftrightarrow> x = 1"
    by (auto dest: DERIV_unique)
  then show ?thesis
    by (simp add: eval_partial_derivative_def start_call_run run_simps deriv_unary_def deriv_var_def new_advfunc_def
        dmul_def)
qed

end
