(* ===== verification/Proj.thy ===== *)
theory Proj imports Poly_Eval begin

text \<open>
  Projection of a point onto a set: the overloads of \<open>proj\<close> and the two iterative algorithms
  of \<open>adv-interpreter.hpp\<close>, and \<open>adv-interpreter-proj.cpp\<close>. As before, \<open>ev\<close>, \<open>mem\<close> and
  \<open>prj\<close> stand for the recursive calls. Operations of Eigen on vectors of different sizes
  fail its assertions.
\<close>

section \<open>Vectors\<close>

definition vec_op :: "(double \<Rightarrow> double \<Rightarrow> double) \<Rightarrow> double list \<Rightarrow> double list \<Rightarrow> double list result" where
  "vec_op f a b = (if length a = length b then Inr (map2 f a b) else Inl Assert_Failed)"

definition sq_norm :: "platform \<Rightarrow> double list \<Rightarrow> double" where
  "sq_norm M v = e_sum M (map (\<lambda>x. dmul M x x) v)"

definition vec_dist :: "platform \<Rightarrow> double list \<Rightarrow> double list \<Rightarrow> double result" where
  "vec_dist M a b = rbind (vec_op (dsub M) a b) (\<lambda>d. Inr (dsqrt M (sq_norm M d)))"

definition proj_intval :: "double \<Rightarrow> double \<Rightarrow> double \<Rightarrow> double" where
  "proj_intval x mn mx = (if dle x mn then mn else if dle mx x then mx else x)"

section \<open>Half-spaces\<close>

record half_space =
  hs_a :: "double list"
  hs_b :: double

definition mem_half :: "platform \<Rightarrow> half_space \<Rightarrow> double list \<Rightarrow> bool result" where
  "mem_half M hs pt = (if length (hs_a hs) = length pt then Inr (dle (dot M (hs_a hs) pt) (hs_b hs))
     else Inl Assert_Failed)"

definition mem_halves :: "platform \<Rightarrow> half_space list \<Rightarrow> double list \<Rightarrow> bool result" where
  "mem_halves M vhs pt = rall (\<lambda>hs. mem_half M hs pt) vhs"

definition proj_half :: "platform \<Rightarrow> half_space \<Rightarrow> double list \<Rightarrow> double list result" where
  "proj_half M hs pt = rbind (mem_half M hs pt) (\<lambda>b. if b then Inr pt
     else (let sq = sq_norm M (hs_a hs); excess = dsub M (dot M (hs_a hs) pt) (hs_b hs)
       in vec_op (\<lambda>x a. dsub M x (dmul M (ddiv M a sq) excess)) pt (hs_a hs)))"

section \<open>Singletons, balls and rectangles\<close>

definition proj_ball :: "platform \<Rightarrow> (real_expr \<Rightarrow> double interp) \<Rightarrow> real_expr list \<Rightarrow> real_expr \<Rightarrow>
    double list \<Rightarrow> double list interp" where
  "proj_ball M ev center radius pt =
     bnd (mem_ball M ev center radius pt) (\<lambda>b. if b then ret pt
     else bnd (eval_to_vector ev center) (\<lambda>cent. bnd (ev radius) (\<lambda>r.
       from_result (rbind (vec_op (dsub M) pt cent) (\<lambda>d.
         vec_op (\<lambda>c u. dadd M c (dmul M r u)) cent (e_normalized M d))))))"

text \<open>
  The result vector has the size of the point: a rectangle of larger dimension runs into an
  assertion, one of smaller dimension leaves coordinates uninitialised.
\<close>

fun proj_rectangle :: "(real_expr \<Rightarrow> double interp) \<Rightarrow> (real_expr \<times> real_expr) list \<Rightarrow>
    double list \<Rightarrow> double list interp" where
  "proj_rectangle ev [] [] = ret []"
| "proj_rectangle ev [] (x # xs) = raise Undefined"
| "proj_rectangle ev ((a, b) # bs) [] = bnd (ev a) (\<lambda>_. bnd (ev b) (\<lambda>_. raise Assert_Failed))"
| "proj_rectangle ev ((a, b) # bs) (x # xs) =
     bnd (ev a) (\<lambda>val1. bnd (ev b) (\<lambda>val2. bnd (proj_rectangle ev bs xs) (\<lambda>rest.
       ret (proj_intval x (dmin val1 val2) (dmax val1 val2) # rest))))"

section \<open>Iterative algorithms\<close>

text \<open>
  One round of Dykstra's algorithm over the sets: \<open>x\<close> is \<open>xv[i-1]\<close>, the list \<open>ys\<close> holds
  \<open>yv[1..m]\<close>; the result is \<open>xv[m]\<close> and the new \<open>yv\<close>.
\<close>

fun dykstra_round :: "platform \<Rightarrow> ('s \<Rightarrow> double list \<Rightarrow> double list interp) \<Rightarrow> 's list \<Rightarrow> double list \<Rightarrow>
    double list list \<Rightarrow> (double list \<times> double list list) interp" where
  "dykstra_round M prj (s # ss) x (y # ys) =
     bnd (from_result (vec_op (dadd M) x y)) (\<lambda>z.
     bnd (prj s z) (\<lambda>x'.
     bnd (from_result (vec_op (dsub M) z x')) (\<lambda>y'.
     bnd (dykstra_round M prj ss x' ys) (\<lambda>(xm, ys'). ret (xm, y' # ys')))))"
| "dykstra_round M prj _ x _ = ret (x, [])"

text \<open>
  The outer loop. On convergence it leaves \<open>result\<close> at the iterate before the last.
\<close>

fun dykstra_loop :: "platform \<Rightarrow> ('s \<Rightarrow> double list \<Rightarrow> double list interp) \<Rightarrow> 's list \<Rightarrow> double \<Rightarrow> nat \<Rightarrow>
    double list \<Rightarrow> double list list \<Rightarrow> double list \<Rightarrow> (bool \<times> double list) interp" where
  "dykstra_loop M prj sets thr 0 x ys res = ret (False, res)"
| "dykstra_loop M prj sets thr (Suc k) x ys res =
     bnd (dykstra_round M prj sets x ys) (\<lambda>(xm, ys').
     bnd (from_result (vec_dist M xm res)) (\<lambda>d.
     if dlt d thr then ret (True, res) else dykstra_loop M prj sets thr k xm ys' xm))"

definition max_iterations :: nat where
  "max_iterations = 1000"

definition dykstra :: "platform \<Rightarrow> ('s \<Rightarrow> double list \<Rightarrow> double list interp) \<Rightarrow> 's list \<Rightarrow> double list \<Rightarrow>
    (bool \<times> double list) interp" where
  "dykstra M prj sets pt =
     dykstra_loop M prj sets (rnd M (1 / 1000)) max_iterations pt
       (replicate (length sets) (replicate (length pt) (Fin 0))) pt"

definition dykstra_or_throw :: "platform \<Rightarrow> ('s \<Rightarrow> double list \<Rightarrow> double list interp) \<Rightarrow> 's list \<Rightarrow> double list \<Rightarrow>
    double list interp" where
  "dykstra_or_throw M prj sets pt =
     bnd (dykstra M prj sets pt) (\<lambda>(converged, res). if converged then ret res else raise No_Convergence)"

text \<open>\<open>alternatingProjectionAlgorithm\<close>: project in turn, stop as soon as all sets contain the point.\<close>

fun alternating_round :: "('s \<Rightarrow> 'p \<Rightarrow> 'p interp) \<Rightarrow> ('p \<Rightarrow> bool interp) \<Rightarrow> 's list \<Rightarrow> 'p \<Rightarrow> (bool \<times> 'p) interp" where
  "alternating_round prj memall [] x = ret (False, x)"
| "alternating_round prj memall (s # ss) x =
     bnd (prj s x) (\<lambda>x'. bnd (memall x') (\<lambda>b. if b then ret (True, x') else alternating_round prj memall ss x'))"

fun alternating :: "('s \<Rightarrow> 'p \<Rightarrow> 'p interp) \<Rightarrow> ('p \<Rightarrow> bool interp) \<Rightarrow> 's list \<Rightarrow> nat \<Rightarrow> 'p \<Rightarrow> 'p option interp" where
  "alternating prj memall sets 0 x = ret None"
| "alternating prj memall sets (Suc k) x =
     bnd (alternating_round prj memall sets x) (\<lambda>(done, x'). if done then ret (Some x') else alternating prj memall sets k x')"

section \<open>Polytopes and intersections\<close>

definition proj_polytope :: "platform \<Rightarrow> (real_expr \<Rightarrow> double interp) \<Rightarrow> real_expr list list \<Rightarrow> real_expr list \<Rightarrow>
    double list \<Rightarrow> double list interp" where
  "proj_polytope M ev mx b pt =
     bnd (mem_polytope M ev mx b pt) (\<lambda>inside. if inside then ret pt
     else bnd (mapC (\<lambda>(row, c). bnd (eval_to_vector ev row) (\<lambda>a. bnd (ev c) (\<lambda>r.
              ret \<lparr> hs_a = a, hs_b = r \<rparr>))) (zip mx b)) (\<lambda>halves.
          dykstra_or_throw M (\<lambda>hs z. from_result (proj_half M hs z)) halves pt))"

definition proj_intersection :: "platform \<Rightarrow> (set_expr \<Rightarrow> double list \<Rightarrow> bool interp) \<Rightarrow>
    (set_expr \<Rightarrow> double list \<Rightarrow> double list interp) \<Rightarrow> set_expr list \<Rightarrow> double list \<Rightarrow> double list interp" where
  "proj_intersection M mem prj sets pt =
     bnd (mem_intersection mem sets pt) (\<lambda>inside. if inside then ret pt
     else dykstra_or_throw M prj sets pt)"

section \<open>Projection onto a set expression\<close>

fun proj_body :: "platform \<Rightarrow> (real_expr \<Rightarrow> double interp) \<Rightarrow> (set_expr \<Rightarrow> double list \<Rightarrow> bool interp) \<Rightarrow>
    (set_expr \<Rightarrow> double list \<Rightarrow> double list interp) \<Rightarrow> set_body \<Rightarrow> double list \<Rightarrow> double list interp" where
  "proj_body M ev mem prj (Singleton es) pt = eval_to_vector ev es"
| "proj_body M ev mem prj (Ball cs r) pt = proj_ball M ev cs r pt"
| "proj_body M ev mem prj (Rectangle bs) pt = proj_rectangle ev bs pt"
| "proj_body M ev mem prj (ConvexPolytope mx b) pt = proj_polytope M ev mx b pt"
| "proj_body M ev mem prj (Intersection ss) pt = proj_intersection M mem prj ss pt"
| "proj_body M ev mem prj (SetCaseDistinction vs cs) pt = raise (Which_Error 5)"
| "proj_body M ev mem prj (SetReference r) pt = raise (Which_Error 6)"

fun proj :: "platform \<Rightarrow> nat \<Rightarrow> set_expr \<Rightarrow> double list \<Rightarrow> double list interp" where
  "proj M 0 st pt = (\<lambda>s. None)"
| "proj M (Suc n) st pt =
     bnd enter_set (\<lambda>_. proj_body M (eval M n) (membership M n) (proj M n) (se_body st) pt)"

text \<open>The result is copied into a vector of the size of the point.\<close>

definition project :: "platform \<Rightarrow> nat \<Rightarrow> set_expr \<Rightarrow> double list \<Rightarrow> value_map \<Rightarrow> double list interp" where
  "project M n st pt env = bnd (start_call env) (\<lambda>_. bnd (proj M n st pt) (\<lambda>res.
     bnd (guard_comp (length res = length pt) Assert_Failed) (\<lambda>_. ret res)))"

text \<open>The overload for a vector of Eigen, whose result is a \<open>Vector2d\<close>.\<close>

definition project_vector :: "platform \<Rightarrow> nat \<Rightarrow> set_expr \<Rightarrow> double list \<Rightarrow> value_map \<Rightarrow> double list interp" where
  "project_vector M n st pt env = bnd (start_call env) (\<lambda>_. bnd (proj M n st pt) (\<lambda>res.
     bnd (guard_comp (length res = 2) Assert_Failed) (\<lambda>_. ret res)))"

end
