(* ===== verification/Proj_Props.thy ===== *)
theory Proj_Props imports Proj begin

text \<open>
  What a projection promises, as the locale \<open>projection\<close>: the result is a member, and no
  member is nearer. It is interpreted on the boxes and the half-spaces the interpreter
  projects onto; the properties of \<open>project\<close> rest on its facts.
\<close>

section \<open>The contract of a projection\<close>

locale projection =
  fixes mem :: "'p \<Rightarrow> bool" and prj :: "'p \<Rightarrow> 'p" and d :: "'p \<Rightarrow> 'p \<Rightarrow> real" and ok :: "'p \<Rightarrow> bool"
  assumes prj_ok: "ok x \<Longrightarrow> ok (prj x)"
    and prj_mem: "ok x \<Longrightarrow> mem (prj x)"
    and nearest: "ok x \<Longrightarrow> ok y \<Longrightarrow> mem y \<Longrightarrow> d x (prj x) \<le> d x y"
    and d_nonneg: "0 \<le> d x y"
    and d_zero: "ok x \<Longrightarrow> ok y \<Longrightarrow> d x y = 0 \<longleftrightarrow> x = y"
begin

lemma fixpoint: "ok x \<Longrightarrow> mem x \<Longrightarrow> prj x = x"
  using nearest [of x x] d_zero [of x x] d_zero [of x "prj x"] d_nonneg [of x "prj x"] prj_ok [of x] by auto

lemma member_iff: "ok x \<Longrightarrow> mem x \<longleftrightarrow> prj x = x"
  using fixpoint prj_mem by metis

lemma idempotent: "ok x \<Longrightarrow> prj (prj x) = prj x"
  using fixpoint prj_mem prj_ok by blast

end

section \<open>Boxes\<close>

definition sq_dist_real :: "real list \<Rightarrow> real list \<Rightarrow> real" where
  "sq_dist_real x y = sum_list (map2 (\<lambda>a b. (a - b)\<^sup>2) x y)"

definition box_mem :: "(real \<times> real) list \<Rightarrow> real list \<Rightarrow> bool" where
  "box_mem bs x \<longleftrightarrow> list_all2 (\<lambda>(a, b) t. min a b \<le> t \<and> t \<le> max a b) bs x"

definition clip :: "real \<Rightarrow> real \<Rightarrow> real \<Rightarrow> real" where
  "clip lo hi t = (if t \<le> lo then lo else if hi \<le> t then hi else t)"

definition box_prj :: "(real \<times> real) list \<Rightarrow> real list \<Rightarrow> real list" where
  "box_prj bs x = map2 (\<lambda>(a, b) t. clip (min a b) (max a b) t) bs x"

lemma sq_dist_nonneg: "0 \<le> sq_dist_real x y"
  unfolding sq_dist_real_def by (intro sum_list_nonneg) (auto simp: split_def)

lemma sq_dist_zero: "length x = length y \<Longrightarrow> sq_dist_real x y = 0 \<longleftrightarrow> x = y"
proof (induction x y rule: list_induct2)
  case (Cons a x b y)
  then show ?case using sq_dist_nonneg [of x y]
    by (auto simp: sq_dist_real_def add_nonneg_eq_0_iff)
qed (simp add: sq_dist_real_def)

lemma clip_mem: "min a b \<le> clip (min a b) (max a b) t \<and> clip (min a b) (max a b) t \<le> max a b"
  by (auto simp: clip_def)

lemma clip_nearest:
  assumes "lo \<le> y" "y \<le> hi"
  shows "(t - clip lo hi t)\<^sup>2 \<le> (t - y)\<^sup>2"
proof -
  have "\<bar>t - clip lo hi t\<bar> \<le> \<bar>t - y\<bar>" using assms by (auto simp: clip_def)
  then show ?thesis by (rule abs_le_square_iff [THEN iffD1])
qed

lemma box_prj_mem: "length bs = length x \<Longrightarrow> box_mem bs (box_prj bs x)"
proof (induction bs x rule: list_induct2)
  case (Cons ab bs t x)
  then show ?case using clip_mem by (cases ab) (simp add: box_mem_def box_prj_def)
qed (simp add: box_mem_def box_prj_def)

lemma box_prj_nearest:
  "length bs = length x \<Longrightarrow> length x = length y \<Longrightarrow> box_mem bs y \<Longrightarrow>
    sq_dist_real x (box_prj bs x) \<le> sq_dist_real x y"
proof (induction bs x y rule: list_induct3)
  case (Cons ab bs t x u y)
  then show ?case using clip_nearest
    by (cases ab) (auto simp: box_mem_def box_prj_def sq_dist_real_def intro!: add_mono)
qed (simp add: box_prj_def)

interpretation box: projection "box_mem bs" "box_prj bs" sq_dist_real "\<lambda>x. length bs = length x" for bs
  by unfold_locales
    (auto simp: box_prj_mem sq_dist_nonneg sq_dist_zero intro: box_prj_nearest, simp add: box_prj_def)

section \<open>Half-spaces\<close>

definition inner :: "real list \<Rightarrow> real list \<Rightarrow> real" where
  "inner a x = sum_list (map2 (*) a x)"

definition half_mem :: "real list \<Rightarrow> real \<Rightarrow> real list \<Rightarrow> bool" where
  "half_mem a b x \<longleftrightarrow> inner a x \<le> b"

definition half_prj :: "real list \<Rightarrow> real \<Rightarrow> real list \<Rightarrow> real list" where
  "half_prj a b x = (if half_mem a b x then x else map2 (\<lambda>t u. t - u / inner a a * (inner a x - b)) x a)"

lemma inner_step_scaled:
  assumes "length c = length a" "length x = length a"
  shows "inner c (map2 (\<lambda>t u. t - u * k) x a) = inner c x - inner c a * k"
  using assms(1) assms(2) [symmetric]
  by (induction c a x rule: list_induct3) (auto simp: inner_def algebra_simps)

lemma inner_step:
  assumes "length c = length a" "length x = length a"
  shows "inner c (map2 (\<lambda>t u. t - u / q * r) x a) = inner c x - inner c a * r / q"
  using inner_step_scaled [OF assms, of "r / q"] by simp

lemma inner_self_nonneg: "0 \<le> inner a a"
  unfolding inner_def by (intro sum_list_nonneg) (auto simp: set_zip)

lemma sq_dist_Cons: "sq_dist_real (u # us) (v # vs) = (u - v)\<^sup>2 + sq_dist_real us vs"
  by (simp add: sq_dist_real_def)

lemma inner_Cons: "inner (u # us) (v # vs) = u * v + inner us vs"
  by (simp add: inner_def)

lemma combine:
  "a = a1 + a2 + 2 * j \<Longrightarrow> s = s1 + s2 + 2 * i \<Longrightarrow> a + s = a1 + s1 + (a2 + s2) + 2 * (j + i)"
  for a :: real
  by simp

lemma sq_dist_via:
  "length x = length y \<Longrightarrow> length y = length p \<Longrightarrow>
    sq_dist_real x y = sq_dist_real x p + sq_dist_real p y + 2 * inner (map2 (-) x p) (map2 (-) p y)"
proof (induction x y p rule: list_induct3)
  case (Cons a x b y q p)
  have "(a - b)\<^sup>2 = (a - q)\<^sup>2 + (q - b)\<^sup>2 + 2 * ((a - q) * (q - b))"
    by (simp add: power2_eq_square algebra_simps)
  from combine [OF this Cons.IH] show ?case
    unfolding sq_dist_Cons list.map zip_Cons_Cons prod.case inner_Cons .
qed (simp add: sq_dist_real_def inner_def)

lemma inner_scaled:
  "length a = length z \<Longrightarrow> inner (map (\<lambda>u. u * k) a) z = k * inner a z"
  by (induction a z rule: list_induct2) (auto simp: inner_def algebra_simps)

lemma inner_diff:
  "length a = length x \<Longrightarrow> length x = length y \<Longrightarrow> inner a (map2 (-) x y) = inner a x - inner a y"
  by (induction a x y rule: list_induct3) (auto simp: inner_def algebra_simps)

lemma inner_on_plane:
  assumes "length x = length a" "inner a a \<noteq> 0"
  shows "inner a (map2 (\<lambda>t u. t - u / inner a a * (inner a x - b)) x a) = b"
proof -
  have "inner a a * (inner a x - b) / inner a a = inner a x - b" using assms(2) by simp
  with inner_step [of a a x "inner a a" "inner a x - b", OF refl assms(1)] show ?thesis by linarith
qed

lemma half_prj_mem:
  assumes "length a = length x" "0 < inner a a"
  shows "half_mem a b (half_prj a b x)"
proof -
  have "inner a (map2 (\<lambda>t u. t - u / inner a a * (inner a x - b)) x a) = b"
    by (rule inner_on_plane) (use assms in auto)
  then show ?thesis unfolding half_prj_def half_mem_def by (cases "inner a x \<le> b") (simp_all only: if_True if_False order_refl)
qed

lemma half_prj_nearest:
  assumes len: "length a = length x" "length a = length y" and pos: "0 < inner a a" and y: "half_mem a b y"
  shows "sq_dist_real x (half_prj a b x) \<le> sq_dist_real x y"
proof (cases "half_mem a b x")
  case True
  have "sq_dist_real x x = 0" using sq_dist_zero [of x x] by simp
  with True show ?thesis by (simp add: half_prj_def sq_dist_nonneg)
next
  case False
  define p where "p = map2 (\<lambda>t u. t - u / inner a a * (inner a x - b)) x a"
  define k where "k = (inner a x - b) / inner a a"
  have len_p: "length p = length y" using len by (simp add: p_def)
  have excess: "0 < inner a x - b" using False by (simp add: half_mem_def)
  then have k: "0 < k" using pos by (simp add: k_def)
  have "map2 (-) x p = map (\<lambda>u. u * k) a"
    using len unfolding p_def k_def by (intro nth_equalityI) auto
  moreover have "inner (map (\<lambda>u. u * k) a) (map2 (-) p y) = k * inner a (map2 (-) p y)"
    using len len_p by (intro inner_scaled) simp
  moreover have "inner a (map2 (-) p y) = inner a p - inner a y"
    using len len_p by (intro inner_diff) simp_all
  ultimately have "inner (map2 (-) x p) (map2 (-) p y) = k * (inner a p - inner a y)"
    by simp
  moreover have "inner a p = b"
    unfolding p_def by (rule inner_on_plane) (use len pos in auto)
  ultimately have "0 \<le> inner (map2 (-) x p) (map2 (-) p y)"
    using k y by (simp add: half_mem_def)
  moreover have "sq_dist_real x y = sq_dist_real x p + sq_dist_real p y + 2 * inner (map2 (-) x p) (map2 (-) p y)"
    by (rule sq_dist_via) (use len len_p in simp_all)
  ultimately have "sq_dist_real x p \<le> sq_dist_real x y"
    using sq_dist_nonneg [of p y] by linarith
  with False show ?thesis by (simp add: half_prj_def p_def)
qed

interpretation half: projection "half_mem a b" "half_prj a b" sq_dist_real
  "\<lambda>x. length a = length x \<and> 0 < inner a a" for a b
  by unfold_locales
    (auto simp: half_prj_mem sq_dist_nonneg sq_dist_zero intro: half_prj_nearest, auto simp: half_prj_def)

section \<open>Projection onto a rectangle\<close>

lemma dmin_dmax_Fin: "dmin (Fin a) (Fin b) = Fin (min a b)" "dmax (Fin a) (Fin b) = Fin (max a b)"
  by (auto simp: dmin_def dmax_def min_def max_def)

lemma proj_intval_Fin: "proj_intval (Fin t) (Fin lo) (Fin hi) = Fin (clip lo hi t)"
  by (simp add: proj_intval_def clip_def)

lemma refines_literal: "refines env 1 (eval M (Suc n) (real_lit x)) (Inr x)"
  using implements_real [OF interpreter_implements, of "real_lit x" "Suc n" env M] by simp

lemma refines_proj_box:
  "length pt = length bs \<Longrightarrow>
    refines env (2 * length bs)
      (proj_rectangle (eval M (Suc n)) (map (\<lambda>(a, b). (real_lit (Fin a), real_lit (Fin b))) bs) (map Fin pt))
      (Inr (map Fin (box_prj bs pt)))"
proof (induction pt bs rule: list_induct2)
  case Nil
  then show ?case by (simp add: box_prj_def refines_ret)
next
  case (Cons t pt ab bs)
  obtain a b where ab: "ab = (a, b)" by (cases ab)
  have "refines env (1 + (1 + (2 * length bs + 0)))
      (bnd (eval M (Suc n) (real_lit (Fin a))) (\<lambda>v1. bnd (eval M (Suc n) (real_lit (Fin b))) (\<lambda>v2.
        bnd (proj_rectangle (eval M (Suc n)) (map (\<lambda>(a, b). (real_lit (Fin a), real_lit (Fin b))) bs) (map Fin pt)) (\<lambda>rest.
        ret (proj_intval (Fin t) (dmin v1 v2) (dmax v1 v2) # rest)))))
      (rbind (Inr (Fin a)) (\<lambda>v1. rbind (Inr (Fin b)) (\<lambda>v2. rbind (Inr (map Fin (box_prj bs pt))) (\<lambda>rest.
        Inr (proj_intval (Fin t) (dmin v1 v2) (dmax v1 v2) # rest)))))"
    by (intro refines_bnd refines_literal refines_ret Cons.IH)
  then show ?case
    by (simp add: ab box_prj_def dmin_dmax_Fin proj_intval_Fin del: eval.simps)
qed

lemma refines_proj_literal_box:
  assumes "length pt = length bs"
  shows "refines env (2 * length bs + 1) (proj M (Suc (Suc n)) (literal_box bs) (map Fin pt)) (Inr (map Fin (box_prj bs pt)))"
  using refines_enter_set [OF refines_proj_box [OF assms, of env M n]] by (simp add: literal_box_def)

text \<open>C22: \<open>project\<close> onto a rectangle of finite literal bounds returns, on every platform, a point of the rectangle that no other point of the rectangle is nearer to the given point, and returns a point of the rectangle unchanged.\<close>

theorem project_rectangle:
  assumes "adv_valid s" and "length pt = length bs" and "2 * length bs + 1 \<le> 10000"
  shows "\<exists>q t. project M (Suc (Suc n)) (literal_box bs) (map Fin pt) env s = Some (Inr (map Fin q), t) \<and>
    box_mem bs q \<and> (box_mem bs pt \<longrightarrow> q = pt) \<and>
    (\<forall>y. length y = length bs \<and> box_mem bs y \<longrightarrow> sq_dist_real pt q \<le> sq_dist_real pt y)"
proof -
  have "\<exists>t. project M (Suc (Suc n)) (literal_box bs) (map Fin pt) env s = Some (Inr (map Fin (box_prj bs pt)), t)"
    using refines_run [OF refines_proj_literal_box [OF assms(2), of env M n] assms(3), of s] assms(1,2)
    by (auto simp: project_def run_simps start_call_run box_prj_def simp del: proj.simps)
  then show ?thesis
    using box.prj_mem [of bs pt] box.nearest [of bs pt] box.fixpoint [of bs pt] assms(2) by auto
qed

theorem project_rectangle_witness:
  "\<exists>q t. project ieee64 (Suc (Suc 1)) (literal_box [(0, 1), (2, - 2)]) (map Fin [5, 1]) Map.empty
      (new_advfunc\<lparr>adv_valid := True\<rparr>) =
    Some (Inr (map Fin q), t) \<and> box_mem [(0, 1), (2, - 2)] q \<and> sq_dist_real [5, 1] q \<le> 16"
proof -
  let ?bs = "[(0, 1), (2, - 2)] :: (real \<times> real) list"
  have here: "box_mem ?bs [1, 1]" "sq_dist_real [5, 1] [1, 1] = 16" "length [1::real, 1] = length ?bs"
    by (simp_all add: box_mem_def sq_dist_real_def)
  have "\<exists>q t. project ieee64 (Suc (Suc 1)) (literal_box ?bs) (map Fin [5, 1]) Map.empty
      (new_advfunc\<lparr>adv_valid := True\<rparr>) = Some (Inr (map Fin q), t) \<and>
    box_mem ?bs q \<and> (box_mem ?bs [5, 1] \<longrightarrow> q = [5, 1]) \<and>
    (\<forall>y. length y = length ?bs \<and> box_mem ?bs y \<longrightarrow> sq_dist_real [5, 1] q \<le> sq_dist_real [5, 1] y)"
    by (rule project_rectangle) simp_all
  then show ?thesis using here by metis
qed

section \<open>Projection onto a half-space\<close>

lemma e_sum_exact: "e_sum exact = sum_left (base_platform Fin)"
  by (simp add: exact_def std_platform_def Let_def)

lemma has_val_sum_from:
  "has_val acc y \<Longrightarrow> list_all2 has_val ds xs \<Longrightarrow> has_val (sum_from (base_platform Fin) acc ds) (y + sum_list xs)"
proof (induction ds arbitrary: acc y xs)
  case (Cons a ds)
  then obtain x zs where xs: "xs = x # zs" "has_val a x" "list_all2 has_val ds zs" by (auto simp: list_all2_Cons1)
  have "dadd (base_platform Fin) acc a = dadd exact acc a" by (rule dadd_rnd) (simp add: base_platform_def fun_eq_iff)
  with Cons.IH [of "dadd exact acc a" "y + x" zs] Cons.prems xs show ?case by (simp add: has_val_add add.assoc)
qed simp

lemma has_val_e_sum: "list_all2 has_val ds xs \<Longrightarrow> has_val (e_sum exact ds) (sum_list xs)"
  by (cases ds) (auto simp: e_sum_exact list_all2_Cons1 has_val_sum_from has_val_Fin)

lemma has_val_dot: "length a = length x \<Longrightarrow> has_val (dot exact (map Fin a) (map Fin x)) (inner a x)"
  unfolding dot_def inner_def
  by (rule has_val_e_sum) (induction a x rule: list_induct2; simp add: val_intros)

lemma has_val_sq_norm: "has_val (sq_norm exact (map Fin a)) (inner a a)"
  unfolding sq_norm_def inner_def
  by (rule has_val_e_sum) (induction a; simp add: val_intros)

lemma dle_has_val: "has_val a x \<Longrightarrow> has_val b y \<Longrightarrow> dle a b \<longleftrightarrow> x \<le> y"
  by (auto simp: has_val_def dle_finite)

lemma dlt_has_val: "has_val a x \<Longrightarrow> has_val b y \<Longrightarrow> dlt a b \<longleftrightarrow> x < y"
  by (cases a; cases b) (auto simp: has_val_def dlt_def)

text \<open>C24: In exact arithmetic, the projection onto a half-space with a normal vector that is not zero returns the nearest point of the half-space, up to the sign of a zero.\<close>

theorem proj_half_nearest:
  assumes "length pt = length a" and "0 < inner a a"
  shows "\<exists>ds q. proj_half exact \<lparr> hs_a = map Fin a, hs_b = Fin b \<rparr> (map Fin pt) = Inr ds \<and>
    list_all2 has_val ds q \<and> half_mem a b q \<and> half_prj a b q = q \<and>
    (\<forall>y. length y = length a \<and> half_mem a b y \<longrightarrow> sq_dist_real pt q \<le> sq_dist_real pt y)"
proof -
  have mem: "mem_half exact \<lparr> hs_a = map Fin a, hs_b = Fin b \<rparr> (map Fin pt) = Inr (half_mem a b pt)"
    using has_val_dot [of a pt] assms(1)
    by (auto simp: mem_half_def half_mem_def dle_has_val [OF _ has_val_Fin])
  have "\<exists>ds. proj_half exact \<lparr> hs_a = map Fin a, hs_b = Fin b \<rparr> (map Fin pt) = Inr ds \<and>
      list_all2 has_val ds (half_prj a b pt)"
  proof (cases "half_mem a b pt")
    case True
    then show ?thesis using mem by (simp add: proj_half_def half_prj_def list_all2_conv_all_nth has_val_Fin)
  next
    case False
    have "has_val (dsub exact (Fin t) (dmul exact (ddiv exact (Fin u) (sq_norm exact (map Fin a)))
        (dsub exact (dot exact (map Fin a) (map Fin pt)) (Fin b)))) (t - u / inner a a * (inner a pt - b))" for t u
      using assms by (intro val_intros has_val_sq_norm has_val_dot) auto
    with False mem assms(1) show ?thesis
      by (auto simp: proj_half_def half_prj_def vec_op_def Let_def list_all2_conv_all_nth)
  qed
  then obtain ds where "proj_half exact \<lparr> hs_a = map Fin a, hs_b = Fin b \<rparr> (map Fin pt) = Inr ds"
      "list_all2 has_val ds (half_prj a b pt)" by blast
  moreover have "\<forall>y. length y = length a \<and> half_mem a b y \<longrightarrow> sq_dist_real pt (half_prj a b pt) \<le> sq_dist_real pt y"
    using half.nearest [of a pt _ b] assms by simp
  ultimately show ?thesis
    using half.prj_mem [of a pt b] half.idempotent [of a pt b] assms by metis
qed

theorem proj_half_nearest_witness:
  "\<exists>ds q. proj_half exact \<lparr> hs_a = map Fin [1, 1], hs_b = Fin 2 \<rparr> (map Fin [3, 3]) = Inr ds \<and>
    list_all2 has_val ds q \<and> half_mem [1, 1] 2 q \<and> sq_dist_real [3, 3] q \<le> 8"
proof -
  have "half_mem [1, 1] 2 [1, 1]" "sq_dist_real [3, 3] [1, 1] = 8"
    by (simp_all add: half_mem_def inner_def sq_dist_real_def)
  moreover have "0 < inner [1, 1] [1, 1]" by (simp add: inner_def)
  then obtain ds q where "proj_half exact \<lparr> hs_a = map Fin [1, 1], hs_b = Fin 2 \<rparr> (map Fin [3, 3]) = Inr ds"
      "list_all2 has_val ds q" "half_mem [1, 1] 2 q"
      "\<forall>y. length y = length [1::real, 1] \<and> half_mem [1, 1] 2 y \<longrightarrow> sq_dist_real [3, 3] q \<le> sq_dist_real [3, 3] y"
    using proj_half_nearest [of "[3, 3]" "[1, 1]" 2] by (auto simp del: list.map)
  ultimately show ?thesis by (metis length_Cons)
qed

section \<open>Members, and the iterative algorithm\<close>

text \<open>The sets whose projection starts with a membership test.\<close>

fun tests_first :: "set_body \<Rightarrow> bool" where
  "tests_first (Ball cs r) = True"
| "tests_first (ConvexPolytope mx b) = True"
| "tests_first (Intersection ss) = True"
| "tests_first _ = False"

lemma refines_if_member:
  assumes "refines env k c (Inr True)"
  shows "refines env k (bnd c (\<lambda>b. if b then ret pt else f)) (Inr pt)"
  using refines_bnd_same [OF assms, of "\<lambda>b. if b then ret pt else f" "\<lambda>_. Inr pt"] by (simp add: refines_ret)

text \<open>\<open>project\<close> onto a ball, a polytope or an intersection returns a point that belongs to the set unchanged, on every platform.\<close>

theorem project_member_fixed:
  assumes "adv_valid s" and "ref_free_set st" and "calls_set st \<le> min n 10000"
    and "tests_first (se_body st)" and "den_set M env st pt = Inr True"
  shows "\<exists>t. project M n st pt env s = Some (Inr pt, t)"
proof -
  obtain nm b where st: "st = SetExpr nm b" by (cases st)
  obtain m where n: "n = Suc m" using assms(3) st by (cases n) auto
  have "refines env (calls_set_body b) (membership_body M (eval M m) (membership M m) b pt) (Inr True)"
    using membership_body_refines [OF interpreter_implements, of b m env M pt] assms st n by simp
  then have "refines env (calls_set_body b) (proj_body M (eval M m) (membership M m) (proj M m) b pt) (Inr pt)"
    using assms(4) st by (cases b) (auto simp: proj_ball_def proj_polytope_def proj_intersection_def refines_if_member)
  then have "refines env (calls_set st) (proj M n st pt) (Inr pt)"
    using refines_enter_set by (simp add: st n)
  moreover have "calls_set st \<le> 10000" using assms(3) by simp
  ultimately obtain d where "proj M n st pt (s\<lparr>bound_vars := env, nesting_depth := 0\<rparr>) =
      Some (Inr pt, s\<lparr>bound_vars := env, nesting_depth := d\<rparr>)"
    using refines_run by blast
  then show ?thesis using assms(1) by (simp add: project_def run_simps start_call_run)
qed

theorem project_member_fixed_witness:
  "\<exists>t. project exact 4 (set_of_body (Ball [real_lit (Fin 1)] (real_lit (Fin 2)))) [Fin 3] Map.empty
      (new_advfunc\<lparr>adv_valid := True\<rparr>) = Some (Inr [Fin 3], t)"
  by (rule project_member_fixed)
    (simp_all add: rguard_def sq_dist_def e_sum_exact dsub_def dadd_def dmul_def Let_def)

lemma dykstra_loop_close:
  "dykstra_loop M prj sets thr k x ys x s = Some (Inr (True, res), t) \<Longrightarrow>
    \<exists>ys xm ys' u v d. dykstra_round M prj sets res ys u = Some (Inr (xm, ys'), v) \<and>
      vec_dist M xm res = Inr d \<and> dlt d thr"
proof (induction k arbitrary: x ys s)
  case (Suc k)
  from Suc.prems obtain xm ys' u d where round: "dykstra_round M prj sets x ys s = Some (Inr (xm, ys'), u)"
      "vec_dist M xm x = Inr d"
      "(if dlt d thr then ret (True, x) else dykstra_loop M prj sets thr k xm ys' xm) u = Some (Inr (True, res), t)"
    by (auto simp: bnd_Inr_iff from_result_def)
  then show ?case
    using Suc.IH [of xm ys' u] by (cases "dlt d thr") (auto simp: run_simps, blast)
qed (simp add: run_simps)

text \<open>When Dykstra's algorithm reports convergence, its result is an iterate that one more round over all the sets moves by less than the threshold of 0.001; it is the iterate before the last one computed.\<close>

theorem dykstra_converged:
  assumes "dykstra M prj sets pt s = Some (Inr (True, res), t)"
  shows "\<exists>ys xm ys' u v d. dykstra_round M prj sets res ys u = Some (Inr (xm, ys'), v) \<and>
    vec_dist M xm res = Inr d \<and> dlt d (rnd M (1 / 1000))"
  using assms unfolding dykstra_def by (rule dykstra_loop_close)

theorem dykstra_converged_witness:
  "dykstra exact (\<lambda>hs z. from_result (proj_half exact hs z)) [\<lparr> hs_a = [Fin 1], hs_b = Fin 1 \<rparr>] [Fin 0] new_advfunc =
      Some (Inr (True, [Fin 0]), new_advfunc) \<and>
   (\<exists>ys xm ys' u v d. dykstra_round exact (\<lambda>hs z. from_result (proj_half exact hs z)) [\<lparr> hs_a = [Fin 1], hs_b = Fin 1 \<rparr>]
      [Fin 0] ys u = Some (Inr (xm, ys'), v) \<and> vec_dist exact xm [Fin 0] = Inr d \<and> dlt d (rnd exact (1 / 1000)))"
proof -
  have max: "max_iterations = Suc 999" by (simp add: max_iterations_def)
  have "dykstra exact (\<lambda>hs z. from_result (proj_half exact hs z)) [\<lparr> hs_a = [Fin 1], hs_b = Fin 1 \<rparr>] [Fin 0] new_advfunc =
      Some (Inr (True, [Fin 0]), new_advfunc)"
    unfolding dykstra_def max dykstra_loop.simps
    by (simp add: run_simps vec_op_def proj_half_def mem_half_def dot_def e_sum_exact vec_dist_def sq_norm_def
        dsub_def dadd_def dmul_def)
  with dykstra_converged [OF this] show ?thesis by blast
qed

end
