(* ===== verification/Rect_Hull.thy ===== *)
theory Rect_Hull imports Proj_Props begin

text \<open>
  Rectangular hulls: \<open>adv-interpreter-recthull.cpp\<close> and the bounding box of a polygon,
  \<open>boundingbox-convexpolygon.cpp/.hpp\<close>, with the shuffle of \<open>randperm.c\<close>. The vendored
  linear-program solver \<open>linprog\<close> and the values of \<open>rand()\<close> are parameters.
\<close>

section \<open>Boxes\<close>

record aligned_box =
  box_min :: "double list"
  box_max :: "double list"

text \<open>The default constructor of a box of dynamic size has dimension zero.\<close>

definition empty_box :: aligned_box where
  "empty_box = \<lparr> box_min = [], box_max = [] \<rparr>"

text \<open>\<open>AlignedBox::intersection\<close>: coefficient-wise, with Eigen's assertion on the sizes.\<close>

definition box_intersection :: "aligned_box \<Rightarrow> aligned_box \<Rightarrow> aligned_box result" where
  "box_intersection p q =
     rbind (vec_op dmax (box_min p) (box_min q)) (\<lambda>mn.
     rbind (vec_op dmin (box_max p) (box_max q)) (\<lambda>mx. Inr \<lparr> box_min = mn, box_max = mx \<rparr>))"

section \<open>The linear programs\<close>

datatype lp_status = Infeasible | Minimum | Unbounded | Ambiguous | Lp_Other

text \<open>The arguments of \<open>linprog\<close>: planes, number of planes, objective, next and prev.\<close>

type_synonym lp_solver =
  "double list \<Rightarrow> nat \<Rightarrow> double list \<Rightarrow> double list \<Rightarrow> nat list \<Rightarrow> nat list \<Rightarrow> lp_status \<times> double list"

text \<open>
  \<open>randperm\<close>: \<open>rs\<close> are the values of the calls of \<open>rand()\<close>, step \<open>i\<close> swaps the entries
  \<open>i\<close> and \<open>rand() % (n - i) + i\<close>.
\<close>

fun shuffle_from :: "(nat \<Rightarrow> nat) \<Rightarrow> nat \<Rightarrow> nat \<Rightarrow> nat list \<Rightarrow> nat list" where
  "shuffle_from rs i 0 p = p"
| "shuffle_from rs i (Suc k) p =
     (let j = rs i mod Suc k + i in shuffle_from rs (Suc i) k (p[j := p ! i, i := p ! j]))"

definition randperm :: "(nat \<Rightarrow> nat) \<Rightarrow> nat \<Rightarrow> nat list" where
  "randperm rs n = shuffle_from rs 0 n [0..<n]"

text \<open>The doubly linked list of the planes in the order of the permutation.\<close>

fun link_planes :: "nat list \<Rightarrow> nat list \<times> nat list \<Rightarrow> nat list \<times> nat list" where
  "link_planes (a # b # ps) (nxt, prv) =
     link_planes (b # ps) (nxt[a + 1 := b + 1], prv[b + 1 := a + 1])"
| "link_planes _ (nxt, prv) = (nxt, prv)"

definition plane_lists :: "nat \<Rightarrow> nat list \<Rightarrow> nat list \<times> nat list" where
  "plane_lists m perm =
     (let nxt = (replicate m 0)[0 := hd perm + 1];
          prv = (replicate m 0)[0 := 1234567890, hd perm + 1 := 0];
          (nxt, prv) = link_planes perm (nxt, prv)
      in (nxt[last perm + 1 := m], prv))"

definition solve_lp2 :: "platform \<Rightarrow> lp_solver \<Rightarrow> (nat \<Rightarrow> nat) \<Rightarrow> double list \<Rightarrow> double list \<Rightarrow> double list result" where
  "solve_lp2 M lp rs halves0 c =
     (let halves = [Fin 0, Fin 0, Fin 1] @ halves0;
          n_vec = c @ [Fin 0]; d_vec = [Fin 0, Fin 0, Fin 1];
          m = length halves div 3
      in if m < 2 then Inl Undefined else
        (let (nxt, prv) = plane_lists m (randperm rs (m - 1));
             (status, opt) = lp halves m n_vec d_vec nxt prv
         in case status of
              Minimum \<Rightarrow> if \<not> deq (opt ! 2) (Fin 0)
                then Inr [ddiv M (opt ! 0) (opt ! 2), ddiv M (opt ! 1) (opt ! 2)]
                else Inl (Runtime_Error ''infinity'')
            | Ambiguous \<Rightarrow> if \<not> deq (opt ! 2) (Fin 0)
                then Inr [ddiv M (opt ! 0) (opt ! 2), ddiv M (opt ! 1) (opt ! 2)]
                else Inl (Runtime_Error ''infinity'')
            | Infeasible \<Rightarrow> Inl (Runtime_Error ''infeasible'')
            | Unbounded \<Rightarrow> Inl (Runtime_Error ''unbounded'')
            | Lp_Other \<Rightarrow> Inl (Runtime_Error ''unknown'')))"

text \<open>
  \<open>computeAABBConvexPolytope\<close>: the rows \<open>A|b\<close> must have three entries (Eigen's assertions),
  are normalised, and four programs are solved. \<open>rs k\<close> are the values of \<open>rand()\<close> for the
  \<open>k\<close>-th of them.
\<close>

definition compute_aabb :: "platform \<Rightarrow> lp_solver \<Rightarrow> (nat \<Rightarrow> nat \<Rightarrow> nat) \<Rightarrow> double list list \<Rightarrow> double list \<Rightarrow>
    aligned_box result" where
  "compute_aabb M lp rs A b =
     rbind (rguard (length b = length A \<and> (\<forall>row \<in> set A. length row = 2)) Assert_Failed) (\<lambda>_.
     let halves = concat (map2 (\<lambda>row c. e_normalized M (row @ [c])) A b) in
     rbind (solve_lp2 M lp (rs 0) halves [Fin 1, Fin 0]) (\<lambda>sol.
     rbind (solve_lp2 M lp (rs 1) halves [Fin (- 1), Fin 0]) (\<lambda>sol2.
     rbind (solve_lp2 M lp (rs 2) halves [Fin 0, Fin 1]) (\<lambda>sol3.
     rbind (solve_lp2 M lp (rs 3) halves [Fin 0, Fin (- 1)]) (\<lambda>sol4.
     Inr \<lparr> box_min = [dneg (sol2 ! 0), dneg (sol4 ! 1)], box_max = [dneg (sol ! 0), dneg (sol3 ! 1)] \<rparr>)))))"

section \<open>Hulls, one definition per overload\<close>

definition hull_singleton :: "(real_expr \<Rightarrow> double interp) \<Rightarrow> real_expr list \<Rightarrow> aligned_box interp" where
  "hull_singleton ev es = bnd (eval_to_vector ev es) (\<lambda>v. ret \<lparr> box_min = v, box_max = v \<rparr>)"

definition hull_ball :: "platform \<Rightarrow> (real_expr \<Rightarrow> double interp) \<Rightarrow> real_expr list \<Rightarrow> real_expr \<Rightarrow> aligned_box interp" where
  "hull_ball M ev center radius =
     bnd (eval_to_vector ev center) (\<lambda>c. bnd (ev radius) (\<lambda>r.
       ret \<lparr> box_min = map (\<lambda>x. dsub M x r) c, box_max = map (\<lambda>x. dadd M x r) c \<rparr>))"

definition hull_rectangle :: "(real_expr \<Rightarrow> double interp) \<Rightarrow> (real_expr \<times> real_expr) list \<Rightarrow> aligned_box interp" where
  "hull_rectangle ev rect =
     bnd (mapC (\<lambda>(a, b). bnd (ev a) (\<lambda>val1. bnd (ev b) (\<lambda>val2. ret (dmin val1 val2, dmax val1 val2)))) rect) (\<lambda>ps.
       ret \<lparr> box_min = map fst ps, box_max = map snd ps \<rparr>)"

definition hull_polytope :: "platform \<Rightarrow> lp_solver \<Rightarrow> (nat \<Rightarrow> nat \<Rightarrow> nat) \<Rightarrow> (real_expr \<Rightarrow> double interp) \<Rightarrow>
    real_expr list list \<Rightarrow> real_expr list \<Rightarrow> aligned_box interp" where
  "hull_polytope M lp rs ev mx b =
     bnd (eval_to_matrix ev mx) (\<lambda>A. bnd (eval_to_vector ev b) (\<lambda>bv. from_result (compute_aabb M lp rs A bv)))"

text \<open>
  The loop over an intersection: the merged polytope constraints (\<open>None\<close> before the first
  polytope) and the box of the other sets (\<open>None\<close> before the first of them). At a second
  polytope, \<open>resize\<close> has enlarged the matrix that the comma initializer then reads, so one
  row block fills it and the next fails Eigen's assertion.
\<close>

fun hull_parts :: "(real_expr \<Rightarrow> double interp) \<Rightarrow> (set_expr \<Rightarrow> aligned_box interp) \<Rightarrow> set_expr list \<Rightarrow>
    (double list list \<times> double list) option \<Rightarrow> aligned_box option \<Rightarrow>
    ((double list list \<times> double list) option \<times> aligned_box option) interp" where
  "hull_parts ev hl [] poly box = ret (poly, box)"
| "hull_parts ev hl (st # sets) poly box = (case se_body st of
     ConvexPolytope mx b \<Rightarrow>
       bnd (eval_to_vector ev b) (\<lambda>bv. bnd (eval_to_matrix ev mx) (\<lambda>A.
         (case poly of None \<Rightarrow> hull_parts ev hl sets (Some (A, bv)) box
          | Some _ \<Rightarrow> raise Assert_Failed)))
   | _ \<Rightarrow> bnd (hl st) (\<lambda>bx. (case box of
         None \<Rightarrow> hull_parts ev hl sets poly (Some bx)
       | Some bx0 \<Rightarrow> bnd (from_result (box_intersection bx0 bx)) (\<lambda>bx1. hull_parts ev hl sets poly (Some bx1)))))"

definition identity_rows :: "nat \<Rightarrow> double list list" where
  "identity_rows n = map (\<lambda>i. map (\<lambda>j. Fin (if i = j then 1 else 0)) [0..<n]) [0..<n]"

text \<open>The constraints of the box are appended to those of the polytope; the sizes must agree.\<close>

definition hull_intersection :: "platform \<Rightarrow> lp_solver \<Rightarrow> (nat \<Rightarrow> nat \<Rightarrow> nat) \<Rightarrow> (real_expr \<Rightarrow> double interp) \<Rightarrow>
    (set_expr \<Rightarrow> aligned_box interp) \<Rightarrow> set_expr list \<Rightarrow> aligned_box interp" where
  "hull_intersection M lp rs ev hl sets =
     bnd (hull_parts ev hl sets None None) (\<lambda>(poly, box).
       let bx = (case box of None \<Rightarrow> empty_box | Some b \<Rightarrow> b) in
       (case poly of None \<Rightarrow> ret bx
        | Some (A, b) \<Rightarrow>
            let sz = length (box_min bx); eye = identity_rows sz in
            bnd (guard_comp (sz = 0 \<or> (\<forall>row \<in> set A. length row = sz)) Assert_Failed) (\<lambda>_.
            from_result (compute_aabb M lp rs (A @ eye @ map (map dneg) eye) (b @ box_max bx @ map dneg (box_min bx))))))"

fun hull_body :: "platform \<Rightarrow> lp_solver \<Rightarrow> (nat \<Rightarrow> nat \<Rightarrow> nat) \<Rightarrow> (real_expr \<Rightarrow> double interp) \<Rightarrow>
    (set_expr \<Rightarrow> aligned_box interp) \<Rightarrow> set_body \<Rightarrow> aligned_box interp" where
  "hull_body M lp rs ev hl (Singleton es) = hull_singleton ev es"
| "hull_body M lp rs ev hl (Ball cs r) = hull_ball M ev cs r"
| "hull_body M lp rs ev hl (Rectangle bs) = hull_rectangle ev bs"
| "hull_body M lp rs ev hl (ConvexPolytope mx b) = hull_polytope M lp rs ev mx b"
| "hull_body M lp rs ev hl (Intersection ss) = hull_intersection M lp rs ev hl ss"
| "hull_body M lp rs ev hl (SetCaseDistinction vs cs) = raise (Which_Error 5)"
| "hull_body M lp rs ev hl (SetReference r) = raise (Which_Error 6)"

fun rect_hull :: "platform \<Rightarrow> lp_solver \<Rightarrow> (nat \<Rightarrow> nat \<Rightarrow> nat) \<Rightarrow> nat \<Rightarrow> set_expr \<Rightarrow> aligned_box interp" where
  "rect_hull M lp rs 0 st = (\<lambda>s. None)"
| "rect_hull M lp rs (Suc n) st =
     bnd enter_real (\<lambda>_. hull_body M lp rs (eval M n) (rect_hull M lp rs n) (se_body st))"

definition rectangular_hull :: "platform \<Rightarrow> lp_solver \<Rightarrow> (nat \<Rightarrow> nat \<Rightarrow> nat) \<Rightarrow> nat \<Rightarrow> set_expr \<Rightarrow> value_map \<Rightarrow>
    aligned_box interp" where
  "rectangular_hull M lp rs n st env = bnd (start_call env) (\<lambda>_. rect_hull M lp rs n st)"

end
