(* ===== verification/Rect_Hull_Props.thy ===== *)
theory Rect_Hull_Props imports Rect_Hull "HOL-Library.Multiset" begin

text \<open>
  Properties of the rectangular hull: the shuffle is a permutation, the linked list of the
  planes visits each once, the box of a rectangle and of a ball, and the failure on two
  polytopes.
\<close>

section \<open>The shuffle and the linked list\<close>

lemma shuffle_from_mset:
  "i + k = length p \<Longrightarrow> mset (shuffle_from rs i k p) = mset p"
proof (induction k arbitrary: i p)
  case (Suc k)
  let ?j = "rs i mod Suc k + i"
  have "rs i mod Suc k < Suc k" by simp
  then have "?j < length p" "i < length p" using Suc.prems by linarith+
  then have "mset (p[?j := p ! i, i := p ! ?j]) = mset p" by (intro mset_swap)
  with Suc.IH [of "Suc i" "p[?j := p ! i, i := p ! ?j]"] Suc.prems show ?case
    by (simp add: Let_def)
qed simp

lemma randperm_mset: "mset (randperm rs n) = mset [0..<n]"
  by (simp add: randperm_def shuffle_from_mset)

lemma randperm_facts: "distinct (randperm rs n)" "set (randperm rs n) = {..<n}" "length (randperm rs n) = n"
proof -
  have "mset (randperm rs n) = mset [0..<n]" by (rule randperm_mset)
  then show "distinct (randperm rs n)" "set (randperm rs n) = {..<n}" "length (randperm rs n) = n"
    by (metis distinct_upt mset_eq_imp_distinct_iff)
      (metis atLeast_upt mset_eq_setD randperm_mset, metis diff_zero length_upt mset_eq_length randperm_mset)
qed

text \<open>The list of entries that \<open>next\<close> runs through: position 0, then the permuted planes.\<close>

lemma link_lengths:
  "length (fst (link_planes (a # ps) (nxt, prv))) = length nxt \<and> length (snd (link_planes (a # ps) (nxt, prv))) = length prv"
  by (induction ps arbitrary: a nxt prv) simp_all

lemma next_untouched:
  "x \<notin> Suc ` set (butlast (a # ps)) \<Longrightarrow> fst (link_planes (a # ps) (nxt, prv)) ! x = nxt ! x"
proof (induction ps arbitrary: a nxt prv)
  case (Cons b ps)
  then have "x \<notin> Suc ` set (butlast (b # ps))" and "x \<noteq> a + 1" by simp_all
  then show ?case using Cons.IH [of b "nxt[a + 1 := b + 1]" "prv[b + 1 := a + 1]"] by simp
qed simp
lemma prev_untouched:
  "x \<notin> Suc ` set ps \<Longrightarrow> snd (link_planes (a # ps) (nxt, prv)) ! x = prv ! x"
proof (induction ps arbitrary: a nxt prv)
  case (Cons b ps)
  then show ?case using Cons.IH [of b "nxt[a + 1 := b + 1]" "prv[b + 1 := a + 1]"] by simp
qed simp
lemma links:
  "distinct (a # ps) \<Longrightarrow> Suc ` set (a # ps) \<subseteq> {..<length nxt} \<Longrightarrow> length prv = length nxt \<Longrightarrow> i < length ps \<Longrightarrow>
    fst (link_planes (a # ps) (nxt, prv)) ! Suc ((a # ps) ! i) = Suc (ps ! i) \<and>
    snd (link_planes (a # ps) (nxt, prv)) ! Suc (ps ! i) = Suc ((a # ps) ! i)"
proof (induction ps arbitrary: a nxt prv i)
  case (Cons b ps)
  show ?case
  proof (cases i)
    case 0
    have "Suc a \<notin> Suc ` set (butlast (b # ps))" "Suc b \<notin> Suc ` set ps"
      using Cons.prems(1) in_set_butlastD [of a "b # ps"] by (metis distinct.simps(2) imageE nat.inject, auto)
    then show ?thesis using 0 Cons.prems(2,3)
        next_untouched [of "Suc a" b ps "nxt[a + 1 := b + 1]" "prv[b + 1 := a + 1]"]
        prev_untouched [of "Suc b" ps b "nxt[a + 1 := b + 1]" "prv[b + 1 := a + 1]"]
      by simp
  next
    case (Suc k)
    with Cons.prems Cons.IH [of b "nxt[a + 1 := b + 1]" "prv[b + 1 := a + 1]" k] show ?thesis by simp
  qed
qed simp

lemma forward_links:
  assumes "length nxt = m" "distinct (a # ps)" "last (a # ps) < m - 1" "nxt ! 0 = Suc a"
    and links: "\<And>i. i < length ps \<Longrightarrow> nxt ! Suc ((a # ps) ! i) = Suc (ps ! i)"
  shows "map ((!) (nxt[Suc (last (a # ps)) := m])) (0 # map Suc (a # ps)) = map Suc (a # ps) @ [m]"
proof (rule nth_equalityI)
  have shifted: "map f (0 # map Suc L) ! Suc k = f (Suc (L ! k))" if "k < length L" for f :: "nat \<Rightarrow> nat" and L k
    using that by simp
  fix i assume "i < length (map ((!) (nxt[Suc (last (a # ps)) := m])) (0 # map Suc (a # ps)))"
  then consider "i = 0" | k where "i = Suc k" "k < length ps" | "i = Suc (length ps)"
    by (cases i) (auto simp: less_Suc_eq)
  then show "map ((!) (nxt[Suc (last (a # ps)) := m])) (0 # map Suc (a # ps)) ! i = (map Suc (a # ps) @ [m]) ! i"
  proof cases
    case 1
    with assms(4) show ?thesis by simp
  next
    case 2
    have "(a # ps) ! k \<noteq> (a # ps) ! length ps"
      using assms(2) 2(2) by (metis length_Cons lessI less_Suc_eq nat_neq_iff nth_eq_iff_index_eq)
    moreover have "(a # ps) ! length ps = last (a # ps)" by (simp add: last_conv_nth)
    ultimately have "(a # ps) ! k \<noteq> last (a # ps)" by metis
    then have "nxt[Suc (last (a # ps)) := m] ! Suc ((a # ps) ! k) = Suc (ps ! k)"
      using links [OF 2(2)] by simp
    with 2 shifted [of k "a # ps"] show ?thesis by (simp add: nth_append del: list.map)
  next
    case 3
    have "(a # ps) ! length ps = last (a # ps)" by (simp add: last_conv_nth)
    then have "nxt[Suc (last (a # ps)) := m] ! Suc ((a # ps) ! length ps) = m"
      using nth_list_update_eq [of "Suc (last (a # ps))" nxt m] assms(1,3) by simp_all
    with 3 shifted [of "length ps" "a # ps"] show ?thesis by (simp add: nth_append del: list.map)
  qed
qed simp

lemma backward_links:
  assumes "prv ! Suc a = 0" and links: "\<And>i. i < length ps \<Longrightarrow> prv ! Suc (ps ! i) = Suc ((a # ps) ! i)"
  shows "map ((!) prv) (map Suc (a # ps)) = butlast (0 # map Suc (a # ps))"
proof (rule nth_equalityI)
  fix i assume "i < length (map ((!) prv) (map Suc (a # ps)))"
  moreover from this have "butlast (0 # map Suc (a # ps)) ! i = (0 # map Suc (a # ps)) ! i"
    by (intro nth_butlast) (simp del: butlast.simps)
  ultimately show "map ((!) prv) (map Suc (a # ps)) ! i = butlast (0 # map Suc (a # ps)) ! i"
    using assms(1) links [of "i - 1"] nth_map [of "i - 1" "a # ps" Suc]
    by (cases i) (auto simp del: butlast.simps)
qed simp

text \<open>For every sequence of random numbers and at least one plane, \<open>randperm\<close> yields a permutation and \<open>solve_lp2\<close> links the planes into a doubly linked list that starts at the trivial plane 0, visits every plane exactly once in the permuted order and ends with the marker \<open>m\<close>.\<close>

theorem planes_linked:
  assumes "2 \<le> m"
  shows "let perm = randperm rs (m - 1); (nxt, prv) = plane_lists m perm in
    mset perm = mset [0..<m - 1] \<and>
    map ((!) nxt) (0 # map Suc perm) = map Suc perm @ [m] \<and>
    map ((!) prv) (map Suc perm) = butlast (0 # map Suc perm)"
proof -
  define perm where "perm = randperm rs (m - 1)"
  have perm: "distinct perm" "set perm = {..<m - 1}" "length perm = m - 1"
    by (simp_all add: perm_def randperm_facts)
  then obtain a ps where ps: "perm = a # ps" using assms by (cases perm) auto
  define n0 where "n0 = (replicate m (0::nat))[0 := Suc a]"
  define p0 where "p0 = (replicate m (0::nat))[0 := 1234567890, Suc a := 0]"
  obtain nxt prv where np: "link_planes (a # ps) (n0, p0) = (nxt, prv)" by fastforce
  have len: "length n0 = m" "length p0 = m" "length nxt = m" "length prv = m"
    using link_lengths [of a ps n0 p0] np by (auto simp: n0_def p0_def)
  have all: "x < m - 1" if "x \<in> set (a # ps)" for x using perm(2) ps that by auto
  have last: "last (a # ps) < m - 1" by (rule all) (rule last_in_set, simp)
  have sub: "Suc ` set (a # ps) \<subseteq> {..<length n0}" using all len by fastforce
  have links: "nxt ! Suc ((a # ps) ! i) = Suc (ps ! i) \<and> prv ! Suc (ps ! i) = Suc ((a # ps) ! i)" if "i < length ps" for i
    using links [OF _ sub _ that, of p0] perm(1) ps len np by simp
  have start: "nxt ! 0 = Suc a" "prv ! Suc a = 0"
    using next_untouched [of 0 a ps n0 p0] prev_untouched [of "Suc a" ps a n0 p0] np assms perm(1) ps all [of a]
    by (auto simp: n0_def p0_def)
  have "map ((!) (nxt[Suc (last (a # ps)) := m])) (0 # map Suc (a # ps)) = map Suc (a # ps) @ [m]"
    using forward_links [of nxt m a ps] links start last perm(1) ps len by simp
  moreover have "map ((!) prv) (map Suc (a # ps)) = butlast (0 # map Suc (a # ps))"
    using backward_links [of prv a ps] links start by simp
  ultimately show ?thesis
    using randperm_mset [of rs "m - 1"] np
    by (simp only: Let_def plane_lists_def perm_def [symmetric]) (simp add: ps n0_def p0_def)
qed

theorem planes_linked_witness:
  "let perm = randperm (\<lambda>i. i + 1) 3; (nxt, prv) = plane_lists 4 perm in
    map ((!) nxt) (0 # map Suc perm) = map Suc perm @ [4]"
  using planes_linked [of 4 "\<lambda>i. i + 1"] by (simp add: Let_def split_def)

section \<open>Hulls of single sets\<close>

lemma refines_bnd_Inl: "refines env k c (Inl e) \<Longrightarrow> refines env k (bnd c f) (Inl e)"
  using refines_bnd_same [of env k c "Inl e" f "\<lambda>_. Inl e"] by simp

lemma rectangular_hull_run:
  assumes "refines env k (hull_body M lp rs (eval M n) (rect_hull M lp rs n) (se_body st)) r" "k < 10000" "adv_valid s"
  shows "\<exists>t. rectangular_hull M lp rs (Suc n) st env s = Some (r, t)"
proof -
  have "refines env (Suc k) (rect_hull M lp rs (Suc n) st) r"
    using refines_enter_real [OF assms(1)] by simp
  from refines_run [OF this, of s] assms(2,3) show ?thesis
    by (auto simp: rectangular_hull_def run_simps start_call_run simp del: rect_hull.simps)
qed

lemma refines_hull_box:
  "refines env (2 * length bs)
     (mapC (\<lambda>(a, b). bnd (eval M (Suc n) a) (\<lambda>val1. bnd (eval M (Suc n) b) (\<lambda>val2. ret (dmin val1 val2, dmax val1 val2))))
        (map (\<lambda>(a, b). (real_lit (Fin a), real_lit (Fin b))) bs))
     (Inr (map (\<lambda>(a, b). (Fin (min a b), Fin (max a b))) bs))"
proof (induction bs)
  case (Cons ab bs)
  obtain a b where ab: "ab = (a, b)" by (cases ab)
  let ?tail = "mapC (\<lambda>(a, b). bnd (eval M (Suc n) a) (\<lambda>val1. bnd (eval M (Suc n) b) (\<lambda>val2. ret (dmin val1 val2, dmax val1 val2))))
        (map (\<lambda>(a, b). (real_lit (Fin a), real_lit (Fin b))) bs)"
  have "refines env ((1 + (1 + 0)) + (2 * length bs + 0))
      (bnd (bnd (eval M (Suc n) (real_lit (Fin a))) (\<lambda>val1. bnd (eval M (Suc n) (real_lit (Fin b))) (\<lambda>val2.
         ret (dmin val1 val2, dmax val1 val2)))) (\<lambda>y. bnd ?tail (\<lambda>ys. ret (y # ys))))
      (rbind (rbind (Inr (Fin a)) (\<lambda>v1. rbind (Inr (Fin b)) (\<lambda>v2. Inr (dmin v1 v2, dmax v1 v2)))) (\<lambda>y.
         rbind (Inr (map (\<lambda>(a, b). (Fin (min a b), Fin (max a b))) bs)) (\<lambda>ys. Inr (y # ys))))"
    by (intro refines_bnd refines_literal refines_ret Cons.IH)
  then show ?case by (simp add: ab dmin_dmax_Fin del: eval.simps)
qed (simp add: refines_ret)

text \<open>The hull of a rectangle of finite literal bounds is the box of the smaller and the larger bound of every coordinate, whichever the order in which they are given.\<close>

theorem hull_of_rectangle:
  assumes "adv_valid s" and "2 * length bs < 10000"
  shows "\<exists>t. rectangular_hull M lp rs (Suc (Suc n)) (literal_box bs) env s =
    Some (Inr \<lparr> box_min = map (\<lambda>(a, b). Fin (min a b)) bs, box_max = map (\<lambda>(a, b). Fin (max a b)) bs \<rparr>, t)"
proof -
  have "refines env (2 * length bs + 0) (hull_body M lp rs (eval M (Suc n)) (rect_hull M lp rs (Suc n)) (se_body (literal_box bs)))
      (rbind (Inr (map (\<lambda>(a, b). (Fin (min a b), Fin (max a b))) bs)) (\<lambda>ps.
        Inr \<lparr> box_min = map fst ps, box_max = map snd ps \<rparr>))"
    unfolding literal_box_def set_expr.sel hull_body.simps hull_rectangle_def
    by (intro refines_bnd refines_hull_box refines_ret)
  from rectangular_hull_run [OF this] show ?thesis
    using assms by (simp add: split_def comp_def del: rect_hull.simps)
qed

theorem hull_of_rectangle_witness:
  "\<exists>t. rectangular_hull exact (\<lambda>_ _ _ _ _ _. (Lp_Other, [])) (\<lambda>_ _. 0) (Suc (Suc 0)) (literal_box [(3, 1)]) Map.empty
      (new_advfunc\<lparr>adv_valid := True\<rparr>) = Some (Inr \<lparr> box_min = [Fin 1], box_max = [Fin 3] \<rparr>, t)"
  using hull_of_rectangle [of "new_advfunc\<lparr>adv_valid := True\<rparr>" "[(3, 1)]" exact] by simp

text \<open>The ball of a finite literal centre and radius.\<close>

definition literal_ball :: "real list \<Rightarrow> real \<Rightarrow> set_expr" where
  "literal_ball c r = set_of_body (Ball (map (\<lambda>x. real_lit (Fin x)) c) (real_lit (Fin r)))"

lemma calls_literals: "sum_list (map calls_real (map (\<lambda>x. real_lit (Fin x)) c)) = length c"
  by (induction c) auto

lemma rmap_literals: "rmap (den_real M env) (map (\<lambda>x. real_lit (Fin x)) c) = Inr (map Fin c)"
  by (induction c) auto

lemma member_ball_coordinate:
  assumes "length c = length x" "sq_dist_real c x \<le> r\<^sup>2" "0 \<le> r" "i < length x"
  shows "c ! i - r \<le> x ! i \<and> x ! i \<le> c ! i + r"
proof -
  have "(c ! i - x ! i)\<^sup>2 \<in> set (map2 (\<lambda>a b. (a - b)\<^sup>2) c x)"
    using assms by (auto simp: set_zip)
  then have "(c ! i - x ! i)\<^sup>2 \<le> sq_dist_real c x"
    unfolding sq_dist_real_def by (intro member_le_sum_list) (auto simp: split_def)
  with assms(2) have "(c ! i - x ! i)\<^sup>2 \<le> r\<^sup>2" by linarith
  with assms(3) have "\<bar>c ! i - x ! i\<bar> \<le> r" by (metis abs_le_square_iff abs_of_nonneg)
  then show ?thesis by auto
qed

lemma has_val_sq_dist:
  "length c = length x \<Longrightarrow> has_val (sq_dist exact (map Fin c) (map Fin x)) (sq_dist_real c x)"
  unfolding sq_dist_def sq_dist_real_def
proof (rule has_val_e_sum, induction c x rule: list_induct2)
  case (Cons a c b x)
  have "has_val (dsub exact (Fin a) (Fin b)) (a - b)" by (intro val_intros)
  with Cons.IH show ?case by (simp add: Let_def power2_eq_square has_val_mul)
qed simp

text \<open>In exact arithmetic, for a ball of literal centre and radius not negative, every point that \<open>testMembership\<close> accepts lies in the box \<open>rectangularHull\<close> computes.\<close>

theorem hull_contains_ball:
  assumes "length c = length x" and "0 \<le> r" and "length c + 2 < 10000"
    and "test_membership exact (length c + 2) (literal_ball c r) (map Fin x) env (new_advfunc\<lparr>adv_valid := True\<rparr>) =
      Some (Inr True, t)"
  shows "\<exists>u lo hi. rectangular_hull exact lp rs (length c + 2) (literal_ball c r) env (new_advfunc\<lparr>adv_valid := True\<rparr>) =
      Some (Inr \<lparr> box_min = lo, box_max = hi \<rparr>, u) \<and>
    list_all2 (\<lambda>l y. dle l (Fin y)) lo x \<and> list_all2 (\<lambda>h y. dle (Fin y) h) hi x"
proof -
  let ?b = "Ball (map (\<lambda>x. real_lit (Fin x)) c) (real_lit (Fin r))"
  have rf: "ref_free_set (literal_ball c r)" "calls_set (literal_ball c r) = length c + 2"
    by (simp add: literal_ball_def) (simp add: literal_ball_def calls_literals del: map_map)
  have den: "den_set exact env (literal_ball c r) (map Fin x) =
      Inr (dle (sq_dist exact (map Fin c) (map Fin x)) (dmul exact (Fin r) (Fin r)))"
    using assms(1) by (simp add: literal_ball_def rguard_def rmap_literals)
  have "has_val (dmul exact (Fin r) (Fin r)) (r\<^sup>2)"
    using has_val_mul [OF has_val_Fin has_val_Fin] by (simp add: power2_eq_square)
  moreover have "dle (sq_dist exact (map Fin c) (map Fin x)) (dmul exact (Fin r) (Fin r))"
    using membership_denotes_lemma [of "new_advfunc\<lparr>adv_valid := True\<rparr>" "literal_ball c r" "length c + 2" exact "map Fin x" env]
      rf assms(3,4) den by simp
  ultimately have inside: "sq_dist_real c x \<le> r\<^sup>2"
    using has_val_sq_dist [OF assms(1)] by (simp add: dle_has_val)
  have vec: "refines env (length c) (eval_to_vector (eval exact (Suc (length c))) (map (\<lambda>x. real_lit (Fin x)) c)) (Inr (map Fin c))"
    using refines_vector [OF interpreter_implements, of "map (\<lambda>x. real_lit (Fin x)) c" "Suc (length c)" env exact]
    unfolding calls_literals rmap_literals by auto
  have "refines env (length c + (1 + 0)) (hull_body exact lp rs (eval exact (Suc (length c))) (rect_hull exact lp rs (Suc (length c)))
      (se_body (literal_ball c r)))
      (rbind (Inr (map Fin c)) (\<lambda>c. rbind (Inr (Fin r)) (\<lambda>r.
         Inr \<lparr> box_min = map (\<lambda>x. dsub exact x r) c, box_max = map (\<lambda>x. dadd exact x r) c \<rparr>)))"
    unfolding literal_ball_def set_expr.sel hull_body.simps hull_ball_def
    by (intro refines_bnd refines_ret vec refines_literal)
  from rectangular_hull_run [OF this, of "new_advfunc\<lparr>adv_valid := True\<rparr>"] assms(3)
  obtain u where "rectangular_hull exact lp rs (Suc (Suc (length c))) (literal_ball c r) env (new_advfunc\<lparr>adv_valid := True\<rparr>) =
      Some (Inr \<lparr> box_min = map (\<lambda>x. dsub exact (Fin x) (Fin r)) c, box_max = map (\<lambda>x. dadd exact (Fin x) (Fin r)) c \<rparr>, u)"
    by (auto simp: comp_def simp del: rect_hull.simps)
  moreover have "dle (dsub exact (Fin (c ! i)) (Fin r)) (Fin (x ! i)) \<and> dle (Fin (x ! i)) (dadd exact (Fin (c ! i)) (Fin r))"
    if "i < length x" for i
    using member_ball_coordinate [OF assms(1) inside assms(2) that]
    by (simp add: dle_has_val [OF has_val_sub [OF has_val_Fin has_val_Fin] has_val_Fin]
        dle_has_val [OF has_val_Fin has_val_add [OF has_val_Fin has_val_Fin]])
  ultimately show ?thesis
    using assms(1) by (simp add: list_all2_conv_all_nth del: rect_hull.simps)
qed

theorem hull_contains_ball_witness:
  "\<exists>u lo hi. rectangular_hull exact (\<lambda>_ _ _ _ _ _. (Lp_Other, [])) (\<lambda>_ _. 0) (length [1::real] + 2) (literal_ball [1] 2) Map.empty
      (new_advfunc\<lparr>adv_valid := True\<rparr>) = Some (Inr \<lparr> box_min = lo, box_max = hi \<rparr>, u) \<and>
    list_all2 (\<lambda>l y. dle l (Fin y)) lo [3] \<and> list_all2 (\<lambda>h y. dle (Fin y) h) hi [3]"
proof -
  have "ref_free_set (literal_ball [1] 2)" "calls_set (literal_ball [1] 2) = 3"
    by (simp_all add: literal_ball_def)
  then obtain t where "test_membership exact (length [1::real] + 2) (literal_ball [1] 2) (map Fin [3]) Map.empty
      (new_advfunc\<lparr>adv_valid := True\<rparr>) = Some (Inr True, t)"
    using membership_denotes_lemma [of "new_advfunc\<lparr>adv_valid := True\<rparr>" "literal_ball [1] 2" 3 exact "[Fin 3]" Map.empty]
    by (auto simp: literal_ball_def rguard_def sq_dist_def e_sum_exact dsub_def dadd_def dmul_def Let_def numeral_3_eq_3)
  then show ?thesis by (intro hull_contains_ball) auto
qed

lemma refines_init_vector:
  assumes "length v \<le> n"
  shows "refines env (length v) (eval_to_vector (eval M n) (init_vector v)) (Inr v)"
proof -
  have "sum_list (map calls_real (init_vector v)) = length v" "rmap (den_real M env) (init_vector v) = Inr v"
    "\<forall>e \<in> set (init_vector v). ref_free_real e"
    by (induction v) (auto simp: init_vector_def)
  with refines_vector [OF interpreter_implements, of "init_vector v" n env M] assms show ?thesis by simp
qed

lemma refines_init_matrix:
  assumes "rectangular mx k" "length mx * k \<le> n"
  shows "refines env (length mx * k) (eval_to_matrix (eval M n) (init_matrix mx)) (Inr mx)"
proof -
  have row: "sum_list (map calls_real (map real_lit v)) = length v" "rmap (den_real M env) (map real_lit v) = Inr v" for v
    by (induction v) auto
  have "(\<Sum>r\<leftarrow>rows. sum_list (map calls_real (map real_lit r))) = length rows * k"
    if "\<forall>r \<in> set rows. length r = k" for rows
    using that by (induction rows) (simp_all add: row del: map_map)
  then have "(\<Sum>r\<leftarrow>init_matrix mx. sum_list (map calls_real r)) = length mx * k"
    using assms(1) by (simp add: init_matrix_def rectangular_def comp_def)
  moreover have "rmap (rmap (den_real M env)) (init_matrix mx) = Inr mx"
    by (induction mx) (auto simp: init_matrix_def row)
  moreover have "\<not> fst (check_capnp_matrix (init_matrix mx))"
    using rectangular_init_matrix [OF assms(1)] by (auto simp: check_capnp_matrix_ok)
  moreover have "\<forall>row \<in> set (init_matrix mx). \<forall>e \<in> set row. ref_free_real e" by (auto simp: init_matrix_def)
  ultimately show ?thesis
    using refines_matrix [OF interpreter_implements, of "init_matrix mx" n env M] assms(2) by (simp add: rguard_def)
qed

text \<open>\<open>rectangularHull\<close> fails on every intersection that starts with two polytopes of literals: enlarging the merged matrix with \<open>resize\<close> before reading it in the comma initializer leaves no room for the second block, which Eigen's assertion reports.\<close>

theorem two_polytopes_fail:
  assumes "rectangular A c" and "rectangular A' c'" and "adv_valid s"
    and "length A * c + length b + length A' * c' + length b' < 10000"
    and "length A * c + length b + length A' * c' + length b' < n"
  shows "\<exists>t. rectangular_hull M lp rs (Suc n) (set_of_body (Intersection
      (set_of_body (ConvexPolytope (init_matrix A) (init_vector b)) #
       set_of_body (ConvexPolytope (init_matrix A') (init_vector b')) # sets))) env s = Some (Inl Assert_Failed, t)"
proof -
  let ?P = "set_of_body (ConvexPolytope (init_matrix A) (init_vector b))"
  let ?Q = "set_of_body (ConvexPolytope (init_matrix A') (init_vector b'))"
  have "refines env (length b + (length A * c + (length b' + (length A' * c' + 0))))
      (hull_parts (eval M n) (rect_hull M lp rs n) (?P # ?Q # sets) None None)
      (rbind (Inr b) (\<lambda>_. rbind (Inr A) (\<lambda>_. rbind (Inr b') (\<lambda>_. rbind (Inr A') (\<lambda>_. Inl Assert_Failed)))))"
    unfolding hull_parts.simps set_expr.sel set_body.case option.case
    by (intro refines_bnd refines_init_vector refines_init_matrix refines_raise assms(1,2)) (use assms(5) in auto)
  then have "refines env (length b + (length A * c + (length b' + length A' * c')))
      (hull_intersection M lp rs (eval M n) (rect_hull M lp rs n) (?P # ?Q # sets)) (Inl Assert_Failed)"
    unfolding hull_intersection_def by (intro refines_bnd_Inl) simp
  then have "refines env (length b + (length A * c + (length b' + length A' * c')))
      (hull_body M lp rs (eval M n) (rect_hull M lp rs n) (se_body (set_of_body (Intersection (?P # ?Q # sets))))) (Inl Assert_Failed)"
    by (simp only: set_expr.sel hull_body.simps)
  then show ?thesis
    by (rule rectangular_hull_run) (use assms(3,4) in auto)
qed

theorem two_polytopes_fail_witness:
  "\<exists>t. rectangular_hull ieee64 (\<lambda>_ _ _ _ _ _. (Lp_Other, [])) (\<lambda>_ _. 0) (Suc 7) (set_of_body (Intersection
      (set_of_body (ConvexPolytope (init_matrix [[Fin 1, Fin 0]]) (init_vector [Fin 1])) #
       set_of_body (ConvexPolytope (init_matrix [[Fin 0, Fin 1]]) (init_vector [Fin 1])) # []))) Map.empty
      (new_advfunc\<lparr>adv_valid := True\<rparr>) = Some (Inl Assert_Failed, t)"
  by (rule two_polytopes_fail [of _ 2 _ 2]) (simp_all add: rectangular_def)

end
