(* ===== verification/Serialization.thy ===== *)
theory Serialization imports Schema begin

text \<open>
  \<open>commelec-api/serialization.cpp\<close> and \<open>asio-kj-interop.hpp\<close>: the two output streams that
  Cap'n Proto writes a message into, and the packing of a message into a caller's buffer.
  Cap'n Proto itself is a parameter, the record \<open>capnp_lib\<close>.
\<close>

unbundle bit_operations_syntax

section \<open>Sizes\<close>

type_synonym byte = "8 word"

text \<open>Conversion of an \<open>int32_t\<close> or of an exact value to \<open>size_t\<close>.\<close>

definition to_size_t :: "int \<Rightarrow> nat" where
  "to_size_t i = nat (i mod 2 ^ 64)"

lemma to_size_t_small: "0 \<le> i \<Longrightarrow> i < 2 ^ 64 \<Longrightarrow> to_size_t i = nat i"
  by (simp add: to_size_t_def)

text \<open>\<open>messageByteSize\<close>, on the byte sizes of the segments: the table of sizes, then the segments.\<close>

definition message_byte_size :: "nat list \<Rightarrow> nat" where
  "message_byte_size segs =
     to_size_t (4 * ((int (length segs) + 2) AND NOT 1) + int (sum_list segs))"

lemma push_drop_bit: "push_bit n (drop_bit n (i :: int)) = i AND NOT (mask n)"
  by (rule bit_eqI) (auto simp: bit_simps)

lemma and_not_one: "(i :: int) AND - 2 = 2 * (i div 2)"
  using push_drop_bit [of 1 i] by (simp add: push_bit_eq_mult drop_bit_eq_div)

text \<open>
  The stream framing of Cap'n Proto: a 32-bit count, one 32-bit size for each segment, padding to a
  multiple of 8, then the segments.
\<close>

definition framing_size :: "nat list \<Rightarrow> nat" where
  "framing_size segs = (let t = 4 + 4 * length segs in t + (8 - t mod 8) mod 8) + sum_list segs"

lemma table_size: "int (let t = 4 + 4 * n in t + (8 - t mod 8) mod 8) = 4 * ((int n + 2) AND NOT 1)"
proof -
  obtain k where "n = 2 * k \<or> n = 2 * k + 1" by (metis oddE evenE)
  then show ?thesis
  proof
    assume "n = 2 * k"
    then have "(4 + 4 * n) mod 8 = 4" by presburger
    with \<open>n = 2 * k\<close> show ?thesis by (simp add: and_not_one Let_def)
  next
    assume "n = 2 * k + 1"
    then have "(4 + 4 * n) mod 8 = 0" by presburger
    with \<open>n = 2 * k + 1\<close> show ?thesis by (simp add: and_not_one Let_def)
  qed
qed

section \<open>Output streams\<close>

text \<open>
  The interface of \<open>kj::OutputStream\<close>: a write of some bytes, allowed under \<open>ok\<close>, succeeds,
  keeps the invariant and appends the bytes to what the stream holds.
\<close>

fun run_ops :: "('op \<Rightarrow> 's \<Rightarrow> 's result) \<Rightarrow> 'op list \<Rightarrow> 's \<Rightarrow> 's result" where
  "run_ops wr [] s = Inr s"
| "run_ops wr (p # ps) s = rbind (wr p s) (run_ops wr ps)"

text \<open>A sequence of writes each of which is allowed when it happens.\<close>

fun allowed :: "('op \<Rightarrow> 's \<Rightarrow> 's result) \<Rightarrow> ('op \<Rightarrow> 's \<Rightarrow> bool) \<Rightarrow> 'op list \<Rightarrow> 's \<Rightarrow> bool" where
  "allowed wr ok [] s = True"
| "allowed wr ok (p # ps) s = (ok p s \<and> (case wr p s of Inl e \<Rightarrow> True | Inr t \<Rightarrow> allowed wr ok ps t))"

locale out_stream =
  fixes wr :: "'op \<Rightarrow> 's \<Rightarrow> 's result"
    and ok :: "'op \<Rightarrow> 's \<Rightarrow> bool"
    and inv :: "'s \<Rightarrow> bool"
    and content :: "'s \<Rightarrow> byte list"
    and bytes :: "'op \<Rightarrow> byte list"
  assumes write_appends: "inv s \<Longrightarrow> ok p s \<Longrightarrow> \<exists>t. wr p s = Inr t \<and> inv t \<and> content t = content s @ bytes p"
begin

lemma run_appends:
  "inv s \<Longrightarrow> allowed wr ok ps s \<Longrightarrow>
    \<exists>t. run_ops wr ps s = Inr t \<and> inv t \<and> content t = content s @ concat (map bytes ps)"
proof (induction ps arbitrary: s)
  case (Cons p ps)
  then obtain t where t: "wr p s = Inr t" "inv t" "content t = content s @ bytes p"
    using write_appends by force
  with Cons.IH [of t] Cons.prems show ?case by auto
qed simp

end

section \<open>VectorBuffer\<close>

record vector_buffer =
  vec :: "byte list"
  bytes_written :: nat

definition new_vector_buffer :: "byte list \<Rightarrow> vector_buffer" where
  "new_vector_buffer v = \<lparr> vec = v, bytes_written = 0 \<rparr>"

definition available :: "vector_buffer \<Rightarrow> nat" where
  "available b = to_size_t (int (length (vec b)) - int (bytes_written b))"

definition overwrite :: "'a list \<Rightarrow> nat \<Rightarrow> 'a list \<Rightarrow> 'a list" where
  "overwrite v n bs = take n v @ bs @ drop (n + length bs) v"

text \<open>
  A call of \<open>write\<close>: with the address that \<open>getWriteBuffer\<close> returned, after the caller has put
  the bytes there (\<open>Direct\<close>), or with bytes elsewhere in memory (\<open>Copied\<close>). A direct write
  beyond the end of the vector has already corrupted memory.
\<close>

datatype stream_write = Direct "byte list" | Copied "byte list"

fun written :: "stream_write \<Rightarrow> byte list" where
  "written (Direct bs) = bs"
| "written (Copied bs) = bs"

fun vb_write :: "stream_write \<Rightarrow> vector_buffer \<Rightarrow> vector_buffer result" where
  "vb_write (Direct bs) b =
     (if length bs \<le> available b
      then Inr (b\<lparr>vec := overwrite (vec b) (bytes_written b) bs, bytes_written := bytes_written b + length bs\<rparr>)
      else Inl Undefined)"
| "vb_write (Copied bs) b =
     (let v = (if length bs > available b then vec b @ replicate (length bs) 0 else vec b)
      in Inr (b\<lparr>vec := overwrite v (bytes_written b) bs, bytes_written := bytes_written b + length bs\<rparr>))"

definition vb_inv :: "vector_buffer \<Rightarrow> bool" where
  "vb_inv b \<longleftrightarrow> bytes_written b \<le> length (vec b)"

definition vb_content :: "vector_buffer \<Rightarrow> byte list" where
  "vb_content b = take (bytes_written b) (vec b)"

text \<open>Vectors are shorter than \<open>2 ^ 64\<close>; a direct write stays within the buffer it was given.\<close>

fun vb_ok :: "stream_write \<Rightarrow> vector_buffer \<Rightarrow> bool" where
  "vb_ok (Direct bs) b = (length (vec b) < 2 ^ 64 \<and> length bs \<le> length (vec b) - bytes_written b)"
| "vb_ok (Copied bs) b = (length (vec b) < 2 ^ 64)"

lemma available_eq: "vb_inv b \<Longrightarrow> length (vec b) < 2 ^ 64 \<Longrightarrow> available b = length (vec b) - bytes_written b"
  by (simp add: available_def vb_inv_def to_size_t_small)

lemma length_overwrite: "n + length bs \<le> length v \<Longrightarrow> length (overwrite v n bs) = length v"
  by (simp add: overwrite_def)

lemma take_overwrite: "n \<le> length v \<Longrightarrow> take (n + length bs) (overwrite v n bs) = take n v @ bs"
  by (simp add: overwrite_def)

interpretation vb: out_stream vb_write vb_ok vb_inv vb_content written
proof (unfold_locales, goal_cases)
  case (1 b p)
  show ?case
  proof (cases p)
    case (Direct bs)
    with 1 show ?thesis
      by (auto simp: available_eq vb_inv_def vb_content_def length_overwrite take_overwrite)
  next
    case (Copied bs)
    let ?v = "if length bs > available b then vec b @ replicate (length bs) 0 else vec b"
    have "bytes_written b + length bs \<le> length ?v" "take (bytes_written b) ?v = take (bytes_written b) (vec b)"
      "bytes_written b \<le> length ?v"
      using 1 Copied by (auto simp: available_eq vb_inv_def)
    with Copied show ?thesis
      by (auto simp: Let_def vb_inv_def vb_content_def length_overwrite take_overwrite simp del: vb_ok.simps)
  qed
qed

section \<open>Packing\<close>

text \<open>
  What is used of Cap'n Proto: the sizes of the segments of a message; the writes its packed
  writer issues on a stream whose vector has the given size; the writes (addresses and sizes)
  of the unpacked writer; and the two readers, which fail with an exception (\<open>None\<close>).
\<close>

record 'm capnp_lib =
  segment_sizes :: "'m \<Rightarrow> nat list"
  packed_writes :: "'m \<Rightarrow> nat \<Rightarrow> stream_write list"
  read_packed :: "byte list \<Rightarrow> 'm option"
  flat_memory :: "'m \<Rightarrow> nat \<Rightarrow> byte"
  flat_writes :: "'m \<Rightarrow> (nat \<times> nat) list"
  read_flat :: "byte list \<Rightarrow> 'm option"

definition write_packed_message :: "'m capnp_lib \<Rightarrow> byte list \<Rightarrow> 'm \<Rightarrow> byte list result" where
  "write_packed_message lib out m =
     rbind (run_ops vb_write (packed_writes lib m (length out)) (new_vector_buffer out)) (\<lambda>b.
       Inr (take (length (vec b) - available b) (vec b)))"

text \<open>
  \<open>packToByteArray\<close>: the returned size, and the buffer behind the pointer afterwards. A copy
  into a buffer that is shorter than the \<open>bufsize\<close> claimed for it is undefined.
\<close>

definition pack_to_byte_array :: "'m capnp_lib \<Rightarrow> 'm \<Rightarrow> byte list \<Rightarrow> nat \<Rightarrow> (nat \<times> byte list) result" where
  "pack_to_byte_array lib m buffer bufsize =
     rbind (write_packed_message lib (replicate (message_byte_size (segment_sizes lib m)) 0) m) (\<lambda>packed.
       if length packed \<le> bufsize
       then (if length packed \<le> length buffer then Inr (length packed, overwrite buffer 0 packed)
             else Inl Undefined)
       else Inr (length packed, buffer))"

text \<open>The bytes that the packed writer produces for a message.\<close>

definition packed_bytes :: "'m capnp_lib \<Rightarrow> 'm \<Rightarrow> byte list" where
  "packed_bytes lib m = concat (map written (packed_writes lib m (message_byte_size (segment_sizes lib m))))"

text \<open>Documented behaviour: the writer stays within the buffers that the stream hands out.\<close>

definition well_behaved :: "'m capnp_lib \<Rightarrow> 'm \<Rightarrow> bool" where
  "well_behaved lib m \<longleftrightarrow> (let n = message_byte_size (segment_sizes lib m) in
     allowed vb_write vb_ok (packed_writes lib m n) (new_vector_buffer (replicate n 0)) \<and>
     (\<forall>b. run_ops vb_write (packed_writes lib m n) (new_vector_buffer (replicate n 0)) = Inr b \<longrightarrow>
        length (vec b) < 2 ^ 64))"

lemma write_packed_run:
  assumes "well_behaved lib m"
  shows "write_packed_message lib (replicate (message_byte_size (segment_sizes lib m)) 0) m =
    Inr (packed_bytes lib m)"
proof -
  let ?n = "message_byte_size (segment_sizes lib m)"
  let ?s = "new_vector_buffer (replicate ?n 0)"
  have inv: "vb_inv ?s" "vb_content ?s = []"
    by (simp_all add: vb_inv_def vb_content_def new_vector_buffer_def)
  obtain b where b: "run_ops vb_write (packed_writes lib m ?n) ?s = Inr b" "vb_inv b"
      "vb_content b = packed_bytes lib m"
    using vb.run_appends [OF inv(1), of "packed_writes lib m ?n"] assms inv(2)
    by (auto simp: well_behaved_def packed_bytes_def Let_def)
  have "length (vec b) < 2 ^ 64" using assms b(1) by (simp add: well_behaved_def Let_def)
  then have "length (vec b) - available b = bytes_written b"
    using b(2) by (simp add: available_eq vb_inv_def)
  with b show ?thesis by (simp add: write_packed_message_def vb_content_def)
qed

lemma pack_run:
  assumes "well_behaved lib m"
  shows "pack_to_byte_array lib m buffer bufsize =
    (if length (packed_bytes lib m) \<le> bufsize
     then (if length (packed_bytes lib m) \<le> length buffer
           then Inr (length (packed_bytes lib m), overwrite buffer 0 (packed_bytes lib m)) else Inl Undefined)
     else Inr (length (packed_bytes lib m), buffer))"
  by (simp add: pack_to_byte_array_def write_packed_run [OF assms])

section \<open>AsioKJOutBufferAdapter\<close>

text \<open>
  The adapter records where the data is instead of copying it, except for the first write, which
  it copies into \<open>table\<close>. \<open>mem\<close> is the memory the addresses refer to.
\<close>

datatype asio_buffer = Own_Table nat | Memory nat nat

record buffer_adapter =
  total_len :: nat
  first_write :: bool
  bufs :: "asio_buffer list"
  table :: "byte list"

definition new_adapter :: buffer_adapter where
  "new_adapter = \<lparr> total_len = 0, first_write = True, bufs = [], table = [] \<rparr>"

definition read_mem :: "(nat \<Rightarrow> byte) \<Rightarrow> nat \<Rightarrow> nat \<Rightarrow> byte list" where
  "read_mem mem a n = map mem [a ..< a + n]"

definition adapter_write :: "(nat \<Rightarrow> byte) \<Rightarrow> nat \<times> nat \<Rightarrow> buffer_adapter \<Rightarrow> buffer_adapter result" where
  "adapter_write mem p s = (case p of (a, n) \<Rightarrow> Inr
     (if first_write s
      then s\<lparr>table := read_mem mem a n, bufs := bufs s @ [Own_Table n], first_write := False, total_len := total_len s + n\<rparr>
      else s\<lparr>bufs := bufs s @ [Memory a n], total_len := total_len s + n\<rparr>))"

fun buffer_bytes :: "(nat \<Rightarrow> byte) \<Rightarrow> byte list \<Rightarrow> asio_buffer \<Rightarrow> byte list" where
  "buffer_bytes mem tab (Own_Table n) = take n tab"
| "buffer_bytes mem tab (Memory a n) = read_mem mem a n"

definition gather :: "(nat \<Rightarrow> byte) \<Rightarrow> buffer_adapter \<Rightarrow> byte list" where
  "gather mem s = concat (map (buffer_bytes mem (table s)) (bufs s))"

definition adapter_inv :: "(nat \<Rightarrow> byte) \<Rightarrow> buffer_adapter \<Rightarrow> bool" where
  "adapter_inv mem s \<longleftrightarrow> (first_write s \<longrightarrow> bufs s = []) \<and> total_len s = length (gather mem s)"

lemma length_read_mem [simp]: "length (read_mem mem a n) = n"
  by (simp add: read_mem_def)

interpretation adapter: out_stream "adapter_write mem" "\<lambda>_ _. True" "adapter_inv mem" "gather mem"
    "\<lambda>(a, n). read_mem mem a n" for mem
  by unfold_locales (auto simp: adapter_write_def adapter_inv_def gather_def)

lemma gather_all:
  "\<exists>t. run_ops (adapter_write mem) ps new_adapter = Inr t \<and>
     gather mem t = concat (map (\<lambda>(a, n). read_mem mem a n) ps) \<and> total_len t = length (gather mem t)"
proof -
  have "allowed (adapter_write mem) (\<lambda>_ _. True) ps s" for s
    by (induction ps arbitrary: s) (auto split: sum.splits)
  moreover have "adapter_inv mem new_adapter" "gather mem new_adapter = []"
    by (simp_all add: adapter_inv_def new_adapter_def gather_def)
  ultimately show ?thesis using adapter.run_appends [of mem new_adapter ps] by (auto simp: adapter_inv_def)
qed

section \<open>Properties\<close>

text \<open>\<open>messageByteSize\<close> is the exact size of the unpacked stream framing: a 32-bit count and one 32-bit size for each segment, padded to a multiple of eight bytes, followed by the segments.\<close>

theorem message_byte_size_framing:
  assumes "framing_size segs < 2 ^ 64"
  shows "message_byte_size segs = framing_size segs"
proof -
  have "4 * ((int (length segs) + 2) AND NOT 1) + int (sum_list segs) = int (framing_size segs)"
    using table_size [of "length segs"] by (simp add: framing_size_def Let_def)
  then show ?thesis using assms by (simp add: message_byte_size_def to_size_t_small)
qed

theorem message_byte_size_framing_witness: "message_byte_size [8, 16] = 40"
  using message_byte_size_framing [of "[8, 16]"] by (simp add: framing_size_def Let_def)

text \<open>C36: \<open>packToByteArray\<close> returns the number of packed bytes; it puts exactly these bytes at the front of the buffer when they fit, leaves the buffer untouched when they do not, and never writes outside it, however often the vector behind the stream had to grow.\<close>

theorem pack_into_buffer:
  assumes "well_behaved lib m" and "length buffer = bufsize"
  shows "\<exists>buffer'. pack_to_byte_array lib m buffer bufsize = Inr (length (packed_bytes lib m), buffer') \<and>
    length buffer' = bufsize \<and>
    (if length (packed_bytes lib m) \<le> bufsize
     then buffer' = packed_bytes lib m @ drop (length (packed_bytes lib m)) buffer else buffer' = buffer)"
  using assms by (simp add: pack_run overwrite_def)

definition example_lib :: "'m \<Rightarrow> 'm capnp_lib" where
  "example_lib m = \<lparr> segment_sizes = (\<lambda>_. [8]), packed_writes = (\<lambda>_ n. [Direct [1, 2], Copied (replicate 20 7)]),
     read_packed = (\<lambda>_. Some m), flat_memory = (\<lambda>_ a. word_of_nat a), flat_writes = (\<lambda>_. [(0, 4), (64, 3)]), read_flat = (\<lambda>_. Some m) \<rparr>"

lemma example_lib_facts:
  "well_behaved (example_lib m) m" "packed_bytes (example_lib m) m = [1, 2] @ replicate 20 7"
proof -
  have "message_byte_size [8] = 16" by (simp add: message_byte_size_def to_size_t_def)
  then show "well_behaved (example_lib m) m" "packed_bytes (example_lib m) m = [1, 2] @ replicate 20 7"
    by (simp_all add: well_behaved_def packed_bytes_def example_lib_def Let_def new_vector_buffer_def available_def
        to_size_t_def overwrite_def)
qed

theorem pack_into_buffer_witness:
  "pack_to_byte_array (example_lib ()) () (replicate 24 0) 24 = Inr (22, [1, 2] @ replicate 20 7 @ [0, 0]) \<and>
   pack_to_byte_array (example_lib ()) () (replicate 5 0) 5 = Inr (22, replicate 5 0)"
  using pack_into_buffer [of "example_lib ()" "()" "replicate 24 0" 24]
    pack_into_buffer [of "example_lib ()" "()" "replicate 5 0" 5]
  by (simp add: example_lib_facts numeral_2_eq_2)

end
