(* ===== verification/Hlapi.thy ===== *)
theory Hlapi imports Expr_Build Serialization begin

text \<open>
  The high-level interface: \<open>commelec-api/hlapi.cpp\<close>, \<open>hlapi.h\<close> and \<open>hlapi-internal.hpp\<close>.
  The functions that fill an advertisement take its builder, the record \<open>advertisement\<close>, and
  return it updated. \<open>chk\<close> is the setting of Cap'n Proto's debug checks.
\<close>

section \<open>Shared pieces\<close>

text \<open>\<open>initBall\<close> with a literal radius and the origin of the plane as its centre.\<close>

definition disk_at_origin :: "double \<Rightarrow> set_body" where
  "disk_at_origin Srated = Ball [real_lit (Fin 0), real_lit (Fin 0)] (real_lit Srated)"

definition set_impl_setpoint :: "double \<Rightarrow> double \<Rightarrow> advertisement \<Rightarrow> advertisement" where
  "set_impl_setpoint Pimp Qimp a = a\<lparr>implementedSetpoint := [Pimp, Qimp]\<rparr>"

text \<open>
  The cost function of batteries and of discrete devices: \<open>0.5 * P^2 + lin/(2 * quad) * P\<close>,
  or zero when the quadratic coefficient is small. \<open>a * b * Pvar\<close> is evaluated from the left.
\<close>

definition normalized_cost :: "platform \<Rightarrow> double \<Rightarrow> double \<Rightarrow> real_expr result" where
  "normalized_cost M lin quad =
     (if dlt (rnd M (1 / 1000000)) (dabs quad)
      then rbind (build_polynomial M (mono_plus
             (mono_scale M (Fin (1 / 2)) (var_power ''P'' 2))
             (mono_scale M (ddiv M lin (dmul M (Fin 2) quad)) (monomial_of_var ''P''))))
           (\<lambda>p. Inr (RealExpr None (Polynomial p)))
      else Inr (real_lit (Fin 0)))"

section \<open>Batteries\<close>

definition battery_profile :: "double \<Rightarrow> double \<Rightarrow> double \<Rightarrow> set_expr result" where
  "battery_profile Pmin Pmax Srated =
     rbind (build_convex_polytope [[Fin 1, Fin 0], [Fin (- 1), Fin 0]] [Pmax, dneg Pmin]) (\<lambda>poly.
       Inr (set_of_body (Intersection [set_of_body (disk_at_origin Srated), set_of_body poly])))"

definition battery_advertisement :: "platform \<Rightarrow> double \<Rightarrow> double \<Rightarrow> double \<Rightarrow> double \<Rightarrow> double \<Rightarrow> double \<Rightarrow> double \<Rightarrow>
    advertisement \<Rightarrow> advertisement result" where
  "battery_advertisement M Pmin Pmax Srated coeffP coeffPsquared Pimp Qimp a =
     rbind (battery_profile Pmin Pmax Srated) (\<lambda>profile.
     rbind (normalized_cost M coeffP coeffPsquared) (\<lambda>cost.
       Inr ((set_impl_setpoint Pimp Qimp a)\<lparr>pQProfile := Some profile,
         beliefFunction := Some (set_of_body (Singleton [var_ref ''P'', var_ref ''Q''])),
         costFunction := Some cost\<rparr>)))"

section \<open>Photovoltaics\<close>

definition pv_profile :: "double \<Rightarrow> double \<Rightarrow> double \<Rightarrow> set_expr result" where
  "pv_profile Srated Pmax tanPhi =
     rbind (build_convex_polytope [[Fin 1, Fin 0], [dneg tanPhi, Fin 1], [dneg tanPhi, Fin (- 1)]]
       [Pmax, Fin 0, Fin 0]) (\<lambda>poly.
       Inr (set_of_body (Intersection [set_of_body poly, set_of_body (disk_at_origin Srated)])))"

definition pv_belief :: "platform \<Rightarrow> bool \<Rightarrow> double \<Rightarrow> double \<Rightarrow> set_expr result" where
  "pv_belief M chk Pdelta tanPhi =
     (let p2 = ERef ''a''; P = EVar ''P''; Q = EVar ''Q'' in
      rbind (build_real_expr M chk P) (\<lambda>a1.
      rbind (build_real_expr M chk (named ''a'' (e_max (EReal (Fin 0)) (e_plus P (EReal (dneg Pdelta)))))) (\<lambda>b1.
      rbind (build_real_expr M chk Q) (\<lambda>a2.
      rbind (build_real_expr M chk (e_times (e_sign Q) (e_min (e_abs Q) (e_times p2 (EReal tanPhi))))) (\<lambda>b2.
      Inr (set_of_body (Rectangle [(a1, b1), (a2, b2)])))))))"

definition pv_cost :: "platform \<Rightarrow> double \<Rightarrow> double \<Rightarrow> real_expr result" where
  "pv_cost M a_pv b_pv = rbind (build_polynomial M (mono_plus
       (mono_scale M (dneg a_pv) (monomial_of_var ''P''))
       (mono_scale M b_pv (var_power ''Q'' 2)))) (\<lambda>p. Inr (RealExpr None (Polynomial p)))"

definition pv_advertisement :: "platform \<Rightarrow> bool \<Rightarrow> double \<Rightarrow> double \<Rightarrow> double \<Rightarrow> double \<Rightarrow> double \<Rightarrow> double \<Rightarrow>
    double \<Rightarrow> double \<Rightarrow> advertisement \<Rightarrow> advertisement result" where
  "pv_advertisement M chk Srated Pmax Pdelta tanPhi a_pv b_pv Pimp Qimp a =
     rbind (pv_profile Srated Pmax tanPhi) (\<lambda>profile.
     rbind (pv_belief M chk Pdelta tanPhi) (\<lambda>belief.
     rbind (pv_cost M a_pv b_pv) (\<lambda>cost.
       Inr ((set_impl_setpoint Pimp Qimp a)\<lparr>pQProfile := Some profile, beliefFunction := Some belief,
         costFunction := Some cost\<rparr>))))"

section \<open>Uncontrollable resources\<close>

datatype resource_type = LoadResource | GeneratorResource | Bidirectional

definition uncontrollable_belief :: "platform \<Rightarrow> bool \<Rightarrow> double \<Rightarrow> double \<Rightarrow> double \<Rightarrow> double \<Rightarrow> double \<Rightarrow>
    resource_type \<Rightarrow> double \<Rightarrow> set_expr result" where
  "uncontrollable_belief M chk Srated dPup dPdown dQup dQdown resType Pgap =
     (let P = EVar ''P''; Q = EVar ''Q'' in
      rbind (build_real_expr M chk (e_minus P (EReal dPdown))) (\<lambda>a1.
      rbind (build_real_expr M chk (e_plus P (EReal dPup))) (\<lambda>b1.
      rbind (build_real_expr M chk (e_minus Q (EReal dQdown))) (\<lambda>a2.
      rbind (build_real_expr M chk (e_plus Q (EReal dQup))) (\<lambda>b2.
      let common = [set_of_body (Rectangle [(a1, b1), (a2, b2)]), set_of_body (disk_at_origin Srated)] in
      if resType = Bidirectional then Inr (set_of_body (Intersection common))
      else rbind (build_convex_polytope [[if resType = LoadResource then Fin 1 else Fin (- 1), Fin 0]] [Pgap])
        (\<lambda>half. Inr (set_of_body (Intersection (common @ [set_of_body half])))))))))"

definition uncontrollable_resource :: "platform \<Rightarrow> bool \<Rightarrow> double \<Rightarrow> double \<Rightarrow> double \<Rightarrow> double \<Rightarrow> double \<Rightarrow> double \<Rightarrow>
    double \<Rightarrow> double \<Rightarrow> double \<Rightarrow> resource_type \<Rightarrow> double \<Rightarrow> advertisement \<Rightarrow> advertisement result" where
  "uncontrollable_resource M chk Pexp Qexp Srated dPup dPdown dQup dQdown Pimp Qimp resType Pgap a =
     rbind (uncontrollable_belief M chk Srated dPup dPdown dQup dQdown resType Pgap) (\<lambda>belief.
       Inr ((set_impl_setpoint Pimp Qimp a)\<lparr>
         pQProfile := Some (set_of_body (Singleton [real_lit Pexp, real_lit Qexp])),
         beliefFunction := Some belief, costFunction := Some (real_lit (Fin 0))\<rparr>))"

definition uncontrollable_load :: "platform \<Rightarrow> bool \<Rightarrow> double \<Rightarrow> double \<Rightarrow> double \<Rightarrow> double \<Rightarrow> double \<Rightarrow> double \<Rightarrow>
    double \<Rightarrow> double \<Rightarrow> double \<Rightarrow> advertisement \<Rightarrow> advertisement result" where
  "uncontrollable_load M chk Pexp Qexp Srated dPup dPdown dQup dQdown Pimp Qimp =
     uncontrollable_resource M chk Pexp Qexp Srated dPup dPdown dQup dQdown Pimp Qimp LoadResource (Fin 0)"

definition uncontrollable_generator :: "platform \<Rightarrow> bool \<Rightarrow> double \<Rightarrow> double \<Rightarrow> double \<Rightarrow> double \<Rightarrow> double \<Rightarrow> double \<Rightarrow>
    double \<Rightarrow> double \<Rightarrow> double \<Rightarrow> double \<Rightarrow> advertisement \<Rightarrow> advertisement result" where
  "uncontrollable_generator M chk Pexp Qexp Srated dPup dPdown dQup dQdown Pimp Qimp Pgap =
     uncontrollable_resource M chk Pexp Qexp Srated dPup dPdown dQup dQdown Pimp Qimp GeneratorResource Pgap"

section \<open>Discrete devices\<close>

definition add_case :: "double \<Rightarrow> double \<Rightarrow> double \<Rightarrow> set_expr \<times> real_expr" where
  "add_case v left right = (set_of_body (Rectangle [(real_lit left, real_lit right)]), real_lit v)"

text \<open>The three cases that \<open>RoundBelief\<close> and \<open>ZenoneBelief\<close> share.\<close>

definition rounding_cases :: "platform \<Rightarrow> bool \<Rightarrow> double \<Rightarrow> double \<Rightarrow> double \<Rightarrow> double \<Rightarrow>
    (set_expr \<times> real_expr) list result" where
  "rounding_cases M chk stepSize err Pmin Pmax =
     (let P = EVar ''P''; step = EReal stepSize; corr = EReal (dfmod Pmin stepSize) in
      rbind (build_real_expr M chk
        (e_plus (e_times step (e_round (e_divide (e_minus (e_minus P (EReal err)) corr) step))) corr)) (\<lambda>e.
      Inr [add_case Pmin NInf (dadd M Pmin err), add_case Pmax (dadd M Pmax err) PInf,
        (set_of_body (Rectangle [(real_lit NInf, real_lit PInf)]), e)]))"

definition round_belief :: "platform \<Rightarrow> bool \<Rightarrow> double \<Rightarrow> double \<Rightarrow> double \<Rightarrow> double \<Rightarrow> set_expr result" where
  "round_belief M chk stepSize err Pmin Pmax =
     rbind (rounding_cases M chk stepSize err Pmin Pmax) (\<lambda>cs.
       Inr (set_of_body (Singleton [RealExpr None (CaseDistinction [''P''] cs), var_ref ''Q''])))"

definition zenone_belief :: "platform \<Rightarrow> bool \<Rightarrow> double \<Rightarrow> double \<Rightarrow> double \<Rightarrow> double \<Rightarrow> set_expr result" where
  "zenone_belief M chk stepSize err Pmin Pmax =
     (let projectedP = ERef ''x'' in
      rbind (rounding_cases M chk stepSize err Pmin Pmax) (\<lambda>cs.
      rbind (build_real_expr M chk (e_plus (e_times (EReal (ddiv M (Fin 249) (Fin 250))) projectedP) (EReal (Fin 100)))) (\<lambda>pub.
      rbind (build_real_expr M chk (e_minus (e_times (EReal (rnd M (95 / 1000))) projectedP) (EReal (Fin 150)))) (\<lambda>qlb.
      rbind (build_real_expr M chk (e_minus (e_times (EReal (rnd M (9 / 100))) projectedP) (EReal (Fin 40)))) (\<lambda>qub.
      Inr (set_of_body (Rectangle [(RealExpr (Some ''x'') (CaseDistinction [''P''] cs), pub), (qlb, qub)])))))))"

text \<open>
  \<open>std::sort\<close> with \<open><\<close>; on numbers without NaN the result is the sorted permutation, up to the
  order of the two zeros. The boundary between two neighbours is their midpoint, shifted by the
  error.
\<close>

fun insert_double :: "double \<Rightarrow> double list \<Rightarrow> double list" where
  "insert_double x [] = [x]"
| "insert_double x (y # ys) = (if dlt y x then y # insert_double x ys else x # y # ys)"

definition sort_doubles :: "double list \<Rightarrow> double list" where
  "sort_doubles xs = foldr insert_double xs []"

fun proj_cases :: "platform \<Rightarrow> double \<Rightarrow> double list \<Rightarrow> (set_expr \<times> real_expr) list" where
  "proj_cases M err [] = []"
| "proj_cases M err [x] = [add_case x NInf PInf]"
| "proj_cases M err (x # y # ys) =
     add_case x NInf (dadd M (ddiv M (dadd M x y) (Fin 2)) err) # proj_cases M err (y # ys)"

definition proj_belief :: "platform \<Rightarrow> double list \<Rightarrow> double \<Rightarrow> set_expr result" where
  "proj_belief M points err =
     (if points = [] then Inl (Runtime_Error ''List of implementable setpoints is empty, which is not allowed.'')
      else if 1 < length points \<and> Nan \<in> set points then Inl Undefined
      else Inr (set_of_body (Singleton [RealExpr None (CaseDistinction [''P''] (proj_cases M err (sort_doubles points))),
        var_ref ''Q''])))"

text \<open>\<open>DiscreteDevice<BeliefPolicy>::makeAdvertisement\<close>; \<open>belief\<close> is the policy's \<open>makeBelief\<close>.\<close>

definition discrete_device :: "platform \<Rightarrow> set_expr result \<Rightarrow> double \<Rightarrow> double \<Rightarrow> double \<Rightarrow> double \<Rightarrow> double \<Rightarrow> double \<Rightarrow>
    advertisement \<Rightarrow> advertisement result" where
  "discrete_device M belief Pmin Pmax alpha beta Pimp Qimp a =
     rbind belief (\<lambda>bf. rbind (normalized_cost M beta alpha) (\<lambda>cost.
       Inr (set_impl_setpoint Pimp Qimp (a\<lparr>
         pQProfile := Some (set_of_body (Rectangle [(real_lit Pmin, real_lit Pmax), (real_lit (Fin 0), real_lit (Fin 0))])),
         beliefFunction := Some bf, costFunction := Some cost\<rparr>))))"

definition real_discrete_device :: "platform \<Rightarrow> double \<Rightarrow> double \<Rightarrow> double list \<Rightarrow> double \<Rightarrow> double \<Rightarrow> double \<Rightarrow> double \<Rightarrow>
    double \<Rightarrow> advertisement \<Rightarrow> advertisement result" where
  "real_discrete_device M Pmin Pmax points err alpha beta Pimp Qimp =
     discrete_device M (proj_belief M points err) Pmin Pmax alpha beta Pimp Qimp"

definition uniform_discrete_device :: "platform \<Rightarrow> bool \<Rightarrow> double \<Rightarrow> double \<Rightarrow> double \<Rightarrow> double \<Rightarrow> double \<Rightarrow> double \<Rightarrow> double \<Rightarrow>
    double \<Rightarrow> advertisement \<Rightarrow> advertisement result" where
  "uniform_discrete_device M chk Pmin Pmax stepSize accErr alpha beta Pimp Qimp =
     discrete_device M (round_belief M chk stepSize accErr Pmin Pmax) Pmin Pmax alpha beta Pimp Qimp"

definition zenone_advertisement :: "platform \<Rightarrow> bool \<Rightarrow> double \<Rightarrow> double \<Rightarrow> double \<Rightarrow> double \<Rightarrow> double \<Rightarrow> double \<Rightarrow> double \<Rightarrow>
    double \<Rightarrow> advertisement \<Rightarrow> advertisement result" where
  "zenone_advertisement M chk Pmin Pmax stepSize accErr alpha beta Pimp Qimp =
     discrete_device M (zenone_belief M chk stepSize accErr Pmin Pmax) Pmin Pmax alpha beta Pimp Qimp"

section \<open>The C interface\<close>

definition hlapi_unknown_error :: int where "hlapi_unknown_error = - 1"
definition hlapi_illegal_input :: int where "hlapi_illegal_input = - 2"
definition hlapi_buffer_too_small :: int where "hlapi_buffer_too_small = - 3"
definition hlapi_malformed_request :: int where "hlapi_malformed_request = - 4"
definition hlapi_malformed_advertisement :: int where "hlapi_malformed_advertisement = - 5"

lemmas hlapi_codes = hlapi_unknown_error_def hlapi_illegal_input_def hlapi_buffer_too_small_def
  hlapi_malformed_request_def hlapi_malformed_advertisement_def

text \<open>
  \<open>catch (...)\<close> turns an exception into a return code, with the outputs as they are by then;
  a failed assertion, \<open>std::terminate\<close> and undefined behaviour it does not catch.
\<close>

definition is_exception :: "error \<Rightarrow> bool" where
  "is_exception e \<longleftrightarrow> e \<noteq> Assert_Failed \<and> e \<noteq> Bare_Throw \<and> e \<noteq> Undefined"

definition caught :: "error \<Rightarrow> 'o \<Rightarrow> (int \<times> 'o) result" where
  "caught e out = (if is_exception e then Inr (hlapi_unknown_error, out) else Inl e)"

text \<open>An element of a Cap'n Proto list; the index is checked in debug builds only.\<close>

definition list_at :: "bool \<Rightarrow> 'a list \<Rightarrow> nat \<Rightarrow> 'a result" where
  "list_at chk xs i = (if i < length xs then Inr (xs ! i) else if chk then Inl Kj_Exception else Inl Undefined)"

text \<open>Reading the root of a packed message from \<open>bufSize\<close> bytes; a size beyond the buffer is undefined.\<close>

definition read_message :: "message capnp_lib \<Rightarrow> byte list \<Rightarrow> int \<Rightarrow> message result" where
  "read_message lib inBuffer bufSize =
     (if to_size_t bufSize \<le> length inBuffer
      then (case read_packed lib (take (to_size_t bufSize) inBuffer) of None \<Rightarrow> Inl Kj_Exception | Some m \<Rightarrow> Inr m)
      else Inl Undefined)"

definition get_request :: "bool \<Rightarrow> message \<Rightarrow> request result" where
  "get_request chk m = (case body m of
     Request_Msg r \<Rightarrow> Inr (case r of None \<Rightarrow> \<lparr> setpoint = None \<rparr> | Some req \<Rightarrow> req)
   | Advertisement_Msg _ \<Rightarrow> if chk then Inl Kj_Exception else Inl Undefined)"

definition message_adv :: "message \<Rightarrow> advertisement option" where
  "message_adv m = (case body m of Advertisement_Msg a \<Rightarrow> a | Request_Msg _ \<Rightarrow> None)"

text \<open>What the output pointers of the two parsing functions point to.\<close>

record parsed =
  out_P :: double
  out_Q :: double
  out_sender :: "32 word"

text \<open>Store the first two entries of a setpoint, then return 1.\<close>

definition store_setpoint :: "bool \<Rightarrow> double list \<Rightarrow> parsed \<Rightarrow> (int \<times> parsed) result" where
  "store_setpoint chk sp out = (case list_at chk sp 0 of
     Inl e \<Rightarrow> caught e out
   | Inr p \<Rightarrow> (case list_at chk sp 1 of
       Inl e \<Rightarrow> caught e (out\<lparr>out_P := p\<rparr>)
     | Inr q \<Rightarrow> Inr (1, out\<lparr>out_P := p, out_Q := q\<rparr>)))"

definition parse_request :: "message capnp_lib \<Rightarrow> bool \<Rightarrow> byte list \<Rightarrow> int \<Rightarrow> parsed \<Rightarrow> (int \<times> parsed) result" where
  "parse_request lib chk inBuffer bufSize out = (case read_message lib inBuffer bufSize of
     Inl e \<Rightarrow> caught e out
   | Inr m \<Rightarrow> (let out1 = out\<lparr>out_sender := agentId m\<rparr> in
       case get_request chk m of
         Inl e \<Rightarrow> caught e out1
       | Inr req \<Rightarrow> (case setpoint req of
           None \<Rightarrow> Inr (0, out1)
         | Some sp \<Rightarrow> store_setpoint chk sp out1)))"

definition get_impl_setpoint :: "message capnp_lib \<Rightarrow> bool \<Rightarrow> byte list \<Rightarrow> int \<Rightarrow> parsed \<Rightarrow> (int \<times> parsed) result" where
  "get_impl_setpoint lib chk inBuffer bufSize out = (case read_message lib inBuffer bufSize of
     Inl e \<Rightarrow> caught e out
   | Inr m \<Rightarrow> (let out1 = out\<lparr>out_sender := agentId m\<rparr> in
       case message_adv m of
         None \<Rightarrow> Inr (hlapi_malformed_advertisement, out1)
       | Some a \<Rightarrow> store_setpoint chk (implementedSetpoint a) out1))"

text \<open>What the output pointers of the \<open>make\<close> functions point to: the buffer and the size.\<close>

record made =
  out_buffer :: "byte list"
  packed_bytesize :: int

definition to_int32 :: "nat \<Rightarrow> int" where
  "to_int32 n = sint (word_of_nat n :: 32 word)"

definition make_advertisement :: "message capnp_lib \<Rightarrow> int \<Rightarrow> 32 word \<Rightarrow> advertisement result \<Rightarrow> made \<Rightarrow> (int \<times> made) result" where
  "make_advertisement lib maxBufSize agent adv_result out = (case adv_result of
     Inl e \<Rightarrow> caught e out
   | Inr a \<Rightarrow>
       (case pack_to_byte_array lib \<lparr> agentId = agent, body = Advertisement_Msg (Some a) \<rparr> (out_buffer out) (to_size_t maxBufSize) of
          Inl e \<Rightarrow> caught e out
        | Inr (byteSize, buffer) \<Rightarrow>
            Inr (if byteSize > to_size_t maxBufSize then hlapi_buffer_too_small else 0,
              \<lparr> out_buffer = buffer, packed_bytesize = to_int32 byteSize \<rparr>)))"

definition make_battery_advertisement :: "platform \<Rightarrow> message capnp_lib \<Rightarrow> int \<Rightarrow> 32 word \<Rightarrow> double \<Rightarrow> double \<Rightarrow> double \<Rightarrow>
    double \<Rightarrow> double \<Rightarrow> double \<Rightarrow> double \<Rightarrow> made \<Rightarrow> (int \<times> made) result" where
  "make_battery_advertisement M lib maxBufSize agent Pmin Pmax Srated coeffP coeffPsquared Pimp Qimp =
     make_advertisement lib maxBufSize agent
       (battery_advertisement M Pmin Pmax Srated coeffP coeffPsquared Pimp Qimp empty_adv)"

definition make_fuel_cell_advertisement :: "platform \<Rightarrow> message capnp_lib \<Rightarrow> int \<Rightarrow> 32 word \<Rightarrow> double \<Rightarrow> double \<Rightarrow> double \<Rightarrow>
    double \<Rightarrow> double \<Rightarrow> double \<Rightarrow> double \<Rightarrow> made \<Rightarrow> (int \<times> made) result" where
  "make_fuel_cell_advertisement M lib maxBufSize agent Pmin Pmax Srated coeffP coeffPsquared Pimp Qimp out =
     (if dlt Pmin (Fin 0) \<or> dlt Pmax (Fin 0) then Inr (hlapi_illegal_input, out)
      else make_battery_advertisement M lib maxBufSize agent Pmin Pmax Srated coeffP coeffPsquared Pimp Qimp out)"

definition make_pv_advertisement :: "platform \<Rightarrow> bool \<Rightarrow> message capnp_lib \<Rightarrow> int \<Rightarrow> 32 word \<Rightarrow> double \<Rightarrow> double \<Rightarrow> double \<Rightarrow>
    double \<Rightarrow> double \<Rightarrow> double \<Rightarrow> double \<Rightarrow> double \<Rightarrow> made \<Rightarrow> (int \<times> made) result" where
  "make_pv_advertisement M chk lib maxBufSize agent Srated Pmax Pdelta tanPhi a_pv b_pv Pimp Qimp out =
     (if dle a_pv (Fin 0) then Inr (hlapi_illegal_input, out)
      else if dle b_pv (Fin 0) then Inr (hlapi_illegal_input, out)
      else make_advertisement lib maxBufSize agent
        (pv_advertisement M chk Srated Pmax Pdelta tanPhi a_pv b_pv Pimp Qimp empty_adv) out)"

end
