(* ===== verification/Hlapi_Props.thy ===== *)
theory Hlapi_Props imports Hlapi Rect_Hull_Props Adv_Deriv_Props begin

text \<open>
  What the advertisements of the high-level interface mean to the interpreter that receives
  them, in exact arithmetic, and what the C functions return.
\<close>

section \<open>Receiving an advertisement\<close>

lemma set_adv_run:
  assumes "length (profile_nodes a) \<le> 10000" "length (belief_nodes a) \<le> 10000" "length (cost_nodes a) \<le> 10000"
  shows "set_adv a new_advfunc = Some (Inr (), new_advfunc\<lparr>adv := a, adv_valid := True,
    real_refs := map_of (rev (concat (map named_real (adv_nodes a)))),
    set_refs := map_of (rev (concat (map named_set (adv_nodes a))))\<rparr>)"
  using find_references_run [of "new_advfunc\<lparr>adv := a, adv_valid := True\<rparr>"] assms
  by (simp add: set_adv_def run_simps record_all_def new_advfunc_def)

text \<open>A receiver: \<open>setAdv\<close>, then one of the user functions.\<close>

definition received :: "advertisement \<Rightarrow> 'a interp \<Rightarrow> ('a result \<times> advfunc) option" where
  "received a m = bnd (set_adv a) (\<lambda>_. m) new_advfunc"

lemma received_membership:
  assumes "length (profile_nodes a) \<le> 10000" "length (belief_nodes a) \<le> 10000" "length (cost_nodes a) \<le> 10000"
    and "ref_free_set st" "calls_set st \<le> min n 10000"
  shows "\<exists>t. received a (test_membership M n st pt env) = Some (den_set M env st pt, t)"
proof -
  obtain s where "set_adv a new_advfunc = Some (Inr (), s)" "adv_valid s" using set_adv_run [OF assms(1-3)] by simp
  then show ?thesis
    using membership_denotes_lemma [of s st n M pt env] assms(4,5) by (auto simp: received_def run_simps)
qed

lemma received_evaluate:
  assumes "length (profile_nodes a) \<le> 10000" "length (belief_nodes a) \<le> 10000" "length (cost_nodes a) \<le> 10000"
    and "ref_free_real e" "calls_real e \<le> min n 10000"
  shows "\<exists>t. received a (evaluate M n e env) = Some (den_real M env e, t)"
proof -
  obtain s where "set_adv a new_advfunc = Some (Inr (), s)" "adv_valid s" using set_adv_run [OF assms(1-3)] by simp
  then show ?thesis
    using evaluate_denotes_lemma [of s e n M env] assms(4,5) by (auto simp: received_def run_simps)
qed

section \<open>Sets with literal numbers\<close>

lemma rmap_lits: "rmap (den_real M env) (map real_lit v) = Inr v"
  by (induction v) auto

lemma rmap_rows: "rmap (rmap (den_real M env)) (map (map real_lit) A) = Inr A"
  by (induction A) (auto simp: rmap_lits)

lemma den_polytope:
  assumes "rectangular A (length pt)" "length A = length b"
  shows "den_set M env (set_of_body (ConvexPolytope (init_matrix A) (init_vector b))) pt =
    Inr (list_all (\<lambda>(row, c). dle (dot M row pt) c) (zip A b))"
  using assms check_capnp_matrix_ok [OF rectangular_init_matrix [OF assms(1)]]
  by (simp add: rguard_def init_matrix_def init_vector_def rmap_lits rmap_rows rectangular_def)

lemma den_intersection:
  "den_set M env (set_of_body (Intersection ss)) pt = rall (\<lambda>st. den_set M env st pt) ss"
  by simp

lemma has_val_dot_gen:
  assumes "list_all2 has_val as xs" "list_all2 has_val bs ys" "length xs = length ys"
  shows "has_val (dot exact as bs) (inner xs ys)"
  unfolding dot_def inner_def
proof (rule has_val_e_sum)
  show "list_all2 has_val (map2 (dmul exact) as bs) (map2 (*) xs ys)"
    using assms by (auto simp: list_all2_conv_all_nth intro!: has_val_mul)
qed

lemma dle_dot:
  assumes "list_all2 has_val as xs" "has_val c z" "length xs = 2"
  shows "dle (dot exact as [Fin p, Fin q]) c \<longleftrightarrow> inner xs [p, q] \<le> z"
  using dle_has_val [OF has_val_dot_gen [OF assms(1), of "[Fin p, Fin q]" "[p, q]"] assms(2)] assms(3)
  by (simp add: has_val_Fin)

lemma den_disk:
  "den_set exact env (set_of_body (disk_at_origin (Fin S))) [Fin p, Fin q] = Inr (p\<^sup>2 + q\<^sup>2 \<le> S\<^sup>2)"
proof -
  have "has_val (sq_dist exact [Fin 0, Fin 0] [Fin p, Fin q]) (p\<^sup>2 + q\<^sup>2)"
    using has_val_sq_dist [of "[0, 0]" "[p, q]"] by (simp add: sq_dist_real_def)
  moreover have "has_val (dmul exact (Fin S) (Fin S)) (S\<^sup>2)"
    using has_val_mul [OF has_val_Fin has_val_Fin] by (simp add: power2_eq_square)
  ultimately show ?thesis by (simp add: disk_at_origin_def rguard_def dle_has_val)
qed

lemma den_half_planes:
  assumes "length A = length b" "length As = length bs" "list_all2 (list_all2 has_val) A As" "list_all2 has_val b bs"
    "\<forall>row \<in> set As. length row = 2" "As \<noteq> []"
  shows "den_set exact env (set_of_body (ConvexPolytope (init_matrix A) (init_vector b))) [Fin x, Fin y] =
    Inr (list_all (\<lambda>(row, c). inner row [x, y] \<le> c) (zip As bs))"
proof -
  have len: "length row = 2" if "row \<in> set A" for row
    using that assms(3,5) by (metis in_set_conv_nth list_all2_conv_all_nth list_all2_lengthD nth_mem)
  then have "den_set exact env (set_of_body (ConvexPolytope (init_matrix A) (init_vector b))) [Fin x, Fin y] =
      Inr (list_all (\<lambda>(row, c). dle (dot exact row [Fin x, Fin y]) c) (zip A b))"
    using assms(1,3,6) by (intro den_polytope) (auto simp: rectangular_def)
  moreover have "list_all (\<lambda>(row, c). dle (dot exact row [Fin x, Fin y]) c) (zip A b) =
      list_all (\<lambda>(row, c). inner row [x, y] \<le> c) (zip As bs)"
    using assms(3,4,5)
  proof (induction A As arbitrary: b bs rule: list_all2_induct)
    case (Cons r rs q qs)
    then show ?case using dle_dot by (cases b; cases bs) auto
  qed simp
  ultimately show ?thesis by simp
qed

section \<open>Batteries\<close>

definition cost_poly :: "real \<Rightarrow> real \<Rightarrow> monomial_sum" where
  "cost_poly c1 c2 = mono_plus (mono_scale exact (Fin (1 / 2)) (var_power ''P'' 2))
     (mono_scale exact (ddiv exact (Fin c1) (dmul exact (Fin 2) (Fin c2))) (monomial_of_var ''P''))"

lemmas poly_build_defs = mono_plus_def mono_scale_def var_power_def monomial_of_var_def

lemma cost_poly_facts:
  "sum_variables (cost_poly c1 c2) = [''P'']" "encodable (cost_poly c1 c2)"
  "c2 \<noteq> 0 \<Longrightarrow> list_all (\<lambda>m. is_finite (coeff m)) (cost_poly c1 c2)"
  "c2 \<noteq> 0 \<Longrightarrow> poly_fun (cost_poly c1 c2) [''P''] [p] = p\<^sup>2 / 2 + c1 / (2 * c2) * p"
proof -
  show v: "sum_variables (cost_poly c1 c2) = [''P'']"
    by (simp add: cost_poly_def sum_variables_def poly_build_defs)
  show "encodable (cost_poly c1 c2)"
    unfolding encodable_def v
    by (simp add: cost_poly_def well_formed_def poly_build_defs sum_maxVarDegree_def mono_maxVarDegree_def)
  assume "c2 \<noteq> 0"
  then have "has_val (dmul exact (Fin 1) (ddiv exact (Fin c1) (dmul exact (Fin 2) (Fin c2)))) (1 * (c1 / (2 * c2)))"
    by (intro val_intros) simp
  then show "list_all (\<lambda>m. is_finite (coeff m)) (cost_poly c1 c2)"
    and "poly_fun (cost_poly c1 c2) [''P''] [p] = p\<^sup>2 / 2 + c1 / (2 * c2) * p"
    by (simp_all add: cost_poly_def poly_build_defs has_val_def poly_fun_def exponent_def numeral_2_eq_2 dmul_def)
qed

text \<open>The denotation of the cost function: the polynomial, or zero for a small coefficient.\<close>

lemma normalized_cost_den:
  "\<exists>e. normalized_cost exact (Fin c1) (Fin c2) = Inr e \<and> ref_free_real e \<and> calls_real e = 1 \<and> length (nodes_real e) = 1 \<and>
    concat (map named_real (nodes_real e)) = [] \<and> concat (map named_set (nodes_real e)) = [] \<and>
    (\<exists>r. den_real exact [''P'' \<mapsto> Fin p, ''Q'' \<mapsto> Fin q] e = Inr r \<and>
      has_val r (if \<bar>c2\<bar> > 1 / 1000000 then p\<^sup>2 / 2 + c1 / (2 * c2) * p else 0))"
proof (cases "\<bar>c2\<bar> > 1 / 1000000")
  case True
  then have c2: "c2 \<noteq> 0" by auto
  have "map [''P'' \<mapsto> Fin p, ''Q'' \<mapsto> Fin q] (sum_variables (cost_poly c1 c2)) = map (\<lambda>x. Some (Fin x)) [p]"
    by (simp add: cost_poly_facts)
  from eval_built_polynomial [OF cost_poly_facts(2) cost_poly_facts(3) [OF c2] this, of "- 1"]
  obtain P r where "build_polynomial exact (cost_poly c1 c2) = Inr P"
      "eval_polynomial exact (- 1) P [''P'' \<mapsto> Fin p, ''Q'' \<mapsto> Fin q] = Inr r"
      "has_val r (p\<^sup>2 / 2 + c1 / (2 * c2) * p)"
    using c2 by (auto simp: poly_partial_none cost_poly_facts)
  with True show ?thesis by (simp add: normalized_cost_def cost_poly_def [symmetric] dlt_def)
qed (simp add: normalized_cost_def dlt_def has_val_Fin)

lemma battery_profile_den:
  "\<exists>st. battery_profile (Fin pmin) (Fin pmax) (Fin S) = Inr st \<and> ref_free_set st \<and> calls_set st = 12 \<and>
    length (nodes_set st) = 12 \<and> concat (map named_real (nodes_set st)) = [] \<and> concat (map named_set (nodes_set st)) = [] \<and>
    (\<forall>env. den_set exact env st [Fin p, Fin q] = Inr (p\<^sup>2 + q\<^sup>2 \<le> S\<^sup>2 \<and> pmin \<le> p \<and> p \<le> pmax))"
proof -
  let ?A = "[[Fin 1, Fin 0], [Fin (- 1), Fin 0]]" and ?b = "[Fin pmax, dneg (Fin pmin)]"
  have poly: "build_convex_polytope ?A ?b = Inr (ConvexPolytope (init_matrix ?A) (init_vector ?b))"
    by (simp add: build_convex_polytope_def)
  have row: "dle (dot exact [Fin a, Fin 0] [Fin p, Fin q]) c \<longleftrightarrow> a * p \<le> z" if "has_val c z" for a c z
    using dle_dot [of "[Fin a, Fin 0]" "[a, 0]" c z p q] that by (simp add: has_val_Fin inner_def)
  have den: "den_set exact env (set_of_body (ConvexPolytope (init_matrix ?A) (init_vector ?b))) [Fin p, Fin q] =
      Inr (pmin \<le> p \<and> p \<le> pmax)" for env
    using den_polytope [of ?A "[Fin p, Fin q]" ?b exact env] row [OF has_val_Fin] row [OF has_val_neg [OF has_val_Fin]]
    by (auto simp: rectangular_def)
  have "den_set exact env (set_of_body (Intersection [set_of_body (disk_at_origin (Fin S)),
      set_of_body (ConvexPolytope (init_matrix ?A) (init_vector ?b))])) [Fin p, Fin q] =
      Inr (p\<^sup>2 + q\<^sup>2 \<le> S\<^sup>2 \<and> pmin \<le> p \<and> p \<le> pmax)" for env
    by (simp add: den_intersection den den_disk del: den_set.simps dneg.simps)
  then show ?thesis
    by (simp add: battery_profile_def poly del: dneg.simps) (simp add: disk_at_origin_def init_matrix_def init_vector_def)
qed

text \<open>In exact arithmetic, a receiver of a battery's advertisement finds that the PQ profile contains exactly the points of the disk of radius \<open>Srated\<close> with real power between \<open>Pmin\<close> and \<open>Pmax\<close>, and that the cost of a point is \<open>P^2/2 + coeffP/(2*coeffPsquared)*P\<close>, or 0 when the quadratic coefficient is at most \<open>10^-6\<close> in absolute value.\<close>

theorem battery_advertisement_meaning:
  "\<exists>a t r u. battery_advertisement exact (Fin pmin) (Fin pmax) (Fin S) (Fin c1) (Fin c2) Pimp Qimp empty_adv = Inr a \<and>
    received a (test_membership exact (12 + n) (get_pq_profile a) [Fin p, Fin q] Map.empty) =
      Some (Inr (p\<^sup>2 + q\<^sup>2 \<le> S\<^sup>2 \<and> pmin \<le> p \<and> p \<le> pmax), t) \<and>
    received a (evaluate exact (1 + n) (get_cost_function a) [''P'' \<mapsto> Fin p, ''Q'' \<mapsto> Fin q]) = Some (Inr r, u) \<and>
    is_finite r \<and> val r = (if \<bar>c2\<bar> > 1 / 1000000 then p\<^sup>2 / 2 + c1 / (2 * c2) * p else 0)"
proof -
  obtain st where st: "battery_profile (Fin pmin) (Fin pmax) (Fin S) = Inr st" "ref_free_set st" "calls_set st = 12"
      "length (nodes_set st) = 12" "\<And>env. den_set exact env st [Fin p, Fin q] = Inr (p\<^sup>2 + q\<^sup>2 \<le> S\<^sup>2 \<and> pmin \<le> p \<and> p \<le> pmax)"
    using battery_profile_den by blast
  obtain e r where e: "normalized_cost exact (Fin c1) (Fin c2) = Inr e" "ref_free_real e" "calls_real e = 1"
      "length (nodes_real e) = 1" "den_real exact [''P'' \<mapsto> Fin p, ''Q'' \<mapsto> Fin q] e = Inr r"
      "has_val r (if \<bar>c2\<bar> > 1 / 1000000 then p\<^sup>2 / 2 + c1 / (2 * c2) * p else 0)"
    using normalized_cost_den by blast
  let ?a = "(set_impl_setpoint Pimp Qimp empty_adv)\<lparr>pQProfile := Some st,
      beliefFunction := Some (set_of_body (Singleton [var_ref ''P'', var_ref ''Q''])), costFunction := Some e\<rparr>"
  have a: "battery_advertisement exact (Fin pmin) (Fin pmax) (Fin S) (Fin c1) (Fin c2) Pimp Qimp empty_adv = Inr ?a"
    by (simp add: battery_advertisement_def st e del: dneg.simps)
  have nodes: "length (profile_nodes ?a) \<le> 10000" "length (belief_nodes ?a) \<le> 10000" "length (cost_nodes ?a) \<le> 10000"
    using st e by (simp_all add: profile_nodes_def belief_nodes_def cost_nodes_def)
  show ?thesis
    using a received_membership [OF nodes st(2), of "12 + n" exact "[Fin p, Fin q]" Map.empty]
      received_evaluate [OF nodes e(2), of "1 + n" exact "[''P'' \<mapsto> Fin p, ''Q'' \<mapsto> Fin q]"] st e
    by (auto simp: get_pq_profile_def get_cost_function_def has_val_def)
qed

section \<open>Photovoltaics\<close>

text \<open>\<open>x\<close> lies between \<open>a\<close> and \<open>b\<close>, in whichever order these are.\<close>

definition between :: "real \<Rightarrow> real \<Rightarrow> real \<Rightarrow> bool" where
  "between a b x \<longleftrightarrow> min a b \<le> x \<and> x \<le> max a b"

lemma has_val_min [val_intros]: "has_val a x \<Longrightarrow> has_val b y \<Longrightarrow> has_val (dmin a b) (min x y)"
  by (auto simp: dmin_def dlt_has_val min_def)

lemma has_val_max [val_intros]: "has_val a x \<Longrightarrow> has_val b y \<Longrightarrow> has_val (dmax a b) (max x y)"
  by (auto simp: dmax_def dlt_has_val max_def)

lemma in_bounds_has_val: "has_val x z \<Longrightarrow> has_val a y \<Longrightarrow> has_val b w \<Longrightarrow> in_bounds x a b \<longleftrightarrow> between y w z"
  using dlt_has_val [OF _ has_val_min, of x z a y b w] dlt_has_val [OF has_val_max, of a y b w x z]
  by (simp add: in_bounds_def between_def not_less min_le_iff_disj le_max_iff_disj)

text \<open>The two ends of the belief in real power and in reactive power.\<close>

definition pv_p2 :: "double \<Rightarrow> double \<Rightarrow> double" where
  "pv_p2 p d = dmax (Fin 0) (dadd exact p (dneg d))"

definition pv_q2 :: "double \<Rightarrow> double \<Rightarrow> double \<Rightarrow> double \<Rightarrow> double" where
  "pv_q2 p q d tn = dmul exact (of_i (sgn_int q)) (dmin (dabs q) (dmul exact (pv_p2 p d) tn))"

lemma pv_belief_run:
  assumes "pv_belief M chk d tn = Inr st"
    and "real_refs s ''a'' = Some (RealExpr (Some ''a'') (BinaryOperation OpMax (real_lit (Fin 0))
      (RealExpr None (BinaryOperation OpSum (var_ref ''P'') (real_lit (dneg d))))))"
    and "adv_valid s"
  shows "\<exists>t. test_membership exact (10 + n) st [x, y] [''P'' \<mapsto> p, ''Q'' \<mapsto> q] s =
    Some (Inr (in_bounds x p (pv_p2 p d) \<and> in_bounds y q (pv_q2 p q d tn)), t)"
proof -
  have fuel: "10 + n = Suc (Suc (Suc (Suc (Suc (Suc (Suc (Suc (Suc (Suc n)))))))))" by simp
  show ?thesis
    using assms unfolding fuel
    by (auto simp: test_membership_def start_call_run run_simps pv_belief_def build_real_expr_def expr_defs
        mem_rectangle_def eval_binary_def eval_unary_def eval_var_def eval_ref_def pv_p2_def pv_q2_def)
qed

text \<open>The profile of a PV plant is a triangle cut by the disk of the rated power.\<close>

lemma pv_profile_den:
  "\<exists>st. pv_profile (Fin S) (Fin pmax) (Fin tn) = Inr st \<and> ref_free_set st \<and> calls_set st \<le> 30 \<and>
    length (nodes_set st) \<le> 30 \<and> concat (map named_real (nodes_set st)) = [] \<and>
    (\<forall>env. den_set exact env st [Fin p, Fin q] = Inr (p \<le> pmax \<and> \<bar>q\<bar> \<le> tn * p \<and> p\<^sup>2 + q\<^sup>2 \<le> S\<^sup>2))"
proof -
  let ?A = "[[Fin 1, Fin 0], [dneg (Fin tn), Fin 1], [dneg (Fin tn), Fin (- 1)]]" and ?b = "[Fin pmax, Fin 0, Fin 0]"
  let ?P = "ConvexPolytope (init_matrix ?A) (init_vector ?b)"
  have poly: "build_convex_polytope ?A ?b = Inr ?P" by (simp add: build_convex_polytope_def)
  have neg: "has_val (dneg (Fin tn)) (- tn)" by (rule has_val_neg [OF has_val_Fin])
  have "den_set exact env (set_of_body ?P) [Fin p, Fin q] =
      Inr (list_all (\<lambda>(row, c). inner row [p, q] \<le> c) (zip [[1, 0], [- tn, 1], [- tn, - 1]] [pmax, 0, 0]))" for env
    by (rule den_half_planes) (simp_all add: has_val_Fin neg del: dneg.simps)
  then have den: "den_set exact env (set_of_body ?P) [Fin p, Fin q] = Inr (p \<le> pmax \<and> \<bar>q\<bar> \<le> tn * p)" for env
    by (auto simp: inner_def algebra_simps)
  have "den_set exact env (set_of_body (Intersection [set_of_body ?P, set_of_body (disk_at_origin (Fin S))])) [Fin p, Fin q] =
      Inr (p \<le> pmax \<and> \<bar>q\<bar> \<le> tn * p \<and> p\<^sup>2 + q\<^sup>2 \<le> S\<^sup>2)" for env
    by (simp add: den_intersection den den_disk del: den_set.simps dneg.simps) blast
  then show ?thesis
    using poly by (simp add: pv_profile_def del: dneg.simps den_set.simps) (simp add: disk_at_origin_def init_matrix_def init_vector_def)
qed

definition pv_poly :: "real \<Rightarrow> real \<Rightarrow> monomial_sum" where
  "pv_poly a b = mono_plus (mono_scale exact (dneg (Fin a)) (monomial_of_var ''P'')) (mono_scale exact (Fin b) (var_power ''Q'' 2))"

lemma pv_poly_facts:
  "sum_variables (pv_poly a b) = [''P'', ''Q'']" "encodable (pv_poly a b)"
  "list_all (\<lambda>m. is_finite (coeff m)) (pv_poly a b)" "poly_fun (pv_poly a b) [''P'', ''Q''] [p, q] = b * q\<^sup>2 - a * p"
proof -
  show v: "sum_variables (pv_poly a b) = [''P'', ''Q'']"
    by (simp add: pv_poly_def sum_variables_def poly_build_defs less_eq_list_code)
  show "encodable (pv_poly a b)"
    unfolding encodable_def v
    by (simp add: pv_poly_def well_formed_def poly_build_defs sum_maxVarDegree_def mono_maxVarDegree_def)
  have "has_val (dmul exact (Fin 1) (dneg (Fin a))) (1 * - a)" by (intro val_intros)
  then show "list_all (\<lambda>m. is_finite (coeff m)) (pv_poly a b)" "poly_fun (pv_poly a b) [''P'', ''Q''] [p, q] = b * q\<^sup>2 - a * p"
    by (simp_all add: pv_poly_def poly_build_defs has_val_def poly_fun_def exponent_def numeral_2_eq_2 dmul_def)
qed

lemma pv_cost_den:
  "\<exists>P r. pv_cost exact (Fin a) (Fin b) = Inr (RealExpr None (Polynomial P)) \<and>
    den_real exact [''P'' \<mapsto> Fin p, ''Q'' \<mapsto> Fin q] (RealExpr None (Polynomial P)) = Inr r \<and> has_val r (b * q\<^sup>2 - a * p)"
proof -
  have "map [''P'' \<mapsto> Fin p, ''Q'' \<mapsto> Fin q] (sum_variables (pv_poly a b)) = map (\<lambda>x. Some (Fin x)) [p, q]"
    by (simp add: pv_poly_facts)
  from eval_built_polynomial [OF pv_poly_facts(2,3) this, of "- 1"] show ?thesis
    by (auto simp: poly_partial_none pv_poly_facts pv_cost_def pv_poly_def [symmetric] simp del: dneg.simps)
qed

text \<open>C14: In exact arithmetic, a receiver of a PV advertisement finds as PQ profile the triangle of real power at most \<open>Pmax\<close> and \<open>|Q| <= tanPhi * P\<close> cut by the disk of radius \<open>Srated\<close>, as cost \<open>b_pv * Q^2 - a_pv * P\<close>, and when it tests the belief function for the setpoint \<open>(p, q)\<close> it accepts exactly the points whose real power lies between \<open>p\<close> and \<open>max(0, p - Pdelta)\<close> and whose reactive power lies between \<open>q\<close> and \<open>sgn(q) * min(|q|, max(0, p - Pdelta) * tanPhi)\<close>: the reference to the named bound \<open>a\<close> is resolved by \<open>setAdv\<close>.\<close>

theorem pv_advertisement_meaning:
  "\<exists>a t u v r. pv_advertisement exact chk (Fin S) (Fin pmax) (Fin d) (Fin tn) (Fin a_pv) (Fin b_pv) Pimp Qimp empty_adv = Inr a \<and>
    received a (test_membership exact (30 + n) (get_pq_profile a) [Fin x, Fin y] Map.empty) =
      Some (Inr (x \<le> pmax \<and> \<bar>y\<bar> \<le> tn * x \<and> x\<^sup>2 + y\<^sup>2 \<le> S\<^sup>2), t) \<and>
    received a (evaluate exact (1 + n) (get_cost_function a) [''P'' \<mapsto> Fin x, ''Q'' \<mapsto> Fin y]) = Some (Inr r, u) \<and>
    is_finite r \<and> val r = b_pv * y\<^sup>2 - a_pv * x \<and>
    received a (test_membership exact (10 + n) (get_belief_function a) [Fin x, Fin y] [''P'' \<mapsto> Fin p, ''Q'' \<mapsto> Fin q]) =
      Some (Inr (between p (max 0 (p - d)) x \<and> between q (sgn q * min \<bar>q\<bar> (max 0 (p - d) * tn)) y), v)"
proof -
  obtain st where st: "pv_profile (Fin S) (Fin pmax) (Fin tn) = Inr st" "ref_free_set st" "calls_set st \<le> 30"
      "length (nodes_set st) \<le> 30" "concat (map named_real (nodes_set st)) = []"
      "\<And>env. den_set exact env st [Fin x, Fin y] = Inr (x \<le> pmax \<and> \<bar>y\<bar> \<le> tn * x \<and> x\<^sup>2 + y\<^sup>2 \<le> S\<^sup>2)"
    using pv_profile_den by blast
  obtain c r where c: "pv_cost exact (Fin a_pv) (Fin b_pv) = Inr (RealExpr None (Polynomial c))"
      "den_real exact [''P'' \<mapsto> Fin x, ''Q'' \<mapsto> Fin y] (RealExpr None (Polynomial c)) = Inr r" "has_val r (b_pv * y\<^sup>2 - a_pv * x)"
    using pv_cost_den by blast
  obtain bf where bf: "pv_belief exact chk (Fin d) (Fin tn) = Inr bf" "length (nodes_set bf) \<le> 10000"
      "map_of (rev (concat (map named_real (nodes_set bf)))) ''a'' = Some (RealExpr (Some ''a'') (BinaryOperation OpMax (real_lit (Fin 0))
      (RealExpr None (BinaryOperation OpSum (var_ref ''P'') (real_lit (dneg (Fin d)))))))"
    by (simp add: pv_belief_def build_real_expr_def expr_defs)
  let ?a = "(set_impl_setpoint Pimp Qimp empty_adv)\<lparr>pQProfile := Some st, beliefFunction := Some bf,
      costFunction := Some (RealExpr None (Polynomial c))\<rparr>"
  have a: "pv_advertisement exact chk (Fin S) (Fin pmax) (Fin d) (Fin tn) (Fin a_pv) (Fin b_pv) Pimp Qimp empty_adv = Inr ?a"
    by (simp add: pv_advertisement_def st c bf del: dneg.simps)
  have nodes: "length (profile_nodes ?a) \<le> 10000" "length (belief_nodes ?a) \<le> 10000" "length (cost_nodes ?a) \<le> 10000"
    using st bf by (simp_all add: profile_nodes_def belief_nodes_def cost_nodes_def)
  obtain s where s: "set_adv ?a new_advfunc = Some (Inr (), s)" "adv_valid s" "real_refs s ''a'' =
      Some (RealExpr (Some ''a'') (BinaryOperation OpMax (real_lit (Fin 0))
      (RealExpr None (BinaryOperation OpSum (var_ref ''P'') (real_lit (dneg (Fin d)))))))"
    using set_adv_run [OF nodes] st(5) bf
    by (simp add: adv_nodes_def profile_nodes_def belief_nodes_def cost_nodes_def del: dneg.simps)
  have p2: "has_val (pv_p2 (Fin p) (Fin d)) (max 0 (p + - d))"
    unfolding pv_p2_def by (intro val_intros)
  then have q2: "has_val (pv_q2 (Fin p) (Fin q) (Fin d) (Fin tn)) (sgn q * min \<bar>q\<bar> (max 0 (p + - d) * tn))"
    unfolding pv_q2_def by (intro val_intros)
  have belief: "\<exists>v. received ?a (test_membership exact (10 + n) (get_belief_function ?a) [Fin x, Fin y] [''P'' \<mapsto> Fin p, ''Q'' \<mapsto> Fin q]) =
      Some (Inr (between p (max 0 (p - d)) x \<and> between q (sgn q * min \<bar>q\<bar> (max 0 (p - d) * tn)) y), v)"
    using pv_belief_run [OF bf(1) s(3,2), of n "Fin x" "Fin y" "Fin p" "Fin q"] s(1)
      in_bounds_has_val [OF has_val_Fin has_val_Fin p2] in_bounds_has_val [OF has_val_Fin has_val_Fin q2]
    by (auto simp: received_def run_simps get_belief_function_def)
  have "calls_set st \<le> min (30 + n) 10000" using st(3) by simp
  from received_membership [OF nodes st(2) this, of exact "[Fin x, Fin y]" Map.empty]
    received_evaluate [OF nodes, of "RealExpr None (Polynomial c)" "1 + n" exact "[''P'' \<mapsto> Fin x, ''Q'' \<mapsto> Fin y]"]
  show ?thesis using a belief st(6) c(2,3) by (auto simp: get_pq_profile_def get_cost_function_def has_val_def)
qed

end
