(* ===== verification/Hlapi_Discrete.thy ===== *)
theory Hlapi_Discrete imports Hlapi_Props begin

text \<open>
  The belief functions of discrete devices, in exact arithmetic: the projection onto a list of
  setpoints and the rounding to a multiple of a step. Both are singletons, so their
  rectangular hull is the one point they denote.
\<close>

section \<open>The hull of a singleton belief\<close>

lemma received_hull_singleton:
  assumes "length (profile_nodes a) \<le> 10000" "length (belief_nodes a) \<le> 10000" "length (cost_nodes a) \<le> 10000"
    and bf: "get_belief_function a = set_of_body (Singleton es)"
    and rf: "\<forall>e \<in> set es. ref_free_real e" and len: "sum_list (map calls_real es) \<le> min n 9999"
    and den: "rmap (den_real M env) es = Inr v"
  shows "\<exists>t. received a (rectangular_hull M lp rs (Suc n) (get_belief_function a) env) =
    Some (Inr \<lparr> box_min = v, box_max = v \<rparr>, t)"
proof -
  obtain s where s: "set_adv a new_advfunc = Some (Inr (), s)" "adv_valid s" using set_adv_run [OF assms(1-3)] by simp
  have "refines env (sum_list (map calls_real es)) (eval_to_vector (eval M n) es) (rmap (den_real M env) es)"
    using refines_vector [OF interpreter_implements _ rf, of n env M] len by simp
  then have "refines env (sum_list (map calls_real es))
      (hull_body M lp rs (eval M n) (rect_hull M lp rs n) (se_body (set_of_body (Singleton es))))
      (rbind (Inr v) (\<lambda>v. Inr \<lparr> box_min = v, box_max = v \<rparr>))"
    unfolding den set_expr.sel hull_body.simps hull_singleton_def by (intro refines_bnd_same refines_ret) simp
  from rectangular_hull_run [OF this _ s(2)] len s(1) show ?thesis
    by (simp add: received_def run_simps bf del: rect_hull.simps)
qed

section \<open>Case distinctions on intervals\<close>

lemma in_bounds_below: "has_val b z \<Longrightarrow> in_bounds (Fin p) NInf b \<longleftrightarrow> p \<le> z"
  by (cases b) (auto simp: in_bounds_def dmin_def dmax_def dlt_def has_val_def)

lemma in_bounds_above: "has_val b z \<Longrightarrow> in_bounds (Fin p) b PInf \<longleftrightarrow> z \<le> p"
  by (cases b) (auto simp: in_bounds_def dmin_def dmax_def dlt_def has_val_def)

lemma in_bounds_all: "in_bounds (Fin p) NInf PInf"
  by (simp add: in_bounds_def dmin_def dmax_def dlt_def)

lemma den_interval: "den_set M env (set_of_body (Rectangle [(real_lit l, real_lit r)])) [x] = Inr (in_bounds x l r)"
  by (simp add: rguard_def)

lemma rfirst_add_case:
  "rfirst (\<lambda>(st, e). den_set M env st [x]) (\<lambda>(st, e). den_real M env e) (add_case v l r # cs) =
    (if in_bounds x l r then Inr v
     else rfirst (\<lambda>(st, e). den_set M env st [x]) (\<lambda>(st, e). den_real M env e) cs)"
  by (simp add: add_case_def den_interval del: den_set.simps)

lemma add_case_size:
  "case add_case v l r of (st, e) \<Rightarrow> ref_free_set st \<and> ref_free_real e \<and> calls_set st + calls_real e = 4 \<and>
    length (nodes_set st @ nodes_real e) = 4"
  by (simp add: add_case_def)

section \<open>Projection onto a list of setpoints\<close>

text \<open>The case the interpreter selects, on real numbers.\<close>

fun nearest :: "real list \<Rightarrow> real \<Rightarrow> real" where
  "nearest [] p = 0"
| "nearest [x] p = x"
| "nearest (x # y # ys) p = (if p \<le> (x + y) / 2 then x else nearest (y # ys) p)"

lemma nearest_mem: "xs \<noteq> [] \<Longrightarrow> nearest xs p \<in> set xs"
  by (induction xs p rule: nearest.induct) auto

lemma nearest_least: "sorted xs \<Longrightarrow> x \<in> set xs \<Longrightarrow> \<bar>p - nearest xs p\<bar> \<le> \<bar>p - x\<bar>"
proof (induction xs p arbitrary: x rule: nearest.induct)
  case (3 u v vs p)
  have le: "u \<le> v" "sorted (v # vs)" using 3(2) by auto
  show ?case
  proof (cases "p \<le> (u + v) / 2")
    case True
    have "x = u \<or> v \<le> x" using 3(2,3) by auto
    with True le(1) show ?thesis by auto
  next
    case False
    have IH: "\<bar>p - nearest (v # vs) p\<bar> \<le> \<bar>p - z\<bar>" if "z \<in> set (v # vs)" for z
      using "3.IH" [OF False le(2) that] .
    from IH [of v] IH [of x] False 3(3) le(1) show ?thesis by auto
  qed
qed auto

lemma insert_double_Fin: "insert_double (Fin x) (map Fin ys) = map Fin (insort x ys)"
  by (induction ys) (auto simp: dlt_def)

lemma sort_doubles_Fin: "sort_doubles (map Fin xs) = map Fin (sort xs)"
  by (induction xs) (auto simp: sort_doubles_def insert_double_Fin)

lemma proj_cases_den:
  "xs \<noteq> [] \<Longrightarrow> rfirst (\<lambda>(st, e). den_set exact env st [Fin p]) (\<lambda>(st, e). den_real exact env e)
     (proj_cases exact (Fin err) (map Fin xs)) = Inr (Fin (nearest xs (p - err)))"
proof (induction xs "p - err" rule: nearest.induct)
  case (3 x y ys)
  have "has_val (dadd exact (ddiv exact (dadd exact (Fin x) (Fin y)) (Fin 2)) (Fin err)) ((x + y) / 2 + err)"
    by (intro val_intros) simp
  moreover have "p \<le> (x + y) / 2 + err \<longleftrightarrow> p - err \<le> (x + y) / 2" by (simp add: field_simps)
  ultimately have "in_bounds (Fin p) NInf (dadd exact (ddiv exact (dadd exact (Fin x) (Fin y)) (Fin 2)) (Fin err))
      \<longleftrightarrow> p - err \<le> (x + y) / 2"
    using in_bounds_below by blast
  with 3 show ?case by (simp add: rfirst_add_case del: rfirst.simps)
qed (auto simp: rfirst_add_case in_bounds_all simp del: rfirst.simps)

lemma proj_cases_size:
  assumes "c \<in> set (proj_cases M err xs)"
  shows "case c of (st, e) \<Rightarrow> ref_free_set st \<and> ref_free_real e \<and> calls_set st + calls_real e = 4 \<and>
    length (nodes_set st @ nodes_real e) = 4"
  using assms by (induction M err xs rule: proj_cases.induct) (auto simp: add_case_def)

lemma length_proj_cases: "length (proj_cases M err xs) = length xs"
  by (induction M err xs rule: proj_cases.induct) auto

lemma sum_list_const: "(\<And>x. x \<in> set xs \<Longrightarrow> f x = k) \<Longrightarrow> sum_list (map f xs) = k * length xs" for k :: nat
  by (induction xs) auto

text \<open>The size of a case distinction all of whose cases are as \<open>addCase\<close> makes them.\<close>

lemma case_sizes:
  assumes "\<And>c. c \<in> set cs \<Longrightarrow> (case c of (st, e) \<Rightarrow> ref_free_set st \<and> ref_free_real e \<and>
      calls_set st + calls_real e = 4 \<and> length (nodes_set st @ nodes_real e) = 4)"
  shows "ref_free_real (RealExpr None (CaseDistinction vs cs))"
    and "calls_real (RealExpr None (CaseDistinction vs cs)) = 4 * length cs + 1"
    and "length (nodes_real (RealExpr None (CaseDistinction vs cs))) = 4 * length cs + 1"
proof -
  show "ref_free_real (RealExpr None (CaseDistinction vs cs))" using assms by fastforce
  show "calls_real (RealExpr None (CaseDistinction vs cs)) = 4 * length cs + 1"
    using assms by (auto intro!: sum_list_const)
  show "length (nodes_real (RealExpr None (CaseDistinction vs cs))) = 4 * length cs + 1"
    using assms by (auto simp: length_concat comp_def intro!: sum_list_const)
qed

lemma discrete_device_parts:
  assumes "belief = Inr (set_of_body (Singleton [c, var_ref ''Q'']))"
    and sizes: "ref_free_real c"
      "calls_real c \<le> k"
      "length (nodes_real c) \<le> k" "k \<le> 9000"
    and den: "den_real exact [''P'' \<mapsto> Fin p, ''Q'' \<mapsto> Fin q] c = Inr v"
  shows "\<exists>a t. discrete_device exact belief (Fin pmin) (Fin pmax) (Fin alpha) (Fin beta) Pimp Qimp empty_adv = Inr a \<and>
    received a (rectangular_hull exact lp rs (Suc (k + 1 + n)) (get_belief_function a) [''P'' \<mapsto> Fin p, ''Q'' \<mapsto> Fin q]) =
      Some (Inr \<lparr> box_min = [v, Fin q], box_max = [v, Fin q] \<rparr>, t)"
proof -
  obtain e where e: "normalized_cost exact (Fin beta) (Fin alpha) = Inr e" "length (nodes_real e) = 1"
    using normalized_cost_den by blast
  let ?a = "set_impl_setpoint Pimp Qimp (empty_adv\<lparr>
     pQProfile := Some (set_of_body (Rectangle [(real_lit (Fin pmin), real_lit (Fin pmax)), (real_lit (Fin 0), real_lit (Fin 0))])),
     beliefFunction := Some (set_of_body (Singleton [c, var_ref ''Q''])), costFunction := Some e\<rparr>)"
  have a: "discrete_device exact belief (Fin pmin) (Fin pmax) (Fin alpha) (Fin beta) Pimp Qimp empty_adv = Inr ?a"
    by (simp add: discrete_device_def assms(1) e)
  have nodes: "length (profile_nodes ?a) \<le> 10000" "length (belief_nodes ?a) \<le> 10000" "length (cost_nodes ?a) \<le> 10000"
    using e sizes(3,4)
    by (simp_all add: profile_nodes_def belief_nodes_def cost_nodes_def set_impl_setpoint_def)
  have bf: "get_belief_function ?a = set_of_body (Singleton [c, var_ref ''Q''])"
    by (simp add: get_belief_function_def set_impl_setpoint_def)
  have den': "rmap (den_real exact [''P'' \<mapsto> Fin p, ''Q'' \<mapsto> Fin q]) [c, var_ref ''Q''] = Inr [v, Fin q]"
    using den by (simp add: lookup_or_def)
  have "\<exists>t. received ?a (rectangular_hull exact lp rs (Suc (k + 1 + n)) (get_belief_function ?a)
      [''P'' \<mapsto> Fin p, ''Q'' \<mapsto> Fin q]) = Some (Inr \<lparr> box_min = [v, Fin q], box_max = [v, Fin q] \<rparr>, t)"
    using sizes by (intro received_hull_singleton [OF nodes bf _ _ den'])
      simp_all
  with a show ?thesis by blast
qed

text \<open>C10: In exact arithmetic, the belief of a discrete device about a request \<open>(P, Q)\<close> is the one point \<open>(x, Q)\<close> where \<open>x\<close> is an implementable setpoint nearest to \<open>P\<close> minus the accumulated error, for any list of one to 2000 setpoints in any order.\<close>

theorem discrete_device_projects:
  assumes "points \<noteq> []" and "length points \<le> 2000"
  shows "\<exists>a t x. real_discrete_device exact (Fin pmin) (Fin pmax) (map Fin points) (Fin err) (Fin alpha) (Fin beta)
      Pimp Qimp empty_adv = Inr a \<and>
    received a (rectangular_hull exact lp rs (8003 + n) (get_belief_function a) [''P'' \<mapsto> Fin p, ''Q'' \<mapsto> Fin q]) =
      Some (Inr \<lparr> box_min = [Fin x, Fin q], box_max = [Fin x, Fin q] \<rparr>, t) \<and>
    x \<in> set points \<and> (\<forall>y \<in> set points. \<bar>p - err - x\<bar> \<le> \<bar>p - err - y\<bar>)"
proof -
  let ?cs = "proj_cases exact (Fin err) (map Fin (sort points))"
  let ?c = "RealExpr None (CaseDistinction [''P''] ?cs)"
  have belief: "proj_belief exact (map Fin points) (Fin err) = Inr (set_of_body (Singleton [?c, var_ref ''Q'']))"
    using assms(1) by (auto simp: proj_belief_def sort_doubles_Fin)
  have sizes: "ref_free_real ?c" "calls_real ?c \<le> 8001" "length (nodes_real ?c) \<le> 8001"
    using case_sizes [of ?cs "[''P'']", OF proj_cases_size] assms(2) by (simp_all add: length_proj_cases)
  have "sort points \<noteq> []" using assms(1) by (metis length_0_conv length_sort)
  then have den: "den_real exact [''P'' \<mapsto> Fin p, ''Q'' \<mapsto> Fin q] ?c = Inr (Fin (nearest (sort points) (p - err)))"
    using proj_cases_den [of "sort points" "[''P'' \<mapsto> Fin p, ''Q'' \<mapsto> Fin q]" p err] by (simp add: lookup_or_def)
  have near: "nearest (sort points) (p - err) \<in> set points"
    "\<forall>y \<in> set points. \<bar>p - err - nearest (sort points) (p - err)\<bar> \<le> \<bar>p - err - y\<bar>"
    using nearest_mem [OF \<open>sort points \<noteq> []\<close>] nearest_least [OF sorted_sort] by auto
  have "Suc (8001 + 1 + n) = 8003 + n" by simp
  then show ?thesis
    using discrete_device_parts [OF belief sizes _ den, of pmin pmax alpha beta Pimp Qimp lp rs n] near
    by (auto simp: real_discrete_device_def simp del: rectangular_hull_def)
qed

theorem discrete_device_projects_witness:
  "\<exists>a t. real_discrete_device exact (Fin 0) (Fin 5) (map Fin [4, 1]) (Fin 0) (Fin 0) (Fin 0) (Fin 0) (Fin 0) empty_adv = Inr a \<and>
    received a (rectangular_hull exact (\<lambda>_ _ _ _ _ _. (Lp_Other, [])) (\<lambda>_ _. 0) 8003 (get_belief_function a)
      [''P'' \<mapsto> Fin 2, ''Q'' \<mapsto> Fin 7]) = Some (Inr \<lparr> box_min = [Fin 1, Fin 7], box_max = [Fin 1, Fin 7] \<rparr>, t)"
proof -
  obtain a t x where "real_discrete_device exact (Fin 0) (Fin 5) (map Fin [4, 1]) (Fin 0) (Fin 0) (Fin 0) (Fin 0) (Fin 0) empty_adv = Inr a"
    "received a (rectangular_hull exact (\<lambda>_ _ _ _ _ _. (Lp_Other, [])) (\<lambda>_ _. 0) (8003 + 0) (get_belief_function a)
      [''P'' \<mapsto> Fin 2, ''Q'' \<mapsto> Fin 7]) = Some (Inr \<lparr> box_min = [Fin x, Fin 7], box_max = [Fin x, Fin 7] \<rparr>, t)"
    "x \<in> set [4, 1]" "\<forall>y \<in> set [4, 1]. \<bar>2 - 0 - x\<bar> \<le> \<bar>2 - 0 - y\<bar>"
    using discrete_device_projects [of "[4, 1]" 0 5 0 0 0 "Fin 0" "Fin 0" "\<lambda>_ _ _ _ _ _. (Lp_Other, [])" "\<lambda>_ _. 0" 0 2 7]
    by (auto simp del: rectangular_hull_def)
  moreover from this(3,4) have "x = 1" by auto
  ultimately show ?thesis by auto
qed

section \<open>Rounding to a multiple of the step\<close>

lemma has_val_fmod [val_intros]:
  "has_val a x \<Longrightarrow> has_val b y \<Longrightarrow> y \<noteq> 0 \<Longrightarrow> has_val (dfmod a b) (x - of_int (trunc_real (x / y)) * y)"
  by (cases a; cases b) (auto simp: has_val_def dfmod_def Let_def zero_of_def)

lemma has_val_round [val_intros]: "has_val a x \<Longrightarrow> has_val (dround a) (of_int (round_away x))"
  by (cases a) (auto simp: has_val_def integral_def zero_of_def round_away_def)

text \<open>The expression of the last case, and the value it has.\<close>

definition round_value :: "double \<Rightarrow> double \<Rightarrow> double \<Rightarrow> double \<Rightarrow> double" where
  "round_value step err corr p = dadd exact (dmul exact step
     (dround (dmul exact (dadd exact (dadd exact p (dneg err)) (dneg corr)) (ddiv exact (Fin 1) step)))) corr"

lemma rounding_cases_den:
  assumes "rounding_cases exact chk (Fin step) (Fin err) (Fin pmin) (Fin pmax) = Inr cs"
  shows "den_real exact [''P'' \<mapsto> Fin p, ''Q'' \<mapsto> Fin q] (RealExpr None (CaseDistinction [''P''] cs)) =
      Inr (if p \<le> pmin + err then Fin pmin else if pmax + err \<le> p then Fin pmax
        else round_value (Fin step) (Fin err) (dfmod (Fin pmin) (Fin step)) (Fin p))"
    and "ref_free_real (RealExpr None (CaseDistinction [''P''] cs))"
    and "calls_real (RealExpr None (CaseDistinction [''P''] cs)) \<le> 30"
    and "length (nodes_real (RealExpr None (CaseDistinction [''P''] cs))) \<le> 30"
proof -
  have low: "in_bounds (Fin p) NInf (dadd exact (Fin pmin) (Fin err)) \<longleftrightarrow> p \<le> pmin + err"
    by (rule in_bounds_below) (intro val_intros)
  have high: "in_bounds (Fin p) (dadd exact (Fin pmax) (Fin err)) PInf \<longleftrightarrow> pmax + err \<le> p"
    by (rule in_bounds_above) (intro val_intros)
  show "den_real exact [''P'' \<mapsto> Fin p, ''Q'' \<mapsto> Fin q] (RealExpr None (CaseDistinction [''P''] cs)) =
      Inr (if p \<le> pmin + err then Fin pmin else if pmax + err \<le> p then Fin pmax
        else round_value (Fin step) (Fin err) (dfmod (Fin pmin) (Fin step)) (Fin p))"
    using assms
    by (auto simp: rounding_cases_def build_real_expr_def expr_defs add_case_def lookup_or_def rguard_def low high
        in_bounds_all round_value_def simp del: dneg.simps)
  show "ref_free_real (RealExpr None (CaseDistinction [''P''] cs))"
    "calls_real (RealExpr None (CaseDistinction [''P''] cs)) \<le> 30"
    "length (nodes_real (RealExpr None (CaseDistinction [''P''] cs))) \<le> 30"
    using assms by (auto simp: rounding_cases_def build_real_expr_def expr_defs add_case_def simp del: dneg.simps)
qed

lemma round_away_near: "\<bar>x - of_int (round_away x)\<bar> \<le> 1 / 2"
proof (cases "0 \<le> x")
  case True
  have "of_int \<lfloor>x + 1 / 2\<rfloor> \<le> x + 1 / 2" "x + 1 / 2 < of_int \<lfloor>x + 1 / 2\<rfloor> + 1" by linarith+
  with True show ?thesis unfolding round_away_def by (simp only: if_True abs_le_iff) linarith
next
  case False
  have "x - 1 / 2 \<le> of_int \<lceil>x - 1 / 2\<rceil>" "of_int \<lceil>x - 1 / 2\<rceil> - 1 < x - 1 / 2" by linarith+
  with False show ?thesis unfolding round_away_def by (simp only: if_False abs_le_iff) linarith
qed

lemma round_value_near:
  assumes "0 < step"
  shows "\<exists>v k. has_val (round_value (Fin step) (Fin err) (dfmod (Fin pmin) (Fin step)) (Fin p)) v \<and>
    v = pmin + of_int k * step \<and> \<bar>v - (p - err)\<bar> \<le> step / 2"
proof -
  let ?c = "pmin - of_int (trunc_real (pmin / step)) * step"
  let ?x = "(p + - err + - ?c) * (1 / step)"
  let ?v = "step * of_int (round_away ?x) + ?c"
  have "has_val (round_value (Fin step) (Fin err) (dfmod (Fin pmin) (Fin step)) (Fin p)) ?v"
    unfolding round_value_def using assms by (intro val_intros) auto
  moreover have "?v = pmin + of_int (round_away ?x - trunc_real (pmin / step)) * step"
    by (simp add: algebra_simps)
  moreover have "\<bar>?v - (p - err)\<bar> \<le> step / 2"
  proof -
    have "?v - (p - err) = step * (of_int (round_away ?x) - ?x)" using assms by (simp add: field_simps)
    then have "\<bar>?v - (p - err)\<bar> = step * \<bar>?x - of_int (round_away ?x)\<bar>"
      using assms by (simp add: abs_mult abs_minus_commute)
    then show ?thesis using round_away_near [of ?x] assms by (simp add: mult_left_mono [of _ "1 / 2" step, simplified])
  qed
  ultimately show ?thesis by blast
qed

text \<open>In exact arithmetic, the belief of a uniform discrete device with a positive step is the one point \<open>(v, Q)\<close> where, below \<open>Pmin\<close> plus the error, \<open>v\<close> is \<open>Pmin\<close>, above \<open>Pmax\<close> plus the error it is \<open>Pmax\<close>, and in between it is a setpoint \<open>Pmin + k * step\<close> at most half a step from \<open>P\<close> minus the error.\<close>

theorem uniform_device_rounds:
  assumes "0 < step"
  shows "\<exists>a t v. uniform_discrete_device exact chk (Fin pmin) (Fin pmax) (Fin step) (Fin err) (Fin alpha) (Fin beta)
      Pimp Qimp empty_adv = Inr a \<and>
    received a (rectangular_hull exact lp rs (32 + n) (get_belief_function a) [''P'' \<mapsto> Fin p, ''Q'' \<mapsto> Fin q]) =
      Some (Inr \<lparr> box_min = [v, Fin q], box_max = [v, Fin q] \<rparr>, t) \<and> is_finite v \<and>
    (if p \<le> pmin + err then val v = pmin else if pmax + err \<le> p then val v = pmax
     else (\<exists>k. val v = pmin + of_int k * step) \<and> \<bar>val v - (p - err)\<bar> \<le> step / 2)"
proof -
  obtain cs where cs: "rounding_cases exact chk (Fin step) (Fin err) (Fin pmin) (Fin pmax) = Inr cs"
    by (simp add: rounding_cases_def build_real_expr_def expr_defs)
  note parts = rounding_cases_den [OF cs]
  have belief: "round_belief exact chk (Fin step) (Fin err) (Fin pmin) (Fin pmax) =
      Inr (set_of_body (Singleton [RealExpr None (CaseDistinction [''P''] cs), var_ref ''Q'']))"
    by (simp add: round_belief_def cs)
  have "Suc (30 + 1 + n) = 32 + n" by simp
  with discrete_device_parts [OF belief parts(2-4) _ parts(1), of pmin pmax alpha beta Pimp Qimp lp rs n]
    round_value_near [OF assms, of err pmin p]
  show ?thesis
    by (fastforce simp: uniform_discrete_device_def has_val_def simp del: rectangular_hull_def)
qed

theorem uniform_device_rounds_witness:
  "\<exists>a t v. uniform_discrete_device exact True (Fin 0) (Fin 10) (Fin 2) (Fin 0) (Fin 0) (Fin 0) (Fin 0) (Fin 0) empty_adv = Inr a \<and>
    received a (rectangular_hull exact (\<lambda>_ _ _ _ _ _. (Lp_Other, [])) (\<lambda>_ _. 0) 32 (get_belief_function a)
      [''P'' \<mapsto> Fin (9 / 2), ''Q'' \<mapsto> Fin 7]) = Some (Inr \<lparr> box_min = [v, Fin 7], box_max = [v, Fin 7] \<rparr>, t) \<and> val v = 4"
proof -
  obtain a t v where v: "uniform_discrete_device exact True (Fin 0) (Fin 10) (Fin 2) (Fin 0) (Fin 0) (Fin 0) (Fin 0) (Fin 0) empty_adv = Inr a"
    "received a (rectangular_hull exact (\<lambda>_ _ _ _ _ _. (Lp_Other, [])) (\<lambda>_ _. 0) (32 + 0) (get_belief_function a)
      [''P'' \<mapsto> Fin (9 / 2), ''Q'' \<mapsto> Fin 7]) = Some (Inr \<lparr> box_min = [v, Fin 7], box_max = [v, Fin 7] \<rparr>, t)"
    "(if 9 / 2 \<le> 0 + (0::real) then val v = 0 else if 10 + 0 \<le> (9 / 2 :: real) then val v = 10
     else (\<exists>k. val v = 0 + of_int k * 2) \<and> \<bar>val v - (9 / 2 - 0)\<bar> \<le> 2 / 2)"
    using uniform_device_rounds [of 2 True 0 10 0 0 0 "Fin 0" "Fin 0" "\<lambda>_ _ _ _ _ _. (Lp_Other, [])" "\<lambda>_ _. 0" 0 "9 / 2" 7]
    by (auto simp del: rectangular_hull_def)
  then obtain k :: int where k: "val v = of_int k * 2" "\<bar>val v - 9 / 2\<bar> \<le> 1" by auto
  then have "7 / 4 \<le> real_of_int k" "real_of_int k \<le> 11 / 4" by auto
  then have "k = 2" by linarith
  with k v show ?thesis by auto
qed

end
