(* ===== verification/Hlapi_Codes.thy ===== *)
theory Hlapi_Codes imports Hlapi_Discrete begin

text \<open>
  The return codes and the outputs of the C functions of \<open>hlapi.cpp\<close>.
\<close>

section \<open>Making advertisements\<close>

lemma to_int32_small: "n < 2 ^ 31 \<Longrightarrow> to_int32 n = int n"
  using sint_word_small [of "int n"] by (simp add: to_int32_def)

definition adv_message :: "32 word \<Rightarrow> advertisement \<Rightarrow> message" where
  "adv_message agent a = \<lparr> agentId = agent, body = Advertisement_Msg (Some a) \<rparr>"

lemma make_advertisement_run:
  assumes "well_behaved lib (adv_message agent a)" "0 \<le> maxBufSize" "maxBufSize < 2 ^ 31"
    and "length (out_buffer out) = nat maxBufSize" "length (packed_bytes lib (adv_message agent a)) < 2 ^ 31"
  shows "make_advertisement lib maxBufSize agent (Inr a) out =
    (let packed = packed_bytes lib (adv_message agent a); n = length packed in
     Inr (if int n \<le> maxBufSize then 0 else hlapi_buffer_too_small,
       \<lparr> out_buffer = (if int n \<le> maxBufSize then packed @ drop n (out_buffer out) else out_buffer out),
         packed_bytesize = int n \<rparr>))"
  using assms
  by (auto simp: make_advertisement_def adv_message_def [symmetric] pack_run to_size_t_small Let_def overwrite_def
      to_int32_small nat_le_iff le_nat_iff)

lemma battery_succeeds: "\<exists>a. battery_advertisement exact (Fin pmin) (Fin pmax) (Fin S) (Fin c1) (Fin c2) Pimp Qimp empty_adv = Inr a
    \<and> implementedSetpoint a = [Pimp, Qimp]"
  using battery_profile_den [of pmin pmax S] normalized_cost_den [of c1 c2]
  by (fastforce simp: battery_advertisement_def set_impl_setpoint_def)

text \<open>C34: \<open>makeFuelCellAdvertisement\<close> returns -2 and touches neither output when a power bound is negative; otherwise it reports the size of the packed message, and returns 0 with the message in the buffer when it fits, -3 with the buffer unchanged when it does not.\<close>

theorem fuel_cell_return_codes:
  assumes "\<not> (dlt Pmin (Fin 0) \<or> dlt Pmax (Fin 0)) \<Longrightarrow>
      battery_advertisement M Pmin Pmax Srated c1 c2 Pimp Qimp empty_adv = Inr a"
    and "well_behaved lib (adv_message agent a)" and "0 \<le> maxBufSize" and "maxBufSize < 2 ^ 31"
    and "length (out_buffer out) = nat maxBufSize" and "length (packed_bytes lib (adv_message agent a)) < 2 ^ 31"
  shows "make_fuel_cell_advertisement M lib maxBufSize agent Pmin Pmax Srated c1 c2 Pimp Qimp out =
    (if dlt Pmin (Fin 0) \<or> dlt Pmax (Fin 0) then Inr (- 2, out)
     else let packed = packed_bytes lib (adv_message agent a); n = length packed in
       if int n \<le> maxBufSize
       then Inr (0, \<lparr> out_buffer = packed @ drop n (out_buffer out), packed_bytesize = int n \<rparr>)
       else Inr (- 3, \<lparr> out_buffer = out_buffer out, packed_bytesize = int n \<rparr>))"
proof (cases "dlt Pmin (Fin 0) \<or> dlt Pmax (Fin 0)")
  case False
  with assms(1) show ?thesis
    using make_advertisement_run [OF assms(2-6)]
    by (simp add: make_fuel_cell_advertisement_def make_battery_advertisement_def hlapi_codes Let_def del: One_nat_def)
qed (simp add: make_fuel_cell_advertisement_def hlapi_codes)

lemma example_packs: "length (packed_bytes (example_lib m) m) = 22"
  by (simp add: example_lib_facts)

theorem fuel_cell_return_codes_witness:
  "\<exists>m. make_fuel_cell_advertisement exact (example_lib m) 30 7 (Fin 0) (Fin 5) (Fin 6) (Fin 0) (Fin 0) (Fin 1) (Fin 0)
      \<lparr> out_buffer = replicate 30 0, packed_bytesize = 0 \<rparr> =
     Inr (0, \<lparr> out_buffer = [1, 2] @ replicate 20 7 @ replicate 8 0, packed_bytesize = 22 \<rparr>) \<and>
   make_fuel_cell_advertisement exact (example_lib m) 3 7 (Fin 0) (Fin 5) (Fin 6) (Fin 0) (Fin 0) (Fin 1) (Fin 0)
      \<lparr> out_buffer = replicate 3 0, packed_bytesize = 0 \<rparr> =
     Inr (- 3, \<lparr> out_buffer = replicate 3 0, packed_bytesize = 22 \<rparr>)"
proof -
  obtain a where a: "battery_advertisement exact (Fin 0) (Fin 5) (Fin 6) (Fin 0) (Fin 0) (Fin 1) (Fin 0) empty_adv = Inr a"
    using battery_succeeds by blast
  let ?m = "adv_message 7 a"
  have "packed_bytes (example_lib ?m) ?m @ drop 22 (replicate 30 0) = [1, 2] @ replicate 20 7 @ replicate 8 0"
    by (simp add: example_lib_facts)
  then show ?thesis
    using fuel_cell_return_codes [of "Fin 0" "Fin 5" exact "Fin 6" "Fin 0" "Fin 0" "Fin 1" "Fin 0" a "example_lib ?m" 7 30
        "\<lparr> out_buffer = replicate 30 0, packed_bytesize = 0 \<rparr>", OF a example_lib_facts(1)]
      fuel_cell_return_codes [of "Fin 0" "Fin 5" exact "Fin 6" "Fin 0" "Fin 0" "Fin 1" "Fin 0" a "example_lib ?m" 7 3
        "\<lparr> out_buffer = replicate 3 0, packed_bytesize = 0 \<rparr>", OF a example_lib_facts(1)]
    by (intro exI [of _ ?m]) (simp add: example_packs dlt_def Let_def)
qed

text \<open>A negative \<open>maxBufSize\<close> is converted to a huge size: the size test passes and the packed message is copied beyond the end of a buffer that is too short for it, instead of an error being returned.\<close>

theorem negative_size_overflows:
  assumes "battery_advertisement M Pmin Pmax Srated c1 c2 Pimp Qimp empty_adv = Inr a"
    and "well_behaved lib (adv_message agent a)" and "- (2 ^ 31) \<le> maxBufSize" and "maxBufSize < 0"
    and "length (packed_bytes lib (adv_message agent a)) < 2 ^ 63"
    and "length (out_buffer out) < length (packed_bytes lib (adv_message agent a))"
  shows "make_battery_advertisement M lib maxBufSize agent Pmin Pmax Srated c1 c2 Pimp Qimp out = Inl Undefined"
proof -
  have "maxBufSize mod 2 ^ 64 = maxBufSize + 2 ^ 64"
    using assms(3,4) mod_add_self2 [of maxBufSize "2 ^ 64"] by (simp add: mod_pos_pos_trivial del: mod_add_self2)
  then have "2 ^ 63 \<le> to_size_t maxBufSize" using assms(3) by (simp add: to_size_t_def)
  with assms show ?thesis
    by (simp add: make_battery_advertisement_def make_advertisement_def adv_message_def [symmetric] pack_run
        caught_def is_exception_def)
qed

theorem negative_size_overflows_witness:
  "\<exists>m. make_battery_advertisement exact (example_lib m) (- 1) 7 (Fin 0) (Fin 5) (Fin 6) (Fin 0) (Fin 0) (Fin 1) (Fin 0)
      \<lparr> out_buffer = [], packed_bytesize = 0 \<rparr> = Inl Undefined"
proof -
  obtain a where a: "battery_advertisement exact (Fin 0) (Fin 5) (Fin 6) (Fin 0) (Fin 0) (Fin 1) (Fin 0) empty_adv = Inr a"
    using battery_succeeds by blast
  show ?thesis
    using negative_size_overflows [OF a example_lib_facts(1), where maxBufSize = "- 1" and agent = 7
        and out = "\<lparr> out_buffer = [], packed_bytesize = 0 \<rparr>"]
    by (intro exI [of _ "adv_message 7 a"]) (simp add: example_packs)
qed

section \<open>Parsing\<close>

lemma read_message_run:
  "0 \<le> bufSize \<Longrightarrow> bufSize < 2 ^ 31 \<Longrightarrow> bufSize \<le> int (length inBuffer) \<Longrightarrow> read_message lib inBuffer bufSize =
    (case read_packed lib (take (nat bufSize) inBuffer) of None \<Rightarrow> Inl Kj_Exception | Some m \<Rightarrow> Inr m)"
  by (auto simp: read_message_def to_size_t_small nat_le_iff)

lemma caught_kj: "caught Kj_Exception out = Inr (- 1, out)"
  by (simp add: caught_def is_exception_def hlapi_codes)

text \<open>C35: What \<open>makeBatteryAdvertisement\<close> put into a buffer, \<open>getImplSetpointFromAdv\<close> reads back: the implemented setpoint and the agent id, with return code 1, for any message library whose reader inverts its packed writer on the message.\<close>

theorem implemented_setpoint_roundtrip:
  assumes "battery_advertisement M Pmin Pmax Srated c1 c2 Pimp Qimp empty_adv = Inr a"
    and "well_behaved lib (adv_message agent a)" and "read_packed lib (packed_bytes lib (adv_message agent a)) = Some (adv_message agent a)"
    and "length (packed_bytes lib (adv_message agent a)) \<le> nat maxBufSize" and "0 \<le> maxBufSize" and "maxBufSize < 2 ^ 31"
    and "length (out_buffer out) = nat maxBufSize"
  shows "\<exists>made. make_battery_advertisement M lib maxBufSize agent Pmin Pmax Srated c1 c2 Pimp Qimp out = Inr (0, made) \<and>
    get_impl_setpoint lib chk (out_buffer made) (packed_bytesize made) p =
      Inr (1, \<lparr> out_P = Pimp, out_Q = Qimp, out_sender = agent \<rparr>)"
proof -
  let ?b = "packed_bytes lib (adv_message agent a)"
  have "int (length ?b) \<le> maxBufSize" using assms(4,5) by (simp add: le_nat_iff)
  with assms(6) have len: "length ?b < 2 ^ 31" "int (length ?b) \<le> maxBufSize" by auto
  have sp: "implementedSetpoint a = [Pimp, Qimp]"
    using assms(1) by (auto simp: battery_advertisement_def rbind_Inr_iff set_impl_setpoint_def)
  have made: "make_battery_advertisement M lib maxBufSize agent Pmin Pmax Srated c1 c2 Pimp Qimp out =
      Inr (0, \<lparr> out_buffer = ?b @ drop (length ?b) (out_buffer out), packed_bytesize = int (length ?b) \<rparr>)"
    using make_advertisement_run [OF assms(2,5,6,7) len(1)] len(2) assms(1)
    by (simp add: make_battery_advertisement_def Let_def)
  have "read_message lib (?b @ drop (length ?b) (out_buffer out)) (int (length ?b)) = Inr (adv_message agent a)"
    using len by (subst read_message_run) (auto simp: assms(3))
  then show ?thesis
    unfolding made
    by (simp add: get_impl_setpoint_def message_adv_def adv_message_def store_setpoint_def list_at_def sp Let_def)
qed

theorem implemented_setpoint_roundtrip_witness:
  "\<exists>m made. make_battery_advertisement exact (example_lib m) 30 7 (Fin 0) (Fin 5) (Fin 6) (Fin 0) (Fin 0) (Fin 1) (Fin 2)
      \<lparr> out_buffer = replicate 30 0, packed_bytesize = 0 \<rparr> = Inr (0, made) \<and>
    get_impl_setpoint (example_lib m) True (out_buffer made) (packed_bytesize made) \<lparr> out_P = Nan, out_Q = Nan, out_sender = 0 \<rparr> =
      Inr (1, \<lparr> out_P = Fin 1, out_Q = Fin 2, out_sender = 7 \<rparr>)"
proof -
  obtain a where a: "battery_advertisement exact (Fin 0) (Fin 5) (Fin 6) (Fin 0) (Fin 0) (Fin 1) (Fin 2) empty_adv = Inr a"
    using battery_succeeds by blast
  show ?thesis
    using implemented_setpoint_roundtrip [OF a example_lib_facts(1), where maxBufSize = 30 and agent = 7
        and out = "\<lparr> out_buffer = replicate 30 0, packed_bytesize = 0 \<rparr>" and chk = True]
    by (intro exI [of _ "adv_message 7 a"]) (simp add: example_packs, simp add: example_lib_def)
qed

text \<open>C33: With Cap'n Proto's checks on, \<open>parseRequest\<close> on a buffer of the size it is told returns: -1 when the bytes are no message, hold no request, or hold a request whose setpoint has fewer than two entries, 0 for a request without a setpoint, and 1 with the first two entries otherwise. Without the checks, a setpoint with fewer than two entries is read out of bounds.\<close>

theorem parse_request_codes:
  assumes "0 \<le> bufSize" and "bufSize < 2 ^ 31" and "bufSize \<le> int (length inBuffer)"
  shows "(\<exists>code out'. parse_request lib True inBuffer bufSize out = Inr (code, out') \<and>
      code = (case read_packed lib (take (nat bufSize) inBuffer) of
        None \<Rightarrow> - 1
      | Some m \<Rightarrow> (case body m of
          Advertisement_Msg a \<Rightarrow> - 1
        | Request_Msg None \<Rightarrow> 0
        | Request_Msg (Some req) \<Rightarrow> (case setpoint req of None \<Rightarrow> 0 | Some (p # q # _) \<Rightarrow> 1 | Some _ \<Rightarrow> - 1))) \<and>
      (\<forall>m req p q rest. read_packed lib (take (nat bufSize) inBuffer) = Some m \<longrightarrow> body m = Request_Msg (Some req) \<longrightarrow>
         setpoint req = Some (p # q # rest) \<longrightarrow> out' = \<lparr> out_P = p, out_Q = q, out_sender = agentId m \<rparr>)) \<and>
    (\<forall>m req sp. read_packed lib (take (nat bufSize) inBuffer) = Some m \<longrightarrow> body m = Request_Msg (Some req) \<longrightarrow>
      setpoint req = Some sp \<longrightarrow> length sp < 2 \<longrightarrow> parse_request lib False inBuffer bufSize out = Inl Undefined)"
proof (cases "read_packed lib (take (nat bufSize) inBuffer)")
  case None
  then show ?thesis by (simp add: parse_request_def read_message_run [OF assms] caught_kj)
next
  case (Some m)
  have no: "caught Undefined x = Inl Undefined" for x :: parsed by (simp add: caught_def is_exception_def)
  note defs = parse_request_def read_message_run [OF assms] caught_kj get_request_def store_setpoint_def list_at_def no Let_def Some
  show ?thesis
  proof (cases "body m")
    case (Request_Msg r)
    show ?thesis
    proof (cases r)
      case (Some req)
      show ?thesis
      proof (cases "setpoint req")
        case (Some sp)
        consider "sp = []" | x where "sp = [x]" | x y zs where "sp = x # y # zs" by (metis neq_Nil_conv)
        then show ?thesis by cases (simp_all add: defs Request_Msg \<open>r = Some req\<close> Some)
      qed (simp add: defs Request_Msg \<open>r = Some req\<close>)
    qed (simp add: defs Request_Msg)
  qed (simp add: defs)
qed

definition example_request :: message where
  "example_request = \<lparr> agentId = 9, body = Request_Msg (Some \<lparr> setpoint = Some [Fin 3, Fin 4] \<rparr>) \<rparr>"

theorem parse_request_codes_witness:
  "parse_request (example_lib example_request) True [1, 2] 2 \<lparr> out_P = Nan, out_Q = Nan, out_sender = 0 \<rparr> =
     Inr (1, \<lparr> out_P = Fin 3, out_Q = Fin 4, out_sender = 9 \<rparr>)"
  using parse_request_codes [of 2 "[1, 2]" "example_lib example_request" "\<lparr> out_P = Nan, out_Q = Nan, out_sender = 0 \<rparr>"]
  by (auto simp: example_request_def example_lib_def)

end
