(* ===== verification/Validation.thy ===== *)
theory Validation imports Hlapi Rect_Hull_Props begin

text \<open>
  \<open>commelec-api/adv-validation.hpp\<close>: the checks on an advertisement before it is sent. The
  random numbers are a parameter: \<open>rand k a b\<close> is the \<open>k\<close>-th call of Eigen's
  \<open>random(a, b)\<close>. \<open>n\<close> is the fuel of the interpreter, \<open>f\<close> that of the rejection loop.
\<close>

section \<open>Construction of the interpreter\<close>

definition construct_advfunc :: "advertisement \<Rightarrow> (unit result \<times> advfunc) option" where
  "construct_advfunc a = find_references (new_advfunc\<lparr>adv := a, adv_valid := True\<rparr>)"

section \<open>Sampling\<close>

type_synonym random_source = "nat \<Rightarrow> double \<Rightarrow> double \<Rightarrow> double"

definition sample :: "random_source \<Rightarrow> nat \<Rightarrow> aligned_box \<Rightarrow> double list \<times> nat" where
  "sample rand k b =
     (map (\<lambda>d. rand (k + d) (box_min b ! d) (box_max b ! d)) [0 ..< length (box_min b)], k + length (box_min b))"

text \<open>Access to the coordinates of a point of the wrong dimension fails Eigen's assertion.\<close>

fun sample_setpoint :: "platform \<Rightarrow> nat \<Rightarrow> random_source \<Rightarrow> set_expr \<Rightarrow> aligned_box \<Rightarrow> nat \<Rightarrow> nat \<Rightarrow>
    (double list \<times> nat) interp" where
  "sample_setpoint M n rand prof bb 0 k = (\<lambda>s. None)"
| "sample_setpoint M n rand prof bb (Suc f) k = (case sample rand k bb of (pt, k') \<Rightarrow>
     bnd (guard_comp (2 \<le> length pt) Assert_Failed) (\<lambda>_.
     bnd (test_membership M n prof [pt ! 0, pt ! 1] Map.empty) (\<lambda>inside.
       if inside then ret (pt, k') else sample_setpoint M n rand prof bb f k')))"

definition at_point :: "double list \<Rightarrow> value_map" where
  "at_point pt = [''P'' \<mapsto> pt ! 0, ''Q'' \<mapsto> pt ! 1]"

definition cost_on_random_point :: "platform \<Rightarrow> nat \<Rightarrow> random_source \<Rightarrow> nat \<Rightarrow> advertisement \<Rightarrow> aligned_box \<Rightarrow> nat \<Rightarrow>
    (double \<times> nat) interp" where
  "cost_on_random_point M n rand f a bb k =
     bnd (sample_setpoint M n rand (get_pq_profile a) bb f k) (\<lambda>(pt, k').
     bnd (evaluate M n (get_cost_function a) (at_point pt)) (\<lambda>c. ret (c, k')))"

definition belief_box_on_random_point :: "platform \<Rightarrow> lp_solver \<Rightarrow> (nat \<Rightarrow> nat \<Rightarrow> nat) \<Rightarrow> nat \<Rightarrow> random_source \<Rightarrow> nat \<Rightarrow>
    advertisement \<Rightarrow> aligned_box \<Rightarrow> nat \<Rightarrow> (aligned_box \<times> nat) interp" where
  "belief_box_on_random_point M lp rs n rand f a bb k =
     bnd (sample_setpoint M n rand (get_pq_profile a) bb f k) (\<lambda>(pt, k').
     bnd (rectangular_hull M lp rs n (get_belief_function a) (at_point pt)) (\<lambda>hl. ret (hl, k')))"

section \<open>The validation\<close>

definition check_definitions :: "advertisement \<Rightarrow> unit result" where
  "check_definitions a =
     (if pQProfile a = None then Inl (Invalid_Adv ''Uninitialized PQ Profile'')
      else if costFunction a = None then Inl (Invalid_Adv ''Uninitialized Cost Function'')
      else if beliefFunction a = None then Inl (Invalid_Adv ''Uninitialized Belief Function'')
      else if length (implementedSetpoint a) \<noteq> 2 then Inl (Invalid_Adv ''Uninitialized Implemented Setpoint'')
      else Inr ())"

definition cfEvaluations :: nat where "cfEvaluations = 100"
definition bfEvaluations :: nat where "bfEvaluations = 100"

fun cost_loop :: "platform \<Rightarrow> nat \<Rightarrow> random_source \<Rightarrow> nat \<Rightarrow> advertisement \<Rightarrow> aligned_box \<Rightarrow> nat \<Rightarrow> double \<Rightarrow> nat \<Rightarrow>
    (double \<times> nat) interp" where
  "cost_loop M n rand f a bb 0 dummy k = ret (dummy, k)"
| "cost_loop M n rand f a bb (Suc i) dummy k =
     bnd (cost_on_random_point M n rand f a bb k) (\<lambda>(c, k').
       cost_loop M n rand f a bb i (dadd M dummy c) k')"

text \<open>The box that \<open>beliefBB.merged\<close> returns is dropped.\<close>

fun belief_loop :: "platform \<Rightarrow> lp_solver \<Rightarrow> (nat \<Rightarrow> nat \<Rightarrow> nat) \<Rightarrow> nat \<Rightarrow> random_source \<Rightarrow> nat \<Rightarrow> advertisement \<Rightarrow>
    aligned_box \<Rightarrow> nat \<Rightarrow> nat \<Rightarrow> nat interp" where
  "belief_loop M lp rs n rand f a bb 0 k = ret k"
| "belief_loop M lp rs n rand f a bb (Suc i) k =
     bnd (belief_box_on_random_point M lp rs n rand f a bb k) (\<lambda>(hl, k').
       belief_loop M lp rs n rand f a bb i k')"

definition init_and_validate :: "platform \<Rightarrow> lp_solver \<Rightarrow> (nat \<Rightarrow> nat \<Rightarrow> nat) \<Rightarrow> nat \<Rightarrow> random_source \<Rightarrow> nat \<Rightarrow>
    advertisement \<Rightarrow> unit interp" where
  "init_and_validate M lp rs n rand f a =
     bnd (from_result (check_definitions a)) (\<lambda>_.
     bnd (rectangular_hull M lp rs n (get_pq_profile a) Map.empty) (\<lambda>bb.
     bnd (cost_loop M n rand f a bb cfEvaluations (Fin 0) 0) (\<lambda>(dummy, k).
     bnd (belief_loop M lp rs n rand f a bb bfEvaluations k) (\<lambda>_. ret ()))))"

text \<open>The constructor from a reader, and the one from a buffer; \<open>read\<close> is the packing policy's reader.\<close>

definition validate_adv :: "platform \<Rightarrow> lp_solver \<Rightarrow> (nat \<Rightarrow> nat \<Rightarrow> nat) \<Rightarrow> nat \<Rightarrow> random_source \<Rightarrow> nat \<Rightarrow>
    advertisement \<Rightarrow> (unit result \<times> advfunc) option" where
  "validate_adv M lp rs n rand f a = (case construct_advfunc a of
     None \<Rightarrow> None | Some (Inl e, s) \<Rightarrow> Some (Inl e, s) | Some (Inr _, s) \<Rightarrow> init_and_validate M lp rs n rand f a s)"

definition validate_buffer :: "platform \<Rightarrow> lp_solver \<Rightarrow> (nat \<Rightarrow> nat \<Rightarrow> nat) \<Rightarrow> nat \<Rightarrow> random_source \<Rightarrow> nat \<Rightarrow>
    (byte list \<Rightarrow> message option) \<Rightarrow> byte list \<Rightarrow> unit result option" where
  "validate_buffer M lp rs n rand f read buf = (case read buf of
     None \<Rightarrow> Some (Inl Kj_Exception)
   | Some m \<Rightarrow> (case message_adv m of
       None \<Rightarrow> Some (Inl (Invalid_Adv ''Message is not an advertisement''))
     | Some a \<Rightarrow> map_option fst (bnd (set_adv a) (\<lambda>_. init_and_validate M lp rs n rand f a) new_advfunc)))"

section \<open>Properties\<close>

text \<open>What the rejection loop accepts passes the membership test; what it never accepts it never leaves.\<close>

lemma sample_setpoint_inside:
  "sample_setpoint M n rand prof bb f k s = Some (Inr (pt, k'), t) \<Longrightarrow>
    2 \<le> length pt \<and> (\<exists>u. test_membership M n prof [pt ! 0, pt ! 1] Map.empty u = Some (Inr True, t))"
proof (induction f arbitrary: k s)
  case (Suc f)
  then show ?case by (auto simp: bnd_Inr_iff guard_comp_def ret_def raise_def sample_def split: if_splits)
qed simp

lemma sample_finite:
  "(\<And>k a b. is_finite (rand k a b)) \<Longrightarrow> sample rand k bb = (pt, k') \<Longrightarrow> list_all is_finite pt"
  by (auto simp: sample_def list_all_iff)

lemma sample_setpoint_stuck:
  assumes "ref_free_set prof" "calls_set prof \<le> 10000" "calls_set prof \<le> n" "2 \<le> length (box_min bb)"
    and fin: "\<And>k a b. is_finite (rand k a b)"
    and out: "\<And>x y. is_finite x \<Longrightarrow> is_finite y \<Longrightarrow> den_set M Map.empty prof [x, y] = Inr False"
  shows "adv_valid s \<Longrightarrow> sample_setpoint M n rand prof bb f k s = None"
proof (induction f arbitrary: k s)
  case (Suc f)
  obtain pt k' where p: "sample rand k bb = (pt, k')" "2 \<le> length pt"
    using assms(4) by (auto simp: sample_def)
  then have "0 < length pt" "1 < length pt" by auto
  then have "is_finite (pt ! 0)" "is_finite (pt ! 1)"
    using sample_finite [OF fin p(1)] by (auto simp: list_all_length)
  then obtain d where "test_membership M n prof [pt ! 0, pt ! 1] Map.empty s =
      Some (Inr False, s\<lparr>bound_vars := Map.empty, nesting_depth := d\<rparr>)"
    using membership_denotes_lemma [OF Suc.prems assms(1-3), of M "[pt ! 0, pt ! 1]" Map.empty] out by auto
  with p Suc show ?case by (simp add: run_simps)
qed simp

text \<open>C40: A validation of an advertisement whose PQ profile contains no point never returns: the rejection loop of \<open>sampleSetpoint\<close> draws points for ever, whatever the (finite) random numbers.\<close>

theorem empty_profile_never_validated:
  assumes "check_definitions a = Inr ()" and "adv_valid s"
    and "rectangular_hull M lp rs n (get_pq_profile a) Map.empty s = Some (Inr bb, t)" and "adv_valid t"
    and "2 \<le> length (box_min bb)" and "ref_free_set (get_pq_profile a)" and "calls_set (get_pq_profile a) \<le> min n 10000"
    and "\<And>x y. is_finite x \<Longrightarrow> is_finite y \<Longrightarrow> den_set M Map.empty (get_pq_profile a) [x, y] = Inr False"
    and "\<And>k x y. is_finite (rand k x y)"
  shows "init_and_validate M lp rs n rand f a s = None"
proof -
  have "sample_setpoint M n rand (get_pq_profile a) bb f 0 t = None"
    using assms by (intro sample_setpoint_stuck) auto
  then have "cost_loop M n rand f a bb (Suc 99) (Fin 0) 0 t = None"
    by (simp add: run_simps cost_on_random_point_def del: Suc_numeral)
  then show ?thesis
    using assms(1,3) by (simp add: init_and_validate_def run_simps cfEvaluations_def)
qed

definition disjoint_boxes :: set_expr where
  "disjoint_boxes = set_of_body (Intersection [literal_box [(0, 1), (0, 1)], literal_box [(2, 3), (0, 1)]])"

lemma disjoint_boxes_empty: "is_finite x \<Longrightarrow> is_finite y \<Longrightarrow> den_set M env disjoint_boxes [x, y] = Inr False"
proof -
  assume "is_finite x" "is_finite y"
  then have "rall (\<lambda>st. den_set M env st [x, y]) [literal_box [(0, 1), (0, 1)], literal_box [(2, 3), (0, 1)]] = Inr False"
    by (cases x; cases y)
      (auto simp: literal_box_def rguard_def in_bounds_def dmin_def dmax_def dlt_def)
  then show ?thesis by (simp add: disjoint_boxes_def)
qed

lemma disjoint_boxes_hull:
  "\<exists>bb t. rectangular_hull exact lp rs (Suc (Suc (Suc (Suc n)))) disjoint_boxes Map.empty (new_advfunc\<lparr>adv_valid := True\<rparr>) = Some (Inr bb, t) \<and>
    length (box_min bb) = 2 \<and> adv_valid t"
  by (simp add: rectangular_hull_def start_call_run run_simps disjoint_boxes_def literal_box_def hull_rectangle_def
      hull_intersection_def box_intersection_def vec_op_def new_advfunc_def)

theorem empty_profile_never_validated_witness:
  "\<forall>f. init_and_validate exact (\<lambda>_ _ _ _ _ _. (Lp_Other, [])) (\<lambda>_ _. 0) 11 (\<lambda>_ a _. Fin 0) f
     (empty_adv\<lparr>pQProfile := Some disjoint_boxes, beliefFunction := Some disjoint_boxes,
        costFunction := Some (real_lit (Fin 0)), implementedSetpoint := [Fin 0, Fin 0]\<rparr>)
     (new_advfunc\<lparr>adv_valid := True\<rparr>) = None"
proof -
  obtain bb t where "rectangular_hull exact (\<lambda>_ _ _ _ _ _. (Lp_Other, [])) (\<lambda>_ _. 0) 11 disjoint_boxes Map.empty
      (new_advfunc\<lparr>adv_valid := True\<rparr>) = Some (Inr bb, t)" "length (box_min bb) = 2" "adv_valid t"
    using disjoint_boxes_hull [of "\<lambda>_ _ _ _ _ _. (Lp_Other, [])" "\<lambda>_ _. 0" 7] by auto
  moreover have "ref_free_set disjoint_boxes" "calls_set disjoint_boxes = 11"
    by (simp_all add: disjoint_boxes_def literal_box_def)
  ultimately show ?thesis
    by (intro allI empty_profile_never_validated)
      (auto simp: check_definitions_def get_pq_profile_def disjoint_boxes_empty)
qed

section \<open>What an accepted advertisement has\<close>

lemma cost_loop_first:
  assumes "cost_loop M n rand f a bb (Suc i) dummy k s = Some (Inr r, t)"
  shows "\<exists>pt u c v. test_membership M n (get_pq_profile a) [pt ! 0, pt ! 1] Map.empty u = Some (Inr True, v) \<and>
    (\<exists>w. evaluate M n (get_cost_function a) (at_point pt) v = Some (Inr c, w))"
proof -
  obtain pt k' v c w where "sample_setpoint M n rand (get_pq_profile a) bb f k s = Some (Inr (pt, k'), v)"
      "evaluate M n (get_cost_function a) (at_point pt) v = Some (Inr c, w)"
    using assms by (auto simp: bnd_Inr_iff cost_on_random_point_def)
  then show ?thesis using sample_setpoint_inside by blast
qed

lemma belief_loop_first:
  assumes "belief_loop M lp rs n rand f a bb (Suc i) k s = Some (Inr r, t)"
  shows "\<exists>pt u hl v. test_membership M n (get_pq_profile a) [pt ! 0, pt ! 1] Map.empty u = Some (Inr True, v) \<and>
    (\<exists>w. rectangular_hull M lp rs n (get_belief_function a) (at_point pt) v = Some (Inr hl, w))"
proof -
  obtain pt k' v hl w where "sample_setpoint M n rand (get_pq_profile a) bb f k s = Some (Inr (pt, k'), v)"
      "rectangular_hull M lp rs n (get_belief_function a) (at_point pt) v = Some (Inr hl, w)"
    using assms by (auto simp: bnd_Inr_iff belief_box_on_random_point_def)
  then show ?thesis using sample_setpoint_inside by blast
qed

text \<open>C17: A buffer that passes the validation holds an advertisement with all three expressions and a setpoint of two entries, and the interpreter has found points of its PQ profile where the cost function has a value and where the belief function has a rectangular hull.\<close>

theorem accepted_advertisement_sound:
  assumes "validate_buffer M lp rs n rand f read buf = Some (Inr ())"
  shows "\<exists>m a. read buf = Some m \<and> message_adv m = Some a \<and> pQProfile a \<noteq> None \<and> costFunction a \<noteq> None \<and>
    beliefFunction a \<noteq> None \<and> length (implementedSetpoint a) = 2 \<and>
    (\<exists>x y s t c u. test_membership M n (get_pq_profile a) [x, y] Map.empty s = Some (Inr True, t) \<and>
       evaluate M n (get_cost_function a) [''P'' \<mapsto> x, ''Q'' \<mapsto> y] t = Some (Inr c, u)) \<and>
    (\<exists>x y s t hl u. test_membership M n (get_pq_profile a) [x, y] Map.empty s = Some (Inr True, t) \<and>
       rectangular_hull M lp rs n (get_belief_function a) [''P'' \<mapsto> x, ''Q'' \<mapsto> y] t = Some (Inr hl, u))"
proof -
  obtain m a s t where m: "read buf = Some m" "message_adv m = Some a" "init_and_validate M lp rs n rand f a s = Some (Inr (), t)"
    using assms by (auto simp: validate_buffer_def bnd_Inr_iff split: option.splits)
  from m(3) obtain bb dk s1 s2 k s3 where "check_definitions a = Inr ()"
      "cost_loop M n rand f a bb (Suc 99) (Fin 0) 0 s1 = Some (Inr dk, s2)"
      "belief_loop M lp rs n rand f a bb (Suc 99) (snd dk) s2 = Some (Inr k, s3)"
    by (auto simp: init_and_validate_def bnd_Inr_iff cfEvaluations_def bfEvaluations_def from_result_def
        simp del: cost_loop.simps belief_loop.simps)
  with m(1,2) cost_loop_first [of M n rand f a bb 99 "Fin 0" 0 s1 dk s2]
    belief_loop_first [of M lp rs n rand f a bb 99 "snd dk" s2 k s3]
  show ?thesis
    by (simp add: check_definitions_def at_point_def del: cost_loop.simps belief_loop.simps split: if_splits) metis
qed

text \<open>An advertisement that passes: a one-point profile and belief, a constant cost.\<close>

definition point_adv :: advertisement where
  "point_adv = \<lparr> pQProfile = Some (literal_box [(0, 0), (0, 0)]), beliefFunction = Some (literal_box [(0, 0), (0, 0)]),
     costFunction = Some (real_lit (Fin 1)), implementedSetpoint = [Fin 0, Fin 0] \<rparr>"

lemma point_adv_hull:
  "adv_valid s \<Longrightarrow> \<exists>t. rectangular_hull exact lp rs (Suc (Suc n)) (literal_box [(0, 0), (0, 0)]) env s =
    Some (Inr \<lparr> box_min = [Fin 0, Fin 0], box_max = [Fin 0, Fin 0] \<rparr>, t) \<and> adv_valid t"
  by (simp add: rectangular_hull_def start_call_run run_simps literal_box_def hull_rectangle_def dmin_dmax_Fin)

lemma point_adv_sample:
  assumes "adv_valid s" "5 \<le> n"
  shows "\<exists>t. sample_setpoint exact n (\<lambda>_ a _. a) (literal_box [(0, 0), (0, 0)])
      \<lparr> box_min = [Fin 0, Fin 0], box_max = [Fin 0, Fin 0] \<rparr> (Suc f) k s = Some (Inr ([Fin 0, Fin 0], k + 2), t) \<and> adv_valid t"
proof -
  have "den_set exact Map.empty (literal_box [(0, 0), (0, 0)]) [Fin 0, Fin 0] = Inr True"
    using den_literal_box [of "[0, 0]" "[(0, 0), (0, 0)]" exact Map.empty] by (auto simp: less_Suc_eq)
  moreover have "ref_free_set (literal_box [(0, 0), (0, 0)])" by (simp add: literal_box_def)
  ultimately obtain d where "test_membership exact n (literal_box [(0, 0), (0, 0)]) [Fin 0, Fin 0] Map.empty s =
      Some (Inr True, s\<lparr>bound_vars := Map.empty, nesting_depth := d\<rparr>)"
    using membership_denotes_lemma [OF assms(1), of "literal_box [(0, 0), (0, 0)]" n exact "[Fin 0, Fin 0]" Map.empty] assms(2)
    by (auto simp: calls_literal_box)
  with assms(1) show ?thesis by (simp add: sample_def run_simps upt_rec)
qed

lemma point_adv_parts:
  "get_pq_profile point_adv = literal_box [(0, 0), (0, 0)]" "get_belief_function point_adv = literal_box [(0, 0), (0, 0)]"
  "get_cost_function point_adv = real_lit (Fin 1)" "check_definitions point_adv = Inr ()"
  by (simp_all add: point_adv_def get_pq_profile_def get_belief_function_def get_cost_function_def check_definitions_def)

lemma point_adv_cost_loop:
  "adv_valid s \<Longrightarrow> 3 \<le> n \<Longrightarrow> \<exists>r t. cost_loop exact (Suc (Suc n)) (\<lambda>_ a _. a) (Suc 0) point_adv \<lparr> box_min = [Fin 0, Fin 0], box_max = [Fin 0, Fin 0] \<rparr> i d k s =
    Some (Inr r, t) \<and> adv_valid t"
proof (induction i arbitrary: d k s)
  case (Suc i)
  obtain t where "sample_setpoint exact (Suc (Suc n)) (\<lambda>_ a _. a) (literal_box [(0, 0), (0, 0)])
      \<lparr> box_min = [Fin 0, Fin 0], box_max = [Fin 0, Fin 0] \<rparr> (Suc 0) k s = Some (Inr ([Fin 0, Fin 0], k + 2), t)" "adv_valid t"
    using point_adv_sample [OF Suc.prems(1), of "Suc (Suc n)" 0 k] Suc.prems(2) by auto
  moreover obtain u where "evaluate exact (Suc (Suc n)) (real_lit (Fin 1)) (at_point [Fin 0, Fin 0]) t = Some (Inr (Fin 1), u)" "adv_valid u"
    using \<open>adv_valid t\<close> by (simp add: evaluate_def start_call_run run_simps del: Suc_numeral)
  ultimately show ?case
    using Suc.IH Suc.prems(2) by (simp add: run_simps cost_on_random_point_def point_adv_parts del: sample_setpoint.simps Suc_numeral)
qed (simp add: run_simps)

lemma point_adv_belief_loop:
  "adv_valid s \<Longrightarrow> 3 \<le> n \<Longrightarrow> \<exists>r t. belief_loop exact lp rs (Suc (Suc n)) (\<lambda>_ a _. a) (Suc 0) point_adv \<lparr> box_min = [Fin 0, Fin 0], box_max = [Fin 0, Fin 0] \<rparr> i k s =
    Some (Inr r, t)"
proof (induction i arbitrary: k s)
  case (Suc i)
  obtain t where "sample_setpoint exact (Suc (Suc n)) (\<lambda>_ a _. a) (literal_box [(0, 0), (0, 0)])
      \<lparr> box_min = [Fin 0, Fin 0], box_max = [Fin 0, Fin 0] \<rparr> (Suc 0) k s = Some (Inr ([Fin 0, Fin 0], k + 2), t)" "adv_valid t"
    using point_adv_sample [OF Suc.prems(1), of "Suc (Suc n)" 0 k] Suc.prems(2) by auto
  then show ?case
    using Suc.IH Suc.prems(2) point_adv_hull [of t lp rs n "at_point [Fin 0, Fin 0]"]
    by (auto simp: run_simps belief_box_on_random_point_def point_adv_parts simp del: sample_setpoint.simps Suc_numeral)
qed (simp add: run_simps)

lemma point_adv_accepted:
  assumes "3 \<le> n"
  shows "validate_buffer exact lp rs (Suc (Suc n)) (\<lambda>_ a _. a) (Suc 0)
      (\<lambda>_. Some \<lparr> agentId = 1, body = Advertisement_Msg (Some point_adv) \<rparr>) buf = Some (Inr ())"
proof -
  let ?s = "new_advfunc\<lparr>adv := point_adv, adv_valid := True\<rparr>"
  have set: "set_adv point_adv new_advfunc = Some (Inr (), ?s)"
    by (simp add: set_adv_def find_references_def run_simps point_adv_def literal_box_def record_real_def record_set_def new_advfunc_def)
  obtain t where t: "rectangular_hull exact lp rs (Suc (Suc n)) (literal_box [(0, 0), (0, 0)]) Map.empty ?s =
      Some (Inr \<lparr> box_min = [Fin 0, Fin 0], box_max = [Fin 0, Fin 0] \<rparr>, t)" "adv_valid t"
    using point_adv_hull [of ?s lp rs n Map.empty] by auto
  obtain r u where u: "cost_loop exact (Suc (Suc n)) (\<lambda>_ a _. a) (Suc 0) point_adv \<lparr> box_min = [Fin 0, Fin 0], box_max = [Fin 0, Fin 0] \<rparr>
      cfEvaluations (Fin 0) 0 t = Some (Inr r, u)" "adv_valid u"
    using point_adv_cost_loop [OF t(2) assms] by blast
  obtain q v where "belief_loop exact lp rs (Suc (Suc n)) (\<lambda>_ a _. a) (Suc 0) point_adv \<lparr> box_min = [Fin 0, Fin 0], box_max = [Fin 0, Fin 0] \<rparr>
      bfEvaluations (snd r) u = Some (Inr q, v)"
    using point_adv_belief_loop [OF u(2) assms] by blast
  with set t(1) u(1) show ?thesis
    by (simp add: validate_buffer_def message_adv_def init_and_validate_def run_simps point_adv_parts split_def del: Suc_numeral)
qed

theorem accepted_advertisement_sound_witness:
  "\<exists>m a. validate_buffer exact (\<lambda>_ _ _ _ _ _. (Lp_Other, [])) (\<lambda>_ _. 0) 10 (\<lambda>_ a _. a) 1
      (\<lambda>_. Some \<lparr> agentId = 1, body = Advertisement_Msg (Some point_adv) \<rparr>) [] = Some (Inr ()) \<and>
    message_adv m = Some a \<and> pQProfile a \<noteq> None \<and> length (implementedSetpoint a) = 2"
proof -
  have ok: "validate_buffer exact (\<lambda>_ _ _ _ _ _. (Lp_Other, [])) (\<lambda>_ _. 0) 10 (\<lambda>_ a _. a) 1
      (\<lambda>_. Some \<lparr> agentId = 1, body = Advertisement_Msg (Some point_adv) \<rparr>) [] = Some (Inr ())"
    using point_adv_accepted [of 8] by simp
  from accepted_advertisement_sound [OF ok] ok show ?thesis by blast
qed

end
