(* ===== verification/Json.thy ===== *)
theory Json imports Schema begin

text \<open>
  \<open>commelec-api/json.cpp\<close>: the accessors for the members of a JSON object and the reading
  and writing of JSON files. The parser and the printer of RapidJSON are parameters; its
  values are the datatype \<open>json\<close>, and its accessors (\<open>FindMember\<close>, \<open>GetInt\<close>, \<open>GetDouble\<close>,
  \<open>GetBool\<close>, \<open>GetString\<close>) assert the type of the value they are used on.
\<close>

section \<open>Values\<close>

datatype json =
    JNull
  | JBool bool
  | JInt int
  | JDouble double
  | JString string
  | JArray "json list"
  | JObject "(string \<times> json) list"

fun is_object :: "json \<Rightarrow> bool" where
  "is_object (JObject ms) = True"
| "is_object _ = False"

text \<open>\<open>FindMember\<close> returns the first member of the name.\<close>

fun find_member :: "json \<Rightarrow> string \<Rightarrow> json option result" where
  "find_member (JObject ms) k = Inr (map_of ms k)"
| "find_member _ k = Inl Assert_Failed"

text \<open>\<open>AddMember\<close> appends.\<close>

fun add_member :: "json \<Rightarrow> string \<Rightarrow> json \<Rightarrow> json result" where
  "add_member (JObject ms) k v = Inr (JObject (ms @ [(k, v)]))"
| "add_member _ k v = Inl Assert_Failed"

fun json_int :: "json \<Rightarrow> int result" where
  "json_int (JInt i) = (if - (2 ^ 31) \<le> i \<and> i < 2 ^ 31 then Inr i else Inl Assert_Failed)"
| "json_int _ = Inl Assert_Failed"

fun json_double :: "platform \<Rightarrow> json \<Rightarrow> double result" where
  "json_double M (JInt i) = Inr (if i = 0 then Fin 0 else rnd M (of_int i))"
| "json_double M (JDouble x) = Inr x"
| "json_double M _ = Inl Assert_Failed"

fun json_bool :: "json \<Rightarrow> bool result" where
  "json_bool (JBool b) = Inr b"
| "json_bool _ = Inl Assert_Failed"

text \<open>\<open>GetString\<close> returns a C string, the \<open>std::string\<close> made from it ends at the first NUL.\<close>

fun json_string :: "json \<Rightarrow> string result" where
  "json_string (JString s) = Inr (takeWhile (\<lambda>c. c \<noteq> CHR 0x00) s)"
| "json_string _ = Inl Assert_Failed"

fun json_elements :: "json \<Rightarrow> json list result" where
  "json_elements (JArray xs) = Inr xs"
| "json_elements _ = Inl Assert_Failed"

section \<open>Members of an object\<close>

definition member_or :: "error \<Rightarrow> json \<Rightarrow> string \<Rightarrow> json result" where
  "member_or e d name = rbind (find_member d name) (\<lambda>m. case m of None \<Rightarrow> Inl e | Some v \<Rightarrow> Inr v)"

definition missing :: "string \<Rightarrow> string \<Rightarrow> error" where
  "missing name ty = Runtime_Error (name @ '' field missing in JSON object '' @ ty)"

definition getInt :: "json \<Rightarrow> string \<Rightarrow> int result" where
  "getInt d name = rbind (member_or (missing name ''(datatype: int)'') d name) json_int"

definition getDouble :: "platform \<Rightarrow> json \<Rightarrow> string \<Rightarrow> double result" where
  "getDouble M d name = rbind (member_or (missing name ''(datatype: double)'') d name) (json_double M)"

definition getBool :: "json \<Rightarrow> string \<Rightarrow> bool result" where
  "getBool d name = rbind (member_or (missing name ''(datatype: boolean)'') d name) json_bool"

definition getBool_default :: "json \<Rightarrow> string \<Rightarrow> bool \<Rightarrow> bool result" where
  "getBool_default d name dflt = rbind (find_member d name) (\<lambda>m. case m of
     None \<Rightarrow> Inr dflt | Some v \<Rightarrow> json_bool v)"

definition getRef :: "json \<Rightarrow> string \<Rightarrow> json result" where
  "getRef d name = member_or (missing name []) d name"

definition getString :: "json \<Rightarrow> string \<Rightarrow> string result" where
  "getString d name = rbind (member_or (missing name ''(datatype: string)'') d name) json_string"

lemmas json_get_defs = getInt_def getDouble_def getBool_def getBool_default_def getRef_def getString_def
  member_or_def missing_def

section \<open>Files\<close>

text \<open>
  What is used of RapidJSON's parser and printer, on the contents of a file or a packet. A
  document whose parsing fails keeps its value, which for a fresh document is null.
\<close>

record 'b json_lib =
  json_parse :: "'b list \<Rightarrow> json option"
  json_print :: "json \<Rightarrow> 'b list"

definition parse_into :: "'b json_lib \<Rightarrow> 'b list \<Rightarrow> json \<Rightarrow> json" where
  "parse_into J input d = (case json_parse J input of None \<Rightarrow> d | Some v \<Rightarrow> v)"

definition read_json :: "'b json_lib \<Rightarrow> 'b list option \<Rightarrow> json result" where
  "read_json J contents = (case contents of None \<Rightarrow> Inl Assert_Failed
     | Some input \<Rightarrow> Inr (parse_into J input JNull))"

text \<open>The files of the system, its directories, and the names that \<open>fopen\<close> refuses to create.\<close>

record 'b file_system =
  files :: "string \<Rightarrow> 'b list option"
  directory :: "string \<Rightarrow> bool"
  unwritable :: "string \<Rightarrow> bool"

definition readJSONfile :: "'b json_lib \<Rightarrow> 'b file_system \<Rightarrow> string \<Rightarrow> json result" where
  "readJSONfile J fs name = read_json J (files fs name)"

definition readJSONstdin :: "'b json_lib \<Rightarrow> 'b list \<Rightarrow> json result" where
  "readJSONstdin J input = read_json J (Some input)"

definition writeJSONfile :: "'b json_lib \<Rightarrow> string \<Rightarrow> json \<Rightarrow> 'b file_system \<Rightarrow> 'b file_system result" where
  "writeJSONfile J name d fs = (if unwritable fs name then Inl Thrown_Int
     else Inr (fs\<lparr>files := (files fs)(name \<mapsto> json_print J d)\<rparr>))"

end
