(* ===== verification/Daemon_Adv.thy ===== *)
theory Daemon_Adv imports Hlapi Json begin

text \<open>
  The first part of \<open>commelec-api/daemon.cpp\<close>: the types of resources and the functions that
  turn the JSON object received from a resource agent into an advertisement. \<open>M\<close> is the
  floating-point platform, \<open>chk\<close> tells whether Cap'n Proto's debug checks are on.
\<close>

section \<open>Resources\<close>

datatype resource =
    Battery | PV | Fuel_Cell | Uncontrollable_Load | Uncontrollable_Generator
  | Discrete | Discrete_Unif | Zenone | Custom

definition resource_map :: "(string \<times> resource) list" where
  "resource_map =
     [(''pv'', PV), (''battery'', Battery), (''fuelcell'', Fuel_Cell),
      (''uncontr-load'', Uncontrollable_Load), (''uncontr-gen'', Uncontrollable_Generator),
      (''custom'', Custom), (''discrete-uniform'', Discrete_Unif), (''zenone'', Zenone),
      (''discrete'', Discrete)]"

text \<open>\<open>unordered_map::at\<close>.\<close>

definition resource_at :: "string \<Rightarrow> resource result" where
  "resource_at name = (case map_of resource_map name of None \<Rightarrow> Inl Out_Of_Range | Some r \<Rightarrow> Inr r)"

section \<open>Advertisements from parameters\<close>

definition create_batt_adv :: "platform \<Rightarrow> json \<Rightarrow> advertisement result" where
  "create_batt_adv M d =
     rbind (getDouble M d ''Pmin'') (\<lambda>Pmin.
     rbind (getDouble M d ''Pmax'') (\<lambda>Pmax.
     rbind (getDouble M d ''Srated'') (\<lambda>Srated.
     rbind (getDouble M d ''coeffP'') (\<lambda>coeffP.
     rbind (getDouble M d ''coeffPsquared'') (\<lambda>coeffPsquared.
     rbind (getDouble M d ''Pimp'') (\<lambda>Pimp.
     rbind (getDouble M d ''Qimp'') (\<lambda>Qimp.
       battery_advertisement M Pmin Pmax Srated coeffP coeffPsquared Pimp Qimp empty_adv)))))))"

definition create_uncontr_load_adv :: "platform \<Rightarrow> bool \<Rightarrow> json \<Rightarrow> advertisement result" where
  "create_uncontr_load_adv M chk d =
     rbind (getDouble M d ''Srated'') (\<lambda>Srated.
     rbind (getDouble M d ''Pexp'') (\<lambda>Pexp.
     rbind (getDouble M d ''Qexp'') (\<lambda>Qexp.
     rbind (getDouble M d ''dPup'') (\<lambda>dPup.
     rbind (getDouble M d ''dPdown'') (\<lambda>dPdown.
     rbind (getDouble M d ''dQup'') (\<lambda>dQup.
     rbind (getDouble M d ''dQdown'') (\<lambda>dQdown.
     rbind (getDouble M d ''Pimp'') (\<lambda>Pimp.
     rbind (getDouble M d ''Qimp'') (\<lambda>Qimp.
       uncontrollable_load M chk Pexp Qexp Srated dPup dPdown dQup dQdown Pimp Qimp empty_adv)))))))))"

definition create_uncontr_gen_adv :: "platform \<Rightarrow> bool \<Rightarrow> json \<Rightarrow> advertisement result" where
  "create_uncontr_gen_adv M chk d =
     rbind (getDouble M d ''Srated'') (\<lambda>Srated.
     rbind (getDouble M d ''Pexp'') (\<lambda>Pexp.
     rbind (getDouble M d ''Qexp'') (\<lambda>Qexp.
     rbind (getDouble M d ''dPup'') (\<lambda>dPup.
     rbind (getDouble M d ''dPdown'') (\<lambda>dPdown.
     rbind (getDouble M d ''dQup'') (\<lambda>dQup.
     rbind (getDouble M d ''dQdown'') (\<lambda>dQdown.
     rbind (getDouble M d ''Pimp'') (\<lambda>Pimp.
     rbind (getDouble M d ''Qimp'') (\<lambda>Qimp.
     rbind (getDouble M d ''PmaxAbsorb'') (\<lambda>maxPowerAbsorbtion.
       uncontrollable_generator M chk Pexp Qexp Srated dPup dPdown dQup dQdown Pimp Qimp
         maxPowerAbsorbtion empty_adv))))))))))"

text \<open>\<open>d["points"]\<close> asserts that the member is there.\<close>

definition json_points :: "platform \<Rightarrow> json \<Rightarrow> double list result" where
  "json_points M d =
     rbind (member_or Assert_Failed d ''points'') (\<lambda>v. rbind (json_elements v) (rmap (json_double M)))"

definition create_discrete_adv :: "platform \<Rightarrow> json \<Rightarrow> advertisement result" where
  "create_discrete_adv M d =
     rbind (getDouble M d ''Pmin'') (\<lambda>Pmin.
     rbind (getDouble M d ''Pmax'') (\<lambda>Pmax.
     rbind (getDouble M d ''error'') (\<lambda>err.
     rbind (json_points M d) (\<lambda>points.
     rbind (getDouble M d ''coeffP'') (\<lambda>coeffP.
     rbind (getDouble M d ''coeffPsquared'') (\<lambda>coeffPsquared.
     rbind (getDouble M d ''Pimp'') (\<lambda>Pimp.
     rbind (getDouble M d ''Qimp'') (\<lambda>Qimp.
       real_discrete_device M Pmin Pmax points err coeffPsquared coeffP Pimp Qimp empty_adv))))))))"

definition create_discrete_unif_adv :: "platform \<Rightarrow> bool \<Rightarrow> json \<Rightarrow> advertisement result" where
  "create_discrete_unif_adv M chk d =
     rbind (getDouble M d ''Pmin'') (\<lambda>Pmin.
     rbind (getDouble M d ''Pmax'') (\<lambda>Pmax.
     rbind (getDouble M d ''stepsize'') (\<lambda>stepsize.
     rbind (getDouble M d ''error'') (\<lambda>err.
     rbind (getDouble M d ''coeffP'') (\<lambda>coeffP.
     rbind (getDouble M d ''coeffPsquared'') (\<lambda>coeffPsquared.
     rbind (getDouble M d ''Pimp'') (\<lambda>Pimp.
     rbind (getDouble M d ''Qimp'') (\<lambda>Qimp.
       uniform_discrete_device M chk Pmin Pmax stepsize err coeffPsquared coeffP Pimp Qimp empty_adv))))))))"

definition create_zenone_adv :: "platform \<Rightarrow> bool \<Rightarrow> json \<Rightarrow> advertisement result" where
  "create_zenone_adv M chk d =
     rbind (getDouble M d ''Pmin'') (\<lambda>Pmin.
     rbind (getDouble M d ''Pmax'') (\<lambda>Pmax.
     rbind (getDouble M d ''stepsize'') (\<lambda>stepsize.
     rbind (getDouble M d ''error'') (\<lambda>err.
     rbind (getDouble M d ''coeffP'') (\<lambda>coeffP.
     rbind (getDouble M d ''coeffPsquared'') (\<lambda>coeffPsquared.
     rbind (getDouble M d ''Pimp'') (\<lambda>Pimp.
     rbind (getDouble M d ''Qimp'') (\<lambda>Qimp.
       zenone_advertisement M chk Pmin Pmax stepsize err coeffPsquared coeffP Pimp Qimp empty_adv))))))))"

definition create_fuel_cell_adv :: "platform \<Rightarrow> json \<Rightarrow> advertisement result" where
  "create_fuel_cell_adv M d = create_batt_adv M d"

definition tan_phi :: "platform \<Rightarrow> double \<Rightarrow> double" where
  "tan_phi M cosPhi = ddiv M (dsqrt M (dsub M (Fin 1) (m_pow M cosPhi (Fin 2)))) cosPhi"

definition create_pv_adv :: "platform \<Rightarrow> bool \<Rightarrow> json \<Rightarrow> advertisement result" where
  "create_pv_adv M chk d =
     rbind (getDouble M d ''Pmax'') (\<lambda>Pmax.
     rbind (getDouble M d ''Pdelta'') (\<lambda>Pdelta.
     rbind (getDouble M d ''Srated'') (\<lambda>Srated.
     rbind (getDouble M d ''cosPhi'') (\<lambda>cosPhi.
     rbind (getDouble M d ''a_pv'') (\<lambda>a_pv.
     rbind (getDouble M d ''b_pv'') (\<lambda>b_pv.
     rbind (getDouble M d ''Pimp'') (\<lambda>Pimp.
     rbind (getDouble M d ''Qimp'') (\<lambda>Qimp.
       pv_advertisement M chk Srated Pmax Pdelta (tan_phi M cosPhi) a_pv b_pv Pimp Qimp empty_adv))))))))"

section \<open>The message to send\<close>

text \<open>The \<open>switch\<close> of \<open>listenRAside\<close>; its default case leaves the message without a body.\<close>

definition create_adv :: "platform \<Rightarrow> bool \<Rightarrow> resource \<Rightarrow> json \<Rightarrow> advertisement option result" where
  "create_adv M chk res d = (let some = (\<lambda>r. rbind r (\<lambda>a. Inr (Some a))) in case res of
       PV \<Rightarrow> some (create_pv_adv M chk d)
     | Fuel_Cell \<Rightarrow> some (create_fuel_cell_adv M d)
     | Battery \<Rightarrow> some (create_batt_adv M d)
     | Uncontrollable_Load \<Rightarrow> some (create_uncontr_load_adv M chk d)
     | Uncontrollable_Generator \<Rightarrow> some (create_uncontr_gen_adv M chk d)
     | Discrete \<Rightarrow> some (create_discrete_adv M d)
     | Discrete_Unif \<Rightarrow> some (create_discrete_unif_adv M chk d)
     | Zenone \<Rightarrow> some (create_zenone_adv M chk d)
     | Custom \<Rightarrow> Inr None)"

definition ra_message :: "platform \<Rightarrow> bool \<Rightarrow> 32 word \<Rightarrow> resource \<Rightarrow> json \<Rightarrow> message result" where
  "ra_message M chk agent res d = rbind (create_adv M chk res d) (\<lambda>a.
     Inr \<lparr> agentId = agent, body = (case a of None \<Rightarrow> Request_Msg None | Some av \<Rightarrow> Advertisement_Msg (Some av)) \<rparr>)"

end
