(* ===== verification/Sender.thy ===== *)
theory Sender imports Serialization begin

text \<open>
  \<open>commelec-api/sender-policies.hpp\<close>: the two packing policies, that is how a message is turned
  into the bytes of datagrams, how these are sent to a list of endpoints, and how a received
  buffer is turned into a message. Cap'n Proto is the parameter \<open>lib\<close>, the validation of
  debug mode the parameter \<open>validate\<close> (\<open>None\<close> when it does not return), the socket
  the parameter \<open>udp\<close>.
\<close>

section \<open>The socket\<close>

text \<open>
  The datagrams an \<open>async_send_to\<close> has put on the network, and the number of calls so far.
  \<open>udp i ep bs\<close> is the outcome of the \<open>i\<close>-th call: the number of bytes sent, or an exception.
\<close>

record 'ep socket =
  datagrams :: "('ep \<times> byte list) list"
  send_calls :: nat

type_synonym 'ep udp = "nat \<Rightarrow> 'ep \<Rightarrow> byte list \<Rightarrow> nat result"

definition async_send_to :: "'ep udp \<Rightarrow> byte list \<Rightarrow> 'ep \<Rightarrow> ('ep socket, nat) comp" where
  "async_send_to udp payload ep = (\<lambda>s.
     case udp (send_calls s) ep payload of
       Inl e \<Rightarrow> Some (Inl e, s\<lparr>send_calls := Suc (send_calls s)\<rparr>)
     | Inr n \<Rightarrow> Some (Inr n, s\<lparr>send_calls := Suc (send_calls s), datagrams := datagrams s @ [(ep, take n payload)]\<rparr>))"

definition could_not_write :: error where
  "could_not_write = Runtime_Error ''Could not write message in its entirety to the socket''"

definition send_one :: "'ep udp \<Rightarrow> byte list \<Rightarrow> nat \<Rightarrow> 'ep \<Rightarrow> ('ep socket, unit) comp" where
  "send_one udp payload sz ep =
     bnd (async_send_to udp payload ep) (\<lambda>w. guard_comp (sz = w) could_not_write)"

section \<open>Validation in debug mode\<close>

type_synonym validator = "(byte list \<Rightarrow> message option) \<Rightarrow> byte list \<Rightarrow> unit result option"

definition debug_check :: "bool \<Rightarrow> (byte list \<Rightarrow> unit result option) \<Rightarrow> byte list \<Rightarrow> unit result option" where
  "debug_check debug validate payload = (if debug then validate payload else Some (Inr ()))"

section \<open>Packed serialization\<close>

text \<open>The readers of the two policies. The unpacked one drops an incomplete word at the end.\<close>

definition packed_reader :: "message capnp_lib \<Rightarrow> byte list \<Rightarrow> message option" where
  "packed_reader lib buffer = read_packed lib buffer"

definition nonpacked_reader :: "message capnp_lib \<Rightarrow> byte list \<Rightarrow> message option" where
  "nonpacked_reader lib buffer = read_flat lib (take (8 * (length buffer div 8)) buffer)"

text \<open>The bytes to send, and the size they are compared with after each send.\<close>

definition packed_payload :: "message capnp_lib \<Rightarrow> message \<Rightarrow> (byte list \<times> nat) result" where
  "packed_payload lib m =
     rbind (write_packed_message lib (replicate (message_byte_size (segment_sizes lib m)) 0) m) (\<lambda>bs.
       Inr (bs, length bs))"

definition nonpacked_payload :: "message capnp_lib \<Rightarrow> message \<Rightarrow> (byte list \<times> nat) result" where
  "nonpacked_payload lib m =
     rbind (run_ops (adapter_write (flat_memory lib m)) (flat_writes lib m) new_adapter) (\<lambda>s.
       Inr (gather (flat_memory lib m) s, total_len s))"

definition checked_payload :: "(byte list \<times> nat) result \<Rightarrow> bool \<Rightarrow> (byte list \<Rightarrow> unit result option) \<Rightarrow>
    (byte list \<times> nat) result option" where
  "checked_payload r debug validate = (case r of Inl e \<Rightarrow> Some (Inl e)
     | Inr (bs, n) \<Rightarrow> map_option (\<lambda>c. rbind c (\<lambda>_. Inr (bs, n))) (debug_check debug validate bs))"

definition send_payload :: "'ep udp \<Rightarrow> (byte list \<times> nat) result option \<Rightarrow> 'ep list \<Rightarrow> ('ep socket, unit) comp" where
  "send_payload udp r endpoints = (case r of None \<Rightarrow> (\<lambda>s. None)
     | Some (Inl e) \<Rightarrow> raise e
     | Some (Inr (bs, n)) \<Rightarrow> forC (send_one udp bs n) endpoints)"

definition packed_send :: "message capnp_lib \<Rightarrow> validator \<Rightarrow> 'ep udp \<Rightarrow> message \<Rightarrow> 'ep list \<Rightarrow> bool \<Rightarrow>
    ('ep socket, unit) comp" where
  "packed_send lib validate udp m endpoints debug =
     send_payload udp (checked_payload (packed_payload lib m) debug (validate (packed_reader lib))) endpoints"

definition packed_send_single :: "message capnp_lib \<Rightarrow> validator \<Rightarrow> 'ep udp \<Rightarrow> message \<Rightarrow> 'ep \<Rightarrow> bool \<Rightarrow>
    ('ep socket, unit) comp" where
  "packed_send_single lib validate udp m endpoint debug = packed_send lib validate udp m [endpoint] debug"

definition nonpacked_send :: "message capnp_lib \<Rightarrow> validator \<Rightarrow> 'ep udp \<Rightarrow> message \<Rightarrow> 'ep list \<Rightarrow> bool \<Rightarrow>
    ('ep socket, unit) comp" where
  "nonpacked_send lib validate udp m endpoints debug =
     send_payload udp (checked_payload (nonpacked_payload lib m) debug (validate (nonpacked_reader lib))) endpoints"

definition nonpacked_send_single :: "message capnp_lib \<Rightarrow> validator \<Rightarrow> 'ep udp \<Rightarrow> message \<Rightarrow> 'ep \<Rightarrow> bool \<Rightarrow>
    ('ep socket, unit) comp" where
  "nonpacked_send_single lib validate udp m endpoint debug = nonpacked_send lib validate udp m [endpoint] debug"

section \<open>Delivery\<close>

text \<open>
  What a send promises: there are bytes that the reader turns into the message; if every call
  on the socket sends all of them, each endpoint gets one datagram of these bytes, in the order of
  the list; if one call throws, the endpoints before it have got theirs and the exception is
  passed on.
\<close>

definition delivers :: "(byte list \<Rightarrow> message option) \<Rightarrow> 'ep udp \<Rightarrow> message \<Rightarrow> 'ep list \<Rightarrow> ('ep socket, unit) comp \<Rightarrow> bool" where
  "delivers reader udp m eps send \<longleftrightarrow> (\<exists>bs. reader bs = Some m \<and>
    (\<forall>s. (\<forall>i < length eps. udp (send_calls s + i) (eps ! i) bs = Inr (length bs)) \<longrightarrow>
      send s = Some (Inr (), s\<lparr>send_calls := send_calls s + length eps, datagrams := datagrams s @ map (\<lambda>e. (e, bs)) eps\<rparr>)) \<and>
    (\<forall>s k e. k < length eps \<longrightarrow> (\<forall>i < k. udp (send_calls s + i) (eps ! i) bs = Inr (length bs)) \<longrightarrow>
      udp (send_calls s + k) (eps ! k) bs = Inl e \<longrightarrow>
      send s = Some (Inl e, s\<lparr>send_calls := Suc (send_calls s + k), datagrams := datagrams s @ map (\<lambda>e. (e, bs)) (take k eps)\<rparr>)))"

section \<open>The interface of a packing policy\<close>

text \<open>
  The contract that users of either policy rely on: a message that fits the policy is turned
  into bytes together with their number, and the policy's reader gives the message back.
\<close>

locale packing_policy =
  fixes payload :: "message \<Rightarrow> (byte list \<times> nat) result"
    and reader :: "byte list \<Rightarrow> message option"
    and fits :: "message \<Rightarrow> bool"
  assumes payload_sized: "fits m \<Longrightarrow> \<exists>bs. payload m = Inr (bs, length bs) \<and> reader bs = Some m"
begin

lemma all_sent:
  assumes "\<forall>i < length eps. udp (send_calls s + i) (eps ! i) bs = Inr (length bs)"
  shows "forC (send_one udp bs (length bs)) eps s =
    Some (Inr (), s\<lparr>send_calls := send_calls s + length eps, datagrams := datagrams s @ map (\<lambda>e. (e, bs)) eps\<rparr>)"
  using assms
proof (induction eps arbitrary: s)
  case (Cons e es)
  let ?t = "s\<lparr>send_calls := Suc (send_calls s), datagrams := datagrams s @ [(e, bs)]\<rparr>"
  have "send_one udp bs (length bs) e s = Some (Inr (), ?t)"
    using Cons.prems [rule_format, of 0] by (simp add: send_one_def async_send_to_def run_simps)
  moreover have "\<forall>i < length es. udp (send_calls ?t + i) (es ! i) bs = Inr (length bs)"
    using Cons.prems by (auto dest: spec [of _ "Suc _"])
  ultimately show ?case using Cons.IH [of ?t] by (simp add: run_simps)
qed (simp add: run_simps)

lemma first_failure:
  assumes "k < length eps" "\<forall>i < k. udp (send_calls s + i) (eps ! i) bs = Inr (length bs)"
    and "udp (send_calls s + k) (eps ! k) bs = Inl e"
  shows "forC (send_one udp bs (length bs)) eps s =
    Some (Inl e, s\<lparr>send_calls := Suc (send_calls s + k), datagrams := datagrams s @ map (\<lambda>e. (e, bs)) (take k eps)\<rparr>)"
  using assms
proof (induction eps arbitrary: s k)
  case (Cons x es)
  show ?case
  proof (cases k)
    case 0
    with Cons.prems show ?thesis by (simp add: send_one_def async_send_to_def run_simps)
  next
    case (Suc j)
    let ?t = "s\<lparr>send_calls := Suc (send_calls s), datagrams := datagrams s @ [(x, bs)]\<rparr>"
    have "send_one udp bs (length bs) x s = Some (Inr (), ?t)"
      using Cons.prems(2) [rule_format, of 0] Suc by (simp add: send_one_def async_send_to_def run_simps)
    moreover have "\<forall>i < j. udp (send_calls ?t + i) (es ! i) bs = Inr (length bs)"
      using Cons.prems(2) Suc by (auto dest: spec [of _ "Suc _"])
    ultimately show ?thesis using Cons.IH [of j ?t] Cons.prems(1,3) Suc by (simp add: run_simps)
  qed
qed simp

text \<open>A send delivers to every endpoint, or to those before the first send that fails.\<close>

lemma payload_delivered:
  assumes "fits m" and "debug \<Longrightarrow> \<forall>bs. reader bs = Some m \<longrightarrow> validate reader bs = Some (Inr ())"
  shows "delivers reader udp m eps (send_payload udp (checked_payload (payload m) debug (validate reader)) eps)"
proof -
  obtain bs where bs: "payload m = Inr (bs, length bs)" "reader bs = Some m"
    using payload_sized [OF assms(1)] by blast
  with assms(2) have "send_payload udp (checked_payload (payload m) debug (validate reader)) eps =
      forC (send_one udp bs (length bs)) eps"
    by (auto simp: send_payload_def checked_payload_def debug_check_def)
  with bs(2) all_sent [of eps udp _ bs] first_failure [of _ eps udp _ bs] show ?thesis
    unfolding delivers_def by (intro exI [of _ bs]) auto
qed

end

text \<open>
  Documented behaviour of Cap'n Proto on a message: its readers invert its writers, and the
  unpacked format is a whole number of words.
\<close>

definition packed_inverse :: "message capnp_lib \<Rightarrow> message \<Rightarrow> bool" where
  "packed_inverse lib m \<longleftrightarrow> well_behaved lib m \<and> read_packed lib (packed_bytes lib m) = Some m"

definition flat_bytes :: "message capnp_lib \<Rightarrow> message \<Rightarrow> byte list" where
  "flat_bytes lib m = concat (map (\<lambda>(a, n). read_mem (flat_memory lib m) a n) (flat_writes lib m))"

definition flat_inverse :: "message capnp_lib \<Rightarrow> message \<Rightarrow> bool" where
  "flat_inverse lib m \<longleftrightarrow> 8 dvd length (flat_bytes lib m) \<and> read_flat lib (flat_bytes lib m) = Some m"

interpretation packed: packing_policy "packed_payload lib" "packed_reader lib" "packed_inverse lib" for lib
  by unfold_locales (auto simp: packed_inverse_def packed_payload_def packed_reader_def write_packed_run)

interpretation nonpacked: packing_policy "nonpacked_payload lib" "nonpacked_reader lib" "flat_inverse lib" for lib
proof (unfold_locales, goal_cases)
  case (1 m)
  then have "8 * (length (flat_bytes lib m) div 8) = length (flat_bytes lib m)" by (simp add: flat_inverse_def)
  with 1 gather_all [of "flat_memory lib m" "flat_writes lib m"] show ?case
    by (auto simp: nonpacked_payload_def nonpacked_reader_def flat_inverse_def flat_bytes_def)
qed

section \<open>Properties\<close>

text \<open>C38: With either packing policy, sending a message puts one datagram on the network for every endpoint, in order, and the policy's reader turns each of them back into the message; when a send throws, the endpoints before it have got the message, and those after it get nothing. In debug mode the message is one that the validation of the debug mode accepts; without it, nothing is assumed of the validation.\<close>

theorem message_sent_to_all:
  assumes "packed_inverse lib m" and "flat_inverse lib m"
    and "\<And>bs. debug \<Longrightarrow> packed_reader lib bs = Some m \<Longrightarrow> validate (packed_reader lib) bs = Some (Inr ())"
    and "\<And>bs. debug \<Longrightarrow> nonpacked_reader lib bs = Some m \<Longrightarrow> validate (nonpacked_reader lib) bs = Some (Inr ())"
  shows "delivers (packed_reader lib) udp m eps (packed_send lib validate udp m eps debug) \<and>
    delivers (nonpacked_reader lib) udp m eps (nonpacked_send lib validate udp m eps debug)"
  using assms unfolding packed_send_def nonpacked_send_def
  by (intro conjI packed.payload_delivered nonpacked.payload_delivered) auto

text \<open>A library for one message, whose packed form has 22 bytes and whose flat form has 24.\<close>

lemma example_lib_inverse:
  "packed_inverse (example_lib m) m" "flat_inverse ((example_lib m)\<lparr>flat_writes := \<lambda>_. [(0, 8), (64, 16)]\<rparr>) m"
  using example_lib_facts(1) [of m] by (simp_all add: packed_inverse_def flat_inverse_def flat_bytes_def example_lib_def)

theorem message_sent_to_all_witness:
  "let m = \<lparr> agentId = 7, body = Request_Msg None \<rparr>; lib = (example_lib m)\<lparr>flat_writes := \<lambda>_. [(0, 8), (64, 16)]\<rparr>;
       udp = \<lambda>_ _ bs. Inr (length bs) in
   delivers (packed_reader lib) udp m [1, 2 :: nat] (packed_send lib (\<lambda>_ _. Some (Inr ())) udp m [1, 2] True) \<and>
   delivers (nonpacked_reader lib) udp m [1, 2] (nonpacked_send lib (\<lambda>_ _. Some (Inr ())) udp m [1, 2] True)"
proof -
  have "packed_inverse ((example_lib m)\<lparr>flat_writes := \<lambda>_. [(0, 8), (64, 16)]\<rparr>) m" for m
    using example_lib_inverse(1) [of m]
    by (simp add: packed_inverse_def well_behaved_def packed_bytes_def Let_def)
  then show ?thesis unfolding Let_def by (intro message_sent_to_all example_lib_inverse(2)) simp_all
qed

end
