(* ===== verification/Daemon.thy ===== *)
theory Daemon imports Daemon_Adv Sender Validation begin

text \<open>
  \<open>commelec-api/daemon.cpp\<close>: the two listeners of the class \<open>CommelecDaemon\<close> as a step relation
  over their shared state, and the program around them: the command line, the configuration and
  \<open>main\<close>. The two coroutines run on one strand: they interleave at each asynchronous call and
  nowhere else, so one step runs a coroutine from one such call to the next.
\<close>

section \<open>Configuration and environment\<close>

definition networkBufLen :: nat where "networkBufLen = 2048"
definition maxUDPsize :: nat where "maxUDPsize = 65536"

text \<open>
  The packing policy of the template, and what the daemon uses of the platform, of Cap'n Proto
  (\<open>cchecks\<close>: its debug checks), of RapidJSON and of the validator, whose random numbers are
  its first argument.
\<close>

record policy =
  pol_payload :: "message \<Rightarrow> (byte list \<times> nat) result"
  pol_reader :: "byte list \<Rightarrow> message option"

definition packed_policy :: "message capnp_lib \<Rightarrow> policy" where
  "packed_policy lib = \<lparr> pol_payload = packed_payload lib, pol_reader = packed_reader lib \<rparr>"

definition nonpacked_policy :: "message capnp_lib \<Rightarrow> policy" where
  "nonpacked_policy lib = \<lparr> pol_payload = nonpacked_payload lib, pol_reader = nonpacked_reader lib \<rparr>"

record env =
  platf :: platform
  cchecks :: bool
  pol :: policy
  jlib :: "byte json_lib"
  validator :: "random_source \<Rightarrow> validator"

record 'ep config =
  debug_mode :: bool
  agent_id :: "32 word"
  resource_type :: resource
  req_endpoints :: "'ep list"
  adv_endpoints :: "'ep list"

section \<open>Requests: the side of the grid agent\<close>

text \<open>A datagram overwrites the front of the array it is received into and is cut at its end.\<close>

definition receive_into :: "byte list \<Rightarrow> byte list \<Rightarrow> byte list" where
  "receive_into buf p = overwrite buf 0 (take (length buf) p)"

definition bytes_received :: "byte list \<Rightarrow> byte list \<Rightarrow> nat" where
  "bytes_received buf p = min (length buf) (length p)"

definition request_json :: "bool \<Rightarrow> 32 word \<Rightarrow> request \<Rightarrow> json result" where
  "request_json chk sender req =
     rbind (case setpoint req of
         None \<Rightarrow> Inr (Fin 0, Fin 0)
       | Some sp \<Rightarrow> rbind (list_at chk sp 0) (\<lambda>p. rbind (list_at chk sp 1) (\<lambda>q. Inr (p, q)))) (\<lambda>(p, q).
     rbind (add_member (JObject []) ''setpointValid'' (JBool (setpoint req \<noteq> None))) (\<lambda>d.
     rbind (add_member d ''senderId'' (JInt (uint sender))) (\<lambda>d.
     rbind (add_member d ''P'' (JDouble p)) (\<lambda>d.
     add_member d ''Q'' (JDouble q)))))"

text \<open>
  What is forwarded for the array \<open>buf\<close> of which the last datagram filled the first \<open>n\<close> bytes. The
  reader is given the whole array.
\<close>

definition ga_payload :: "env \<Rightarrow> 'ep config \<Rightarrow> byte list \<Rightarrow> nat \<Rightarrow> byte list result" where
  "ga_payload E cfg buf n =
     (if resource_type cfg = Custom then Inr (take n buf)
      else case pol_reader (pol E) buf of
        None \<Rightarrow> Inl Kj_Exception
      | Some m \<Rightarrow> (case body m of
          Request_Msg (Some req) \<Rightarrow>
            rbind (request_json (cchecks E) (agentId m) req) (\<lambda>d.
              Inr (takeWhile (\<lambda>b. b \<noteq> 0) (json_print (jlib E) d)))
        | _ \<Rightarrow> Inl Bare_Throw))"

section \<open>Advertisements: the side of the resource agent\<close>

text \<open>
  The payload for a packet, the size each send is checked against (none for a custom resource), and
  the JSON document afterwards, which the loop keeps from one packet to the next. \<open>None\<close>: the
  validation does not return.
\<close>

definition ra_payload :: "env \<Rightarrow> 'ep config \<Rightarrow> random_source \<Rightarrow> json \<Rightarrow> byte list \<Rightarrow>
    ((byte list \<times> nat option) result \<times> json) option" where
  "ra_payload E cfg rand doc p =
     (let p' = take maxUDPsize p; check = validator E rand (pol_reader (pol E)) in
      if resource_type cfg = Custom
      then map_option (\<lambda>c. (rbind c (\<lambda>_. Inr (p', None)), doc)) (debug_check (debug_mode cfg) check p')
      else if length p' < maxUDPsize
      then (let d = parse_into (jlib E) (takeWhile (\<lambda>b. b \<noteq> 0) p') doc in
        if \<not> is_object d then Some (Inl (Runtime_Error ''JSON object invalid''), d)
        else case ra_message (platf E) (cchecks E) (agent_id cfg) (resource_type cfg) d of
          Inl e \<Rightarrow> Some (Inl e, d)
        | Inr m \<Rightarrow> map_option (\<lambda>r. (rbind r (\<lambda>(bs, n). Inr (bs, Some n)), d))
            (checked_payload (pol_payload (pol E) m) (debug_mode cfg) check))
      else Some (Inl Undefined, doc))"

section \<open>The daemon\<close>

text \<open>
  Where a coroutine is: waiting for a packet, or in its loop over the endpoints, with the payload,
  the size to compare with (if any) and the endpoints left.
\<close>

datatype 'ep task = Receiving | Sending "byte list" "nat option" "'ep list"

definition sending :: "byte list \<Rightarrow> nat option \<Rightarrow> 'ep list \<Rightarrow> 'ep task" where
  "sending bs n eps = (if eps = [] then Receiving else Sending bs n eps)"

record 'ep daemon =
  ga_task :: "'ep task"
  ra_task :: "'ep task"
  network_data :: "byte list"
  document :: json

text \<open>The process runs, or an exception left a coroutine and \<open>io_service.run()\<close> with it.\<close>

datatype 'ep proc = Running "'ep daemon" | Stopped error

datatype 'ep event =
    From_GA "byte list"
  | To_RA 'ep "byte list"
  | From_RA "byte list"
  | To_GA 'ep "byte list"
  | Failed

definition start_daemon :: "byte list \<Rightarrow> 'ep daemon" where
  "start_daemon junk = \<lparr> ga_task = Receiving, ra_task = Receiving, network_data = junk, document = JNull \<rparr>"

inductive daemon_step :: "env \<Rightarrow> 'ep config \<Rightarrow> 'ep proc \<Rightarrow> 'ep event \<Rightarrow> 'ep proc \<Rightarrow> bool" for E cfg where
  ga_packet: "ga_task s = Receiving \<Longrightarrow> buf = receive_into (network_data s) p \<Longrightarrow>
    ga_payload E cfg buf (bytes_received (network_data s) p) = Inr bs \<Longrightarrow>
    daemon_step E cfg (Running s) (From_GA p)
      (Running (s\<lparr>network_data := buf, ga_task := sending bs None (req_endpoints cfg)\<rparr>))"
| ga_throws: "ga_task s = Receiving \<Longrightarrow>
    ga_payload E cfg (receive_into (network_data s) p) (bytes_received (network_data s) p) = Inl e \<Longrightarrow>
    daemon_step E cfg (Running s) (From_GA p) (Stopped e)"
| ga_send: "ga_task s = Sending bs sz (ep # eps) \<Longrightarrow>
    daemon_step E cfg (Running s) (To_RA ep bs) (Running (s\<lparr>ga_task := sending bs sz eps\<rparr>))"
| ga_send_fails: "ga_task s = Sending bs sz eps \<Longrightarrow> daemon_step E cfg (Running s) Failed (Stopped System_Error)"
| ra_packet: "ra_task s = Receiving \<Longrightarrow> ra_payload E cfg rand (document s) p = Some (Inr (bs, sz), d) \<Longrightarrow>
    daemon_step E cfg (Running s) (From_RA p)
      (Running (s\<lparr>document := d, ra_task := sending bs sz (adv_endpoints cfg)\<rparr>))"
| ra_throws: "ra_task s = Receiving \<Longrightarrow> ra_payload E cfg rand (document s) p = Some (Inl e, d) \<Longrightarrow>
    daemon_step E cfg (Running s) (From_RA p) (Stopped e)"
| ra_send: "ra_task s = Sending bs sz (ep # eps) \<Longrightarrow> sz = None \<or> sz = Some n \<Longrightarrow> n \<le> length bs \<Longrightarrow>
    daemon_step E cfg (Running s) (To_GA ep bs) (Running (s\<lparr>ra_task := sending bs sz eps\<rparr>))"
| ra_send_short: "ra_task s = Sending bs (Some m) (ep # eps) \<Longrightarrow> n \<le> length bs \<Longrightarrow> n \<noteq> m \<Longrightarrow>
    daemon_step E cfg (Running s) (To_GA ep bs) (Stopped could_not_write)"
| ra_send_fails: "ra_task s = Sending bs sz eps \<Longrightarrow> daemon_step E cfg (Running s) Failed (Stopped System_Error)"

text \<open>The runs of the daemon with the events they show.\<close>

inductive daemon_run :: "env \<Rightarrow> 'ep config \<Rightarrow> 'ep proc \<Rightarrow> 'ep event list \<Rightarrow> 'ep proc \<Rightarrow> bool" for E cfg where
  run_nil: "daemon_run E cfg c [] c"
| run_snoc: "daemon_run E cfg c evs c' \<Longrightarrow> daemon_step E cfg c' ev c'' \<Longrightarrow> daemon_run E cfg c (evs @ [ev]) c''"

text \<open>A stopped process makes no step; a datagram of the grid agent's side is a step of one coroutine.\<close>

inductive_simps stopped_step [simp]: "daemon_step E cfg (Stopped e) ev c"
inductive_cases from_GA_E: "daemon_step E cfg (Running s) (From_GA p) c"

end
