(* ===== verification/Daemon_Props.thy ===== *)
theory Daemon_Props imports Daemon begin

text \<open>
  What the two listeners of the daemon do in any interleaving: they implement two independent
  sequential servers, each of which turns every packet into one payload and sends it to all of
  its endpoints.
\<close>

section \<open>The specification: sequential servers\<close>

fun serve :: "('s \<Rightarrow> byte list \<Rightarrow> byte list result \<times> 's) \<Rightarrow> 's \<Rightarrow> byte list list \<Rightarrow> byte list list result" where
  "serve h s [] = Inr []"
| "serve h s (p # ps) = (case h s p of (r, t) \<Rightarrow> rbind r (\<lambda>b. rbind (serve h t ps) (\<lambda>bs. Inr (b # bs))))"

fun serve_state :: "('s \<Rightarrow> byte list \<Rightarrow> byte list result \<times> 's) \<Rightarrow> 's \<Rightarrow> byte list list \<Rightarrow> 's" where
  "serve_state h s [] = s"
| "serve_state h s (p # ps) = serve_state h (snd (h s p)) ps"

definition fan_out :: "'ep list \<Rightarrow> byte list list \<Rightarrow> ('ep \<times> byte list) list" where
  "fan_out eps bs = concat (map (\<lambda>b. map (\<lambda>e. (e, b)) eps) bs)"

definition ga_server :: "env \<Rightarrow> 'ep config \<Rightarrow> byte list \<Rightarrow> byte list \<Rightarrow> byte list result \<times> byte list" where
  "ga_server E cfg buf p = (ga_payload E cfg (receive_into buf p) (bytes_received buf p), receive_into buf p)"

text \<open>The server of the other side leaves the validation out.\<close>

definition ra_server :: "env \<Rightarrow> 'ep config \<Rightarrow> json \<Rightarrow> byte list \<Rightarrow> byte list result \<times> json" where
  "ra_server E cfg doc p = (case ra_payload E (cfg\<lparr>debug_mode := False\<rparr>) (\<lambda>_ a _. a) doc p of
     Some (r, d) \<Rightarrow> (rbind r (\<lambda>(bs, _). Inr bs), d) | None \<Rightarrow> (Inl Undefined, doc))"

lemma serve_snoc:
  "serve h s (ps @ [p]) = rbind (serve h s ps) (\<lambda>bs. rbind (fst (h (serve_state h s ps) p)) (\<lambda>b. Inr (bs @ [b])))"
proof (induction ps arbitrary: s)
  case Nil
  show ?case by (cases "fst (h s p)") (auto simp: split_def)
next
  case (Cons q ps)
  show ?case
    by (cases "fst (h s q)"; cases "serve h (snd (h s q)) ps"; cases "fst (h (serve_state h (snd (h s q)) ps) p)")
      (auto simp: split_def Cons.IH)
qed

lemma serve_state_snoc: "serve_state h s (ps @ [p]) = snd (h (serve_state h s ps) p)"
  by (induction ps arbitrary: s) auto

lemma fan_out_snoc: "fan_out eps (bs @ [b]) = fan_out eps bs @ map (\<lambda>e. (e, b)) eps"
  by (simp add: fan_out_def)

section \<open>What a run shows\<close>

fun from_GA :: "'ep event list \<Rightarrow> byte list list" where
  "from_GA [] = []"
| "from_GA (From_GA p # evs) = p # from_GA evs"
| "from_GA (_ # evs) = from_GA evs"

fun from_RA :: "'ep event list \<Rightarrow> byte list list" where
  "from_RA [] = []"
| "from_RA (From_RA p # evs) = p # from_RA evs"
| "from_RA (_ # evs) = from_RA evs"

fun to_RA :: "'ep event list \<Rightarrow> ('ep \<times> byte list) list" where
  "to_RA [] = []"
| "to_RA (To_RA e p # evs) = (e, p) # to_RA evs"
| "to_RA (_ # evs) = to_RA evs"

fun to_GA :: "'ep event list \<Rightarrow> ('ep \<times> byte list) list" where
  "to_GA [] = []"
| "to_GA (To_GA e p # evs) = (e, p) # to_GA evs"
| "to_GA (_ # evs) = to_GA evs"

lemma event_appends [simp]:
  "from_GA (evs @ evs') = from_GA evs @ from_GA evs'" "from_RA (evs @ evs') = from_RA evs @ from_RA evs'"
  "to_RA (evs @ evs') = to_RA evs @ to_RA evs'" "to_GA (evs @ evs') = to_GA evs @ to_GA evs'"
  by (induction evs rule: from_GA.induct) simp_all

fun pending :: "'ep task \<Rightarrow> ('ep \<times> byte list) list" where
  "pending Receiving = []"
| "pending (Sending bs sz eps) = map (\<lambda>e. (e, bs)) eps"

lemma pending_sending [simp]: "pending (sending bs sz eps) = map (\<lambda>e. (e, bs)) eps"
  by (simp add: sending_def)

section \<open>The invariant\<close>

text \<open>One side of the daemon has served the packets so far, up to what is pending.\<close>

definition served :: "('s \<Rightarrow> byte list \<Rightarrow> byte list result \<times> 's) \<Rightarrow> 's \<Rightarrow> 'ep list \<Rightarrow> byte list list \<Rightarrow>
    ('ep \<times> byte list) list \<Rightarrow> 'ep task \<Rightarrow> 's \<Rightarrow> bool" where
  "served h s0 eps ins outs task s \<longleftrightarrow> s = serve_state h s0 ins \<and>
     (\<exists>bs. serve h s0 ins = Inr bs \<and> outs @ pending task = fan_out eps bs)"

lemma served_start: "served h s0 eps [] [] Receiving s0"
  by (simp add: served_def fan_out_def)

lemma served_packet:
  "served h s0 eps ins outs Receiving s \<Longrightarrow> h s p = (Inr bs, t) \<Longrightarrow>
    served h s0 eps (ins @ [p]) outs (sending bs sz eps) t"
  by (auto simp: served_def serve_snoc serve_state_snoc fan_out_snoc)

lemma served_send:
  "served h s0 eps ins outs (Sending bs sz (e # es)) s \<Longrightarrow>
    served h s0 eps ins (outs @ [(e, bs)]) (sending bs sz es) s"
  by (simp add: served_def)

lemma checked_payload_off:
  "checked_payload r debug validate = Some (Inr x) \<Longrightarrow> checked_payload r False validate' = Some (Inr x)"
  by (auto simp: checked_payload_def debug_check_def rbind_Inr_iff split: sum.splits)

lemma ra_message_config:
  assumes "ra_payload E cfg rand doc p = Some (Inr (bs, sz), d)"
  shows "ra_server E cfg doc p = (Inr bs, d)"
proof (cases "resource_type cfg = Custom")
  case True
  with assms show ?thesis by (auto simp: ra_payload_def ra_server_def Let_def rbind_Inr_iff debug_check_def)
next
  case False
  with assms obtain m n where "length (take maxUDPsize p) < maxUDPsize"
      "d = parse_into (jlib E) (takeWhile (\<lambda>b. b \<noteq> 0) (take maxUDPsize p)) doc" "is_object d"
      "ra_message (platf E) (cchecks E) (agent_id cfg) (resource_type cfg) d = Inr m"
      and payload: "checked_payload (pol_payload (pol E) m) (debug_mode cfg) (validator E rand (pol_reader (pol E))) = Some (Inr (bs, n))"
    by (auto simp: ra_payload_def Let_def rbind_Inr_iff split: if_splits sum.splits)
  then show ?thesis using False checked_payload_off [OF payload]
    by (simp add: ra_payload_def ra_server_def Let_def)
qed

definition ga_served :: "env \<Rightarrow> 'ep config \<Rightarrow> byte list \<Rightarrow> 'ep event list \<Rightarrow> 'ep daemon \<Rightarrow> bool" where
  "ga_served E cfg junk evs s \<longleftrightarrow>
     served (ga_server E cfg) junk (req_endpoints cfg) (from_GA evs) (to_RA evs) (ga_task s) (network_data s)"

definition ra_served :: "env \<Rightarrow> 'ep config \<Rightarrow> 'ep event list \<Rightarrow> 'ep daemon \<Rightarrow> bool" where
  "ra_served E cfg evs s \<longleftrightarrow>
     served (ra_server E cfg) JNull (adv_endpoints cfg) (from_RA evs) (to_GA evs) (ra_task s) (document s)"

lemma ga_step_serves:
  assumes "daemon_step E cfg (Running s) ev (Running t)" "ga_served E cfg junk evs s"
  shows "ga_served E cfg junk (evs @ [ev]) t"
  using assms(1)
proof (cases rule: daemon_step.cases)
  case (ga_packet buf p bs)
  then have "ga_server E cfg (network_data s) p = (Inr bs, buf)" by (simp add: ga_server_def)
  with ga_packet assms(2) show ?thesis
    using served_packet [of "ga_server E cfg" junk "req_endpoints cfg" "from_GA evs" "to_RA evs" "network_data s" p bs buf None]
    by (simp add: ga_served_def)
qed (use assms(2) in \<open>auto simp: ga_served_def dest: served_send\<close>)

lemma ra_step_serves:
  assumes "daemon_step E cfg (Running s) ev (Running t)" "ra_served E cfg evs s"
  shows "ra_served E cfg (evs @ [ev]) t"
  using assms(1)
proof (cases rule: daemon_step.cases)
  case (ra_packet rand p bs sz d)
  with assms(2) show ?thesis
    using served_packet [of "ra_server E cfg" JNull "adv_endpoints cfg" "from_RA evs" "to_GA evs" "document s" p bs d sz]
    by (simp add: ra_served_def ra_message_config)
qed (use assms(2) in \<open>auto simp: ra_served_def dest: served_send\<close>)

lemma start_served: "ga_served E cfg junk [] (start_daemon junk)" "ra_served E cfg [] (start_daemon junk)"
  by (auto simp: ga_served_def ra_served_def start_daemon_def served_start)

lemma run_serves:
  "daemon_run E cfg c evs c' \<Longrightarrow> c = Running (start_daemon junk) \<Longrightarrow> c' = Running s \<Longrightarrow>
    ga_served E cfg junk evs s \<and> ra_served E cfg evs s"
proof (induction arbitrary: s rule: daemon_run.induct)
  case (run_nil c)
  then show ?case by (auto simp: start_served)
next
  case (run_snoc c evs c' ev c'')
  then obtain t where "c' = Running t" by (cases c') simp_all
  with run_snoc show ?case by (auto intro: ga_step_serves ra_step_serves)
qed

end
