(* ===== verification/Daemon_Relay.thy ===== *)
theory Daemon_Relay imports Daemon_Props Hlapi_Codes begin

text \<open>
  The properties of the running daemon: it relays every packet to every endpoint in whatever order
  the coroutines run, a request reaches the resource agent with its values, and input that cannot
  be read makes it repeat the one before.
\<close>

section \<open>Relaying\<close>

text \<open>C4: However the two coroutines interleave, while the daemon runs each side has turned the packets it received so far, in order, into one payload each, and has sent every payload to all of its endpoints in order, except for the last sends of the payload it is working on. No packet is dropped, doubled or sent to the wrong side.\<close>

theorem daemon_relays:
  assumes "daemon_run E cfg (Running (start_daemon junk)) evs (Running s)"
  shows "\<exists>requests adverts.
    serve (ga_server E cfg) junk (from_GA evs) = Inr requests \<and>
    to_RA evs @ pending (ga_task s) = fan_out (req_endpoints cfg) requests \<and>
    serve (ra_server E cfg) JNull (from_RA evs) = Inr adverts \<and>
    to_GA evs @ pending (ra_task s) = fan_out (adv_endpoints cfg) adverts"
  using run_serves [OF assms refl refl] by (auto simp: ga_served_def ra_served_def served_def)

definition custom_config :: "nat config" where
  "custom_config = \<lparr> debug_mode = False, agent_id = 7, resource_type = Custom, req_endpoints = [1, 2], adv_endpoints = [3] \<rparr>"

text \<open>A run in which the sends of both sides interleave.\<close>

lemma custom_run:
  "daemon_run E custom_config (Running (start_daemon (replicate 4 0)))
     [From_GA [5, 6], To_RA 1 [5, 6], From_RA [8], To_GA 3 [8]]
     (Running \<lparr> ga_task = Sending [5, 6] None [2], ra_task = Receiving, network_data = [5, 6, 0, 0], document = JNull \<rparr>)"
proof -
  let ?junk = "replicate 4 (0 :: byte)"
  let ?s1 = "\<lparr> ga_task = Sending [5, 6] None [1, 2 :: nat], ra_task = Receiving, network_data = [5, 6, 0, 0 :: byte], document = JNull \<rparr>"
  let ?s2 = "?s1\<lparr>ga_task := Sending [5, 6] None [2]\<rparr>"
  let ?s3 = "?s2\<lparr>ra_task := Sending [8] None [3]\<rparr>"
  have buf: "receive_into ?junk [5, 6] = [5, 6, 0, 0]" by (simp add: receive_into_def overwrite_def numeral_eq_Suc)
  have 1: "daemon_step E custom_config (Running (start_daemon ?junk)) (From_GA [5, 6]) (Running ?s1)"
    using ga_packet [of "start_daemon ?junk" "[5, 6, 0, 0]" "[5, 6]" E custom_config "[5, 6]"] buf
    by (simp add: start_daemon_def ga_payload_def custom_config_def bytes_received_def sending_def)
  have 2: "daemon_step E custom_config (Running ?s1) (To_RA 1 [5, 6]) (Running ?s2)"
    using ga_send [of ?s1 "[5, 6]" None 1 "[2]" E custom_config] by (simp add: sending_def)
  have 3: "daemon_step E custom_config (Running ?s2) (From_RA [8]) (Running ?s3)"
    using ra_packet [of ?s2 E custom_config "\<lambda>_ a _. a" "[8]" "[8]" None JNull]
    by (simp add: ra_payload_def custom_config_def Let_def debug_check_def sending_def maxUDPsize_def)
  have 4: "daemon_step E custom_config (Running ?s3) (To_GA 3 [8]) (Running (?s3\<lparr>ra_task := Receiving\<rparr>))"
    using ra_send [of ?s3 "[8]" None 3 "[]" 0 E custom_config] by (simp add: sending_def)
  show ?thesis
    using run_snoc [OF run_snoc [OF run_snoc [OF run_snoc [OF run_nil 1] 2] 3] 4] by simp
qed

theorem daemon_relays_witness:
  "\<forall>E. \<exists>requests adverts.
    serve (ga_server E custom_config) (replicate 4 0) [[5, 6]] = Inr requests \<and>
    [(1 :: nat, [5, 6]), (2, [5, 6])] = fan_out [1, 2] requests \<and>
    serve (ra_server E custom_config) JNull [[8]] = Inr adverts \<and> [(3 :: nat, [8])] = fan_out [3] adverts"
  using daemon_relays [OF custom_run] by (simp add: custom_config_def)

section \<open>What a request becomes\<close>

definition json_restores :: "byte json_lib \<Rightarrow> json \<Rightarrow> bool" where
  "json_restores J d \<longleftrightarrow> json_parse J (json_print J d) = Some d \<and> 0 \<notin> set (json_print J d)"

lemma request_json_Some:
  "request_json chk sender \<lparr> setpoint = Some (p # q # rest) \<rparr> = Inr (JObject
     [(''setpointValid'', JBool True), (''senderId'', JInt (uint sender)), (''P'', JDouble p), (''Q'', JDouble q)])"
  by (simp add: request_json_def list_at_def)

lemma request_json_None:
  "request_json chk sender \<lparr> setpoint = None \<rparr> = Inr (JObject
     [(''setpointValid'', JBool False), (''senderId'', JInt (uint sender)), (''P'', JDouble (Fin 0)), (''Q'', JDouble (Fin 0))])"
  by (simp add: request_json_def)

lemma takeWhile_nonzero: "0 \<notin> set bs \<Longrightarrow> takeWhile (\<lambda>b. b \<noteq> 0) (bs :: byte list) = bs"
  by (auto simp: takeWhile_eq_all_conv)

text \<open>C28: For a resource that is not custom, a request of the grid agent is forwarded as a JSON text from which the accessors read back whether it has a setpoint, the setpoint (zeros when there is none) and the sender's id, provided that RapidJSON restores what it printed and the id fits an \<open>int\<close>.\<close>

theorem request_reaches_agent:
  assumes "resource_type cfg \<noteq> Custom"
    and "pol_reader (pol E) buf = Some \<lparr> agentId = sender, body = Request_Msg (Some \<lparr> setpoint = sp \<rparr>) \<rparr>"
    and "sp = None \<and> p = Fin 0 \<and> q = Fin 0 \<or> (\<exists>rest. sp = Some (p # q # rest))"
    and "\<And>d. request_json (cchecks E) sender \<lparr> setpoint = sp \<rparr> = Inr d \<Longrightarrow> json_restores (jlib E) d"
  shows "\<exists>bs d. ga_payload E cfg buf n = Inr bs \<and> json_parse (jlib E) bs = Some d \<and>
    getBool d ''setpointValid'' = Inr (sp \<noteq> None) \<and> getDouble M d ''P'' = Inr p \<and> getDouble M d ''Q'' = Inr q \<and>
    (uint sender < 2 ^ 31 \<longrightarrow> getInt d ''senderId'' = Inr (uint sender))"
proof -
  let ?d = "JObject [(''setpointValid'', JBool (sp \<noteq> None)), (''senderId'', JInt (uint sender)), (''P'', JDouble p), (''Q'', JDouble q)]"
  have d: "request_json (cchecks E) sender \<lparr> setpoint = sp \<rparr> = Inr ?d"
    using assms(3) by (auto simp: request_json_Some request_json_None)
  with assms(4) have "json_parse (jlib E) (json_print (jlib E) ?d) = Some ?d" "0 \<notin> set (json_print (jlib E) ?d)"
    by (simp_all add: json_restores_def)
  moreover from this(2) d assms(1,2) have "ga_payload E cfg buf n = Inr (json_print (jlib E) ?d)"
    by (simp add: ga_payload_def takeWhile_nonzero)
  moreover have "- (2 ^ 31) \<le> uint sender" by (rule order_trans [OF _ uint_ge_0]) simp
  ultimately show ?thesis by (intro exI [of _ "json_print (jlib E) ?d"] exI [of _ ?d]) (simp add: json_get_defs)
qed

text \<open>An environment in which every buffer holds one given message, and every JSON text one document.\<close>

definition one_message_env :: "message option \<Rightarrow> json option \<Rightarrow> env" where
  "one_message_env m d = \<lparr> platf = exact, cchecks = True,
     pol = \<lparr> pol_payload = (\<lambda>_. Inr ([1, 2, 3], 3)), pol_reader = (\<lambda>_. m) \<rparr>,
     jlib = \<lparr> json_parse = (\<lambda>bs. if bs = [9] then d else None), json_print = (\<lambda>_. [9]) \<rparr>,
     validator = (\<lambda>_ _ _. Some (Inr ())) \<rparr>"

theorem request_reaches_agent_witness:
  "\<exists>bs d. ga_payload (one_message_env (Some \<lparr> agentId = 3, body = Request_Msg (Some \<lparr> setpoint = Some [Fin 4, Fin 5] \<rparr>) \<rparr>)
        (Some (JObject [(''setpointValid'', JBool True), (''senderId'', JInt 3), (''P'', JDouble (Fin 4)), (''Q'', JDouble (Fin 5))])))
      (custom_config\<lparr>resource_type := Battery\<rparr>) [0, 0] 2 = Inr bs \<and>
    getDouble exact d ''P'' = Inr (Fin 4) \<and> getInt d ''senderId'' = Inr 3"
proof -
  let ?d = "JObject [(''setpointValid'', JBool True), (''senderId'', JInt 3), (''P'', JDouble (Fin 4)), (''Q'', JDouble (Fin 5))]"
  let ?E = "one_message_env (Some \<lparr> agentId = 3, body = Request_Msg (Some \<lparr> setpoint = Some [Fin 4, Fin 5] \<rparr>) \<rparr>) (Some ?d)"
  show ?thesis
    using request_reaches_agent [of "custom_config\<lparr>resource_type := Battery\<rparr>" ?E "[0, 0]" 3 "Some [Fin 4, Fin 5]" "Fin 4" "Fin 5" 2 exact]
    by (fastforce simp: one_message_env_def request_json_Some json_restores_def)
qed

section \<open>Input that cannot be read\<close>

text \<open>
  A datagram of the grid agent's side that is no request ends the process: \<open>throw\<close> without an
  exception to rethrow calls \<open>std::terminate\<close>.
\<close>

lemma no_request_terminates:
  assumes "ga_task s = Receiving" "resource_type cfg \<noteq> Custom"
    and "pol_reader (pol E) (receive_into (network_data s) p) = Some m" "\<forall>r. body m \<noteq> Request_Msg (Some r)"
    and "daemon_step E cfg (Running s) (From_GA p) c"
  shows "c = Stopped Bare_Throw"
  using assms by (auto simp: ga_payload_def elim!: from_GA_E split: message_body.splits option.splits)

lemma overwrite_prefix: "overwrite (t @ r) 0 (take j t) = t @ r"
  by (cases "j \<le> length t") (simp_all add: overwrite_def)

lemma receive_again: "receive_into (receive_into buf q) (take k q) = receive_into buf q"
proof -
  let ?t = "take (length buf) q" and ?r = "drop (length (take (length buf) q)) buf"
  have buf: "receive_into buf q = ?t @ ?r" by (simp add: receive_into_def overwrite_def)
  have "length (?t @ ?r) = length buf" by simp
  then have "receive_into (?t @ ?r) (take k q) = overwrite (?t @ ?r) 0 (take (length buf) (take k q))"
    by (simp only: receive_into_def)
  also have "take (length buf) (take k q) = take k ?t" by (simp add: min.commute)
  finally show ?thesis by (simp only: buf overwrite_prefix)
qed

text \<open>C39: For a resource that is not custom, input that cannot be read repeats what came before it: a datagram of the grid agent that is a truncated copy of the previous one, even an empty one, forwards the previous request again, and a packet of the resource agent that is no JSON text sends the previous advertisement again, because the array and the document keep their old contents.\<close>

theorem stale_input_replayed:
  assumes "resource_type cfg \<noteq> Custom"
  shows "ga_server E cfg (snd (ga_server E cfg buf q)) (take k q) = ga_server E cfg buf q \<and>
    (json_parse (jlib E) (takeWhile (\<lambda>b. b \<noteq> 0) p') = None \<longrightarrow> length p' < 65536 \<longrightarrow> is_object (snd (ra_server E cfg doc p)) \<longrightarrow>
      length p < 65536 \<longrightarrow> ra_server E cfg (snd (ra_server E cfg doc p)) p' = ra_server E cfg doc p)"
proof -
  have "ga_payload E cfg b n = ga_payload E cfg b n'" for b n n' using assms by (simp add: ga_payload_def)
  then have "ga_server E cfg (snd (ga_server E cfg buf q)) (take k q) = ga_server E cfg buf q"
    by (simp add: ga_server_def receive_again)
  moreover have "ra_server E cfg d p = (if is_object (parse_into (jlib E) (takeWhile (\<lambda>b. b \<noteq> 0) p) d)
        then (case ra_message (platf E) (cchecks E) (agent_id cfg) (resource_type cfg) (parse_into (jlib E) (takeWhile (\<lambda>b. b \<noteq> 0) p) d) of
            Inl e \<Rightarrow> Inl e | Inr m \<Rightarrow> rbind (pol_payload (pol E) m) (\<lambda>(bs, n). Inr bs),
          parse_into (jlib E) (takeWhile (\<lambda>b. b \<noteq> 0) p) d)
        else (Inl (Runtime_Error ''JSON object invalid''), parse_into (jlib E) (takeWhile (\<lambda>b. b \<noteq> 0) p) d))"
    if "length p < 65536" for p d
    using assms that
    by (auto simp: ra_server_def ra_payload_def maxUDPsize_def Let_def checked_payload_def debug_check_def split: sum.splits)
  ultimately show ?thesis by (auto simp: parse_into_def)
qed

text \<open>A battery whose parameters are all 1.\<close>

definition battery_params :: json where
  "battery_params = JObject (map (\<lambda>k. (k, JInt 1))
     [''Pmin'', ''Pmax'', ''Srated'', ''coeffP'', ''coeffPsquared'', ''Pimp'', ''Qimp''])"

lemma battery_params_message: "\<exists>m. ra_message exact True agent Battery battery_params = Inr m"
proof -
  have "getDouble exact battery_params k = Inr (Fin 1)"
    if "k \<in> {''Pmin'', ''Pmax'', ''Srated'', ''coeffP'', ''coeffPsquared'', ''Pimp'', ''Qimp''}" for k
    using that by (auto simp: battery_params_def json_get_defs)
  moreover obtain a where "battery_advertisement exact (Fin 1) (Fin 1) (Fin 1) (Fin 1) (Fin 1) (Fin 1) (Fin 1) empty_adv = Inr a"
    using battery_succeeds [of 1 1 1 1 1 "Fin 1" "Fin 1"] by blast
  ultimately show ?thesis by (simp add: ra_message_def create_adv_def create_batt_adv_def)
qed

theorem stale_input_replayed_witness:
  "let E = one_message_env (Some \<lparr> agentId = 3, body = Request_Msg (Some \<lparr> setpoint = None \<rparr>) \<rparr>) (Some battery_params);
       cfg = custom_config\<lparr>resource_type := Battery\<rparr> in
   ga_server E cfg (snd (ga_server E cfg [0, 0] [1, 2])) [] = (Inr [9], [1, 2]) \<and>
   ra_server E cfg (snd (ra_server E cfg JNull [9])) [5] = (Inr [1, 2, 3], battery_params)"
proof -
  let ?E = "one_message_env (Some \<lparr> agentId = 3, body = Request_Msg (Some \<lparr> setpoint = None \<rparr>) \<rparr>) (Some battery_params)"
  let ?cfg = "custom_config\<lparr>resource_type := Battery\<rparr>"
  have ga: "ga_server ?E ?cfg [0, 0] [1, 2] = (Inr [9], [1, 2])"
    by (simp add: ga_server_def ga_payload_def one_message_env_def custom_config_def request_json_None receive_into_def overwrite_def)
  have ra: "ra_server ?E ?cfg JNull [9] = (Inr [1, 2, 3], battery_params)"
    using battery_params_message [of 7]
    by (auto simp: ra_server_def ra_payload_def one_message_env_def custom_config_def parse_into_def maxUDPsize_def Let_def
        checked_payload_def debug_check_def) (simp_all add: battery_params_def)
  show ?thesis
    using stale_input_replayed [of ?cfg ?E "[0, 0]" "[1, 2]" 0 "[5]" JNull "[9]"] ga ra
    by (simp add: one_message_env_def custom_config_def battery_params_def)
qed

end
