(* ===== verification/Daemon_Main.thy ===== *)
theory Daemon_Main imports Daemon begin

text \<open>
  The program around the listeners in \<open>commelec-api/daemon.cpp\<close>: the command line, the default
  configuration, the endpoints and the start-up in \<open>main\<close>, up to the value the process returns.
  The console output is left out. The conversion of addresses and the binding of sockets are
  parameters.
\<close>

section \<open>The system\<close>

text \<open>
  \<open>can_bind used p\<close>: a UDP socket can be bound to port \<open>p\<close> when this process has bound
  those of \<open>used\<close>.
\<close>

record 'ip system =
  ip_from_string :: "string \<Rightarrow> 'ip option"
  can_bind :: "16 word list \<Rightarrow> 16 word \<Rightarrow> bool"
  standard_input :: "byte list"

type_synonym 'ip endpoint = "'ip \<times> 16 word"

definition make_endpoint :: "'ip system \<Rightarrow> string \<Rightarrow> int \<Rightarrow> 'ip endpoint result" where
  "make_endpoint sys ip portnum = (case ip_from_string sys ip of
     None \<Rightarrow> Inl System_Error | Some a \<Rightarrow> Inr (a, word_of_int portnum))"

text \<open>\<open>static_cast<PortNumberType>\<close>, read back as an \<open>int\<close>.\<close>

definition port_of :: "int \<Rightarrow> int" where
  "port_of i = uint (word_of_int i :: 16 word)"

section \<open>The default configuration\<close>

fun add_members :: "(string \<times> json) list \<Rightarrow> json \<Rightarrow> json result" where
  "add_members [] d = Inr d"
| "add_members ((k, v) # ms) d = rbind (add_member d k v) (add_members ms)"

definition generateDefaultConfiguration :: "byte json_lib \<Rightarrow> string \<Rightarrow> byte file_system \<Rightarrow> byte file_system result" where
  "generateDefaultConfiguration J configFile fs =
     rbind (add_members
       [(''resource-type'', JString ''battery''), (''agent-id'', JInt 1000),
        (''GA-ip'', JString ''127.0.0.1''), (''GA-port'', JInt 12345),
        (''RA-ip'', JString ''127.0.0.1''), (''RA-port'', JInt 12342),
        (''listenport-RA-side'', JInt 12340), (''listenport-GA-side'', JInt 12341),
        (''debug-mode'', JBool False)] (JObject [])) (\<lambda>d. writeJSONfile J configFile d fs)"

section \<open>The command line\<close>

definition file_exists :: "byte file_system \<Rightarrow> string \<Rightarrow> bool" where
  "file_exists fs name \<longleftrightarrow> files fs name \<noteq> None \<or> directory fs name"

definition is_regular_file :: "byte file_system \<Rightarrow> string \<Rightarrow> bool" where
  "is_regular_file fs name \<longleftrightarrow> files fs name \<noteq> None \<and> \<not> directory fs name"

text \<open>The status, the name of the configuration file and the files afterwards.\<close>

definition commandLineParser :: "byte json_lib \<Rightarrow> string list \<Rightarrow> string \<Rightarrow> byte file_system \<Rightarrow>
    (int \<times> string \<times> byte file_system) result" where
  "commandLineParser J argv configFile fs =
     (if length argv = 2 then
        (if argv ! 1 = ''--generate'' then
           (if file_exists fs configFile then Inr (- 1, configFile, fs)
            else rbind (generateDefaultConfiguration J configFile fs) (\<lambda>fs'. Inr (- 1, configFile, fs')))
         else if argv ! 1 = ''--list-resources'' then Inr (- 1, configFile, fs)
         else (let configFile = argv ! 1 in
           if configFile = ''-'' then Inr (1, configFile, fs)
           else if \<not> file_exists fs configFile \<or> \<not> is_regular_file fs configFile then Inr (- 1, configFile, fs)
           else Inr (0, configFile, fs)))
      else Inr (- 1, configFile, fs))"

section \<open>Endpoints\<close>

definition parse_endpoint :: "'ip system \<Rightarrow> json \<Rightarrow> 'ip endpoint result" where
  "parse_endpoint sys ep =
     rbind (getString ep ''ip'') (\<lambda>ip. rbind (getInt ep ''port'') (\<lambda>port. make_endpoint sys ip (port_of port)))"

definition parseEndpointList :: "'ip system \<Rightarrow> string \<Rightarrow> json \<Rightarrow> 'ip endpoint list \<Rightarrow> 'ip endpoint list result" where
  "parseEndpointList sys name jsonObj epVec =
     rbind (find_member jsonObj name) (\<lambda>m. case m of
       None \<Rightarrow> Inr epVec
     | Some (JArray eps) \<Rightarrow> rbind (rmap (parse_endpoint sys) eps) (\<lambda>xs. Inr (epVec @ xs))
     | Some _ \<Rightarrow> Inl (Runtime_Error (''Error: '' @ name @
         '' argument should be a list of {\"ip\":\"<string>\",\"port\":<num>} pairs.'')))"

section \<open>main\<close>

text \<open>
  The start-up ends with a return value, with the abnormal end of the process, or with the daemon
  waiting on its two ports.
\<close>

record 'ip service =
  local_port :: "16 word"
  network_port :: "16 word"
  configuration :: "'ip endpoint config"

datatype 'ip startup = Exit int | Terminated error | Serving "'ip service"

text \<open>The \<open>try\<close> block up to \<open>io_service.run()\<close>, with the constructor of the daemon.\<close>

definition start_service :: "'ip system \<Rightarrow> json \<Rightarrow> 'ip service result" where
  "start_service sys cfg =
     rbind (rbind (getString cfg ''RA-ip'') (\<lambda>ip. rbind (getInt cfg ''RA-port'') (\<lambda>p. make_endpoint sys ip (port_of p)))) (\<lambda>ra.
     rbind (rbind (getString cfg ''GA-ip'') (\<lambda>ip. rbind (getInt cfg ''GA-port'') (\<lambda>p. make_endpoint sys ip (port_of p)))) (\<lambda>ga.
     rbind (parseEndpointList sys ''clone-req'' cfg [ra]) (\<lambda>req_dests.
     rbind (parseEndpointList sys ''clone-adv'' cfg [ga]) (\<lambda>adv_dests.
     rbind (getInt cfg ''agent-id'') (\<lambda>agent.
     rbind (rbind (getString cfg ''resource-type'') resource_at) (\<lambda>res.
     rbind (getInt cfg ''listenport-RA-side'') (\<lambda>lp.
     rbind (getInt cfg ''listenport-GA-side'') (\<lambda>np.
     rbind (getBool_default cfg ''debug-mode'' False) (\<lambda>debug.
       let l = word_of_int lp; n = word_of_int np in
       if can_bind sys [] l \<and> can_bind sys [l] n
       then Inr \<lparr> local_port = l, network_port = n,
         configuration = \<lparr> debug_mode = debug, agent_id = word_of_int agent, resource_type = res,
           req_endpoints = req_dests, adv_endpoints = adv_dests \<rparr> \<rparr>
       else Inl System_Error)))))))))"

text \<open>The handlers for the exceptions of the start-up and for those that come out of a coroutine.\<close>

definition startup_failure :: "error \<Rightarrow> 'ip startup" where
  "startup_failure e = (case e of
     Runtime_Error s \<Rightarrow> Exit (- 1)
   | System_Error \<Rightarrow> Exit (- 1)
   | Out_Of_Range \<Rightarrow> Exit (- 1)
   | _ \<Rightarrow> Terminated e)"

definition coroutine_failure :: "error \<Rightarrow> 'ip startup" where
  "coroutine_failure e = (if is_exception e then Exit 0 else Terminated e)"

definition main_program :: "'ip system \<Rightarrow> byte json_lib \<Rightarrow> string list \<Rightarrow> byte file_system \<Rightarrow>
    'ip startup \<times> byte file_system" where
  "main_program sys J argv fs =
     (case commandLineParser J argv ''daemon-cfg.json'' fs of
       Inl e \<Rightarrow> (Terminated e, fs)
     | Inr (status, configFile, fs') \<Rightarrow>
         (if status = 0 \<or> status = 1 then
            (case (if status = 0 then readJSONfile J fs' configFile else readJSONstdin J (standard_input sys)) of
               Inl e \<Rightarrow> Terminated e
             | Inr cfg \<Rightarrow>
                 if \<not> is_object cfg then Exit (- 1)
                 else (case start_service sys cfg of Inl e \<Rightarrow> startup_failure e | Inr svc \<Rightarrow> Serving svc))
          else Exit status, fs'))"

section \<open>Properties\<close>

definition default_document :: json where
  "default_document = JObject
     [(''resource-type'', JString ''battery''), (''agent-id'', JInt 1000),
      (''GA-ip'', JString ''127.0.0.1''), (''GA-port'', JInt 12345),
      (''RA-ip'', JString ''127.0.0.1''), (''RA-port'', JInt 12342),
      (''listenport-RA-side'', JInt 12340), (''listenport-GA-side'', JInt 12341),
      (''debug-mode'', JBool False)]"

lemma generate_run:
  "generateDefaultConfiguration J name fs = writeJSONfile J name default_document fs"
  by (simp add: generateDefaultConfiguration_def default_document_def)

lemma default_members:
  "getString default_document ''RA-ip'' = Inr ''127.0.0.1''" "getInt default_document ''RA-port'' = Inr 12342"
  "getString default_document ''GA-ip'' = Inr ''127.0.0.1''" "getInt default_document ''GA-port'' = Inr 12345"
  "getInt default_document ''agent-id'' = Inr 1000" "getString default_document ''resource-type'' = Inr ''battery''"
  "getInt default_document ''listenport-RA-side'' = Inr 12340" "getInt default_document ''listenport-GA-side'' = Inr 12341"
  "getBool_default default_document ''debug-mode'' False = Inr False"
  "find_member default_document ''clone-req'' = Inr None" "find_member default_document ''clone-adv'' = Inr None"
  by (simp_all add: default_document_def json_get_defs)

definition default_service :: "'ip \<Rightarrow> 'ip service" where
  "default_service localhost = \<lparr> local_port = 12340, network_port = 12341,
     configuration = \<lparr> debug_mode = False, agent_id = 1000, resource_type = Battery,
       req_endpoints = [(localhost, 12342)], adv_endpoints = [(localhost, 12345)] \<rparr> \<rparr>"

text \<open>C27: The configuration that \<open>--generate\<close> writes is one that the program starts with: a first run with \<open>--generate\<close> returns -1 and only adds the file, and a second run with the file's name serves a battery with agent id 1000 on the default ports, when RapidJSON restores the document it printed, the file did not exist and can be written, and the ports are free.\<close>

theorem default_configuration_starts:
  assumes "json_parse J (json_print J default_document) = Some default_document"
    and "\<not> file_exists fs ''daemon-cfg.json''" and "\<not> unwritable fs ''daemon-cfg.json''"
    and "ip_from_string sys ''127.0.0.1'' = Some localhost"
    and "can_bind sys [] 12340" and "can_bind sys [12340] 12341"
  shows "\<exists>fs'. main_program sys J [prog, ''--generate''] fs = (Exit (- 1), fs') \<and>
    (\<forall>name. name \<noteq> ''daemon-cfg.json'' \<longrightarrow> files fs' name = files fs name) \<and>
    main_program sys J [prog, ''daemon-cfg.json''] fs' = (Serving (default_service localhost), fs')"
proof -
  let ?fs = "fs\<lparr>files := (files fs)(''daemon-cfg.json'' \<mapsto> json_print J default_document)\<rparr>"
  have "main_program sys J [prog, ''--generate''] fs = (Exit (- 1), ?fs)"
    using assms(2,3) by (simp add: main_program_def commandLineParser_def generate_run writeJSONfile_def)
  moreover have "start_service sys default_document = Inr (default_service localhost)"
    using assms(4,5,6)
    by (simp add: start_service_def default_members make_endpoint_def parseEndpointList_def port_of_def resource_at_def
        resource_map_def default_service_def Let_def)
  moreover have "commandLineParser J [prog, ''daemon-cfg.json''] ''daemon-cfg.json'' ?fs = Inr (0, ''daemon-cfg.json'', ?fs)"
    using assms(2) by (simp add: commandLineParser_def file_exists_def is_regular_file_def Let_def)
  moreover have "readJSONfile J ?fs ''daemon-cfg.json'' = Inr default_document" "is_object default_document"
    using assms(1) by (simp_all add: readJSONfile_def read_json_def parse_into_def) (simp add: default_document_def)
  ultimately have "main_program sys J [prog, ''daemon-cfg.json''] ?fs = (Serving (default_service localhost), ?fs)"
    by (simp add: main_program_def)
  with \<open>main_program sys J [prog, ''--generate''] fs = _\<close> show ?thesis by (intro exI [of _ ?fs]) simp
qed

theorem default_configuration_starts_witness:
  "let J = \<lparr> json_parse = (\<lambda>bs. Some default_document), json_print = (\<lambda>_. [1]) \<rparr>;
       sys = \<lparr> ip_from_string = (\<lambda>_. Some (0 :: nat)), can_bind = (\<lambda>used p. p \<notin> set used), standard_input = [] \<rparr>;
       fs = \<lparr> files = Map.empty, directory = (\<lambda>_. False), unwritable = (\<lambda>_. False) \<rparr> in
   \<exists>fs'. main_program sys J [''daemon'', ''--generate''] fs = (Exit (- 1), fs') \<and>
     main_program sys J [''daemon'', ''daemon-cfg.json''] fs' = (Serving (default_service 0), fs')"
proof -
  let ?J = "\<lparr> json_parse = (\<lambda>bs. Some default_document), json_print = (\<lambda>_. [1]) \<rparr> :: byte json_lib"
  let ?sys = "\<lparr> ip_from_string = (\<lambda>_. Some (0 :: nat)), can_bind = (\<lambda>used p. p \<notin> set used), standard_input = [] \<rparr>"
  let ?fs = "\<lparr> files = Map.empty, directory = (\<lambda>_. False), unwritable = (\<lambda>_. False) \<rparr> :: byte file_system"
  show ?thesis
    using default_configuration_starts [of ?J ?fs ?sys 0 "''daemon''"] by (auto simp: file_exists_def)
qed

end
