(* ===== verification/Visualization.thy ===== *)
theory Visualization imports Json Sender Validation begin

text \<open>
  \<open>utils/visualization_server.cpp\<close>: the server that renders the cost function of an
  advertisement on a grid. A request is a frame of a JSON text and a message; the reply is a frame
  of a JSON text. Eigen's \<open>setLinSpaced\<close> is the parameter \<open>linsp\<close>. The timer that closes idle
  sessions and the accepting of connections are left out.
\<close>

section \<open>Errors in the reply\<close>

datatype error_code = Capnproto_Payload_Invalid | Not_An_Advertisement

fun error_code_int :: "error_code \<Rightarrow> int" where
  "error_code_int Capnproto_Payload_Invalid = 1"
| "error_code_int Not_An_Advertisement = 2"

fun push_back :: "json \<Rightarrow> json \<Rightarrow> json result" where
  "push_back (JArray xs) v = Inr (JArray (xs @ [v]))"
| "push_back _ v = Inl Assert_Failed"

text \<open>The message is copied as a C string.\<close>

definition addError :: "json \<Rightarrow> error_code \<Rightarrow> string \<Rightarrow> json result" where
  "addError errorsArray code msg =
     rbind (add_member (JObject []) ''code'' (JInt (error_code_int code))) (\<lambda>e.
     rbind (add_member e ''msg'' (JString (takeWhile (\<lambda>c. c \<noteq> CHR 0x00) msg))) (\<lambda>e.
     push_back errorsArray e))"

section \<open>Evaluation on a grid\<close>

text \<open>The result is the list of its rows; a row belongs to one value of \<open>P\<close>.\<close>

definition grid_point :: "platform \<Rightarrow> nat \<Rightarrow> real_expr \<Rightarrow> set_expr \<Rightarrow> double \<Rightarrow> double \<Rightarrow> double interp" where
  "grid_point M n pqFun pqDomain p q =
     bnd (test_membership M n pqDomain [p, q] Map.empty) (\<lambda>isMember.
       if isMember then evaluate M n pqFun [''P'' \<mapsto> p, ''Q'' \<mapsto> q] else ret Nan)"

definition evalFunOnPQDomain :: "platform \<Rightarrow> nat \<Rightarrow> real_expr \<Rightarrow> set_expr \<Rightarrow> double list \<Rightarrow> double list \<Rightarrow>
    double list list interp" where
  "evalFunOnPQDomain M n pqFun pqDomain evalPointsP evalPointsQ =
     mapC (\<lambda>p. mapC (grid_point M n pqFun pqDomain p) evalPointsQ) evalPointsP"

section \<open>Run-length compression\<close>

text \<open>\<open>-1\<close> stands for NaN in the output; a value that is \<open>-1\<close> is moved by an epsilon.\<close>

definition epsilon :: double where "epsilon = Fin (1 / 2 ^ 52)"

definition remap :: "platform \<Rightarrow> double \<Rightarrow> double" where
  "remap M datum = (if deq datum (Fin (- 1)) then dadd M datum epsilon
     else if datum = Nan then Fin (- 1) else datum)"

text \<open>Membership in a \<open>std::set<double>\<close>: no order between the value and the member.\<close>

definition in_set :: "double list \<Rightarrow> double \<Rightarrow> bool" where
  "in_set vals x \<longleftrightarrow> (\<exists>v \<in> set vals. \<not> dlt x v \<and> \<not> dlt v x)"

text \<open>
  The loop, on the data from index \<open>i\<close> on. The rewinding \<open>--i\<close> leaves the datum in the list. The
  value of \<open>activeVal\<close> counts only when \<open>cnt > 0\<close>.
\<close>

function compress_loop :: "platform \<Rightarrow> double list \<Rightarrow> double list \<Rightarrow> nat \<Rightarrow> double \<Rightarrow> json list \<Rightarrow> json list" where
  "compress_loop M vals [] cnt activeVal out =
     (if cnt > 0 then out @ [JDouble activeVal, JInt (int cnt)] else out)"
| "compress_loop M vals (x # xs) cnt activeVal out = (let datum = remap M x in
     if cnt > 0 then
       (if deq datum activeVal then compress_loop M vals xs (cnt + 1) activeVal out
        else compress_loop M vals (x # xs) 0 activeVal (out @ [JDouble activeVal, JInt (int cnt)]))
     else if in_set vals datum then compress_loop M vals xs 1 datum out
     else compress_loop M vals xs 0 activeVal (out @ [JDouble datum]))"
  by pat_completeness auto
termination
  by (relation "measure (\<lambda>(M, vals, xs, cnt, a, out). 2 * length xs + (if cnt > 0 then 1 else 0))") auto

definition column_major :: "'a list list \<Rightarrow> nat \<Rightarrow> 'a list" where
  "column_major m c = concat (map (\<lambda>j. map (\<lambda>row. row ! j) m) [0 ..< c])"

text \<open>The index is an \<open>int\<close>, its overflow undefined.\<close>

definition runlengthCompress :: "platform \<Rightarrow> double list list \<Rightarrow> nat \<Rightarrow> double list \<Rightarrow> json result" where
  "runlengthCompress M m cols compressVals =
     (if length m * cols < 2 ^ 31
      then Inr (JArray (compress_loop M compressVals (column_major m cols) 0 (Fin 0) []))
      else Inl Undefined)"

section \<open>Rendering\<close>

type_synonym lin_space = "nat \<Rightarrow> double \<Rightarrow> double \<Rightarrow> double list"

definition coord :: "double list \<Rightarrow> nat \<Rightarrow> double result" where
  "coord v i = (if i < length v then Inr (v ! i) else Inl Assert_Failed)"

text \<open>A \<open>double\<close> or an \<open>int\<close> as the size of a vector: a negative size fails an assertion.\<close>

definition size_of_int :: "int \<Rightarrow> nat result" where
  "size_of_int i = (if i < 0 then Inl Assert_Failed else Inr (nat i))"

definition size_of_double :: "double \<Rightarrow> nat result" where
  "size_of_double x =
     (if is_finite x \<and> - (2 ^ 63) \<le> trunc_real (val x) \<and> trunc_real (val x) < 2 ^ 63
      then size_of_int (trunc_real (val x)) else Inl Undefined)"

text \<open>The grid of one coordinate for a given resolution.\<close>

definition resolution_axis :: "platform \<Rightarrow> lin_space \<Rightarrow> double \<Rightarrow> double \<Rightarrow> double \<Rightarrow> double list result" where
  "resolution_axis M linsp res lo hi =
     (let minDiv = dfloor (ddiv M lo res); maxDiv = dceil (ddiv M hi res) in
      rbind (size_of_double (dsub M maxDiv minDiv)) (\<lambda>dim.
        Inr (linsp dim (dmul M minDiv res) (dmul M maxDiv res))))"

definition has_member :: "json \<Rightarrow> string \<Rightarrow> bool result" where
  "has_member d k = rbind (find_member d k) (\<lambda>m. Inr (m \<noteq> None))"

definition has_both :: "json \<Rightarrow> string \<Rightarrow> string \<Rightarrow> bool result" where
  "has_both d k l = rbind (has_member d k) (\<lambda>b. if b then has_member d l else Inr False)"

text \<open>The two vectors of the grid, or \<open>None\<close> when the request names neither sizes nor resolutions.\<close>

definition render_grid :: "platform \<Rightarrow> lin_space \<Rightarrow> json \<Rightarrow> aligned_box \<Rightarrow> (double list \<times> double list) option result" where
  "render_grid M linsp request bb =
     rbind (has_both request ''resP'' ''resQ'') (\<lambda>res.
     if res then
       rbind (rbind (member_or Assert_Failed request ''resP'') (json_double M)) (\<lambda>resP.
       rbind (rbind (member_or Assert_Failed request ''resQ'') (json_double M)) (\<lambda>resQ.
       rbind (coord (box_min bb) 0) (\<lambda>minP. rbind (coord (box_max bb) 0) (\<lambda>maxP.
       rbind (coord (box_min bb) 1) (\<lambda>minQ. rbind (coord (box_max bb) 1) (\<lambda>maxQ.
       rbind (resolution_axis M linsp resP minP maxP) (\<lambda>p.
       rbind (resolution_axis M linsp resQ minQ maxQ) (\<lambda>q. Inr (Some (p, q))))))))))
     else rbind (has_both request ''dimP'' ''dimQ'') (\<lambda>dim.
     if dim then
       rbind (rbind (rbind (member_or Assert_Failed request ''dimP'') json_int) size_of_int) (\<lambda>dimP.
       rbind (coord (box_min bb) 0) (\<lambda>minP. rbind (coord (box_max bb) 0) (\<lambda>maxP.
       rbind (rbind (rbind (member_or Assert_Failed request ''dimQ'') json_int) size_of_int) (\<lambda>dimQ.
       rbind (coord (box_min bb) 1) (\<lambda>minQ. rbind (coord (box_max bb) 1) (\<lambda>maxQ.
         Inr (Some (linsp dimP minP maxP, linsp dimQ minQ maxQ))))))))
     else Inr None))"

definition add_raster :: "platform \<Rightarrow> double list \<Rightarrow> double list \<Rightarrow> double list list \<Rightarrow> json \<Rightarrow> json result" where
  "add_raster M p q raster response =
     rbind (runlengthCompress M raster (length q) [Fin 0, Fin (- 1)]) (\<lambda>compressed.
     rbind (add_member (JObject []) ''data'' compressed) (\<lambda>cf.
     rbind (coord p 0) (\<lambda>p0. rbind (add_member cf ''originP'' (JDouble p0)) (\<lambda>cf.
     rbind (coord q 0) (\<lambda>q0. rbind (add_member cf ''originQ'' (JDouble q0)) (\<lambda>cf.
     rbind (add_member cf ''dimP'' (JInt (to_int32 (length p)))) (\<lambda>cf.
     rbind (add_member cf ''dimQ'' (JInt (to_int32 (length q)))) (\<lambda>cf.
     rbind (coord p 1) (\<lambda>p1. rbind (add_member cf ''resP'' (JDouble (dsub M p1 p0))) (\<lambda>cf.
     rbind (coord q 1) (\<lambda>q1. rbind (add_member cf ''resQ'' (JDouble (dsub M q1 q0))) (\<lambda>cf.
       add_member response ''cf'' cf))))))))))))"

definition render_with :: "platform \<Rightarrow> lp_solver \<Rightarrow> (nat \<Rightarrow> nat \<Rightarrow> nat) \<Rightarrow> nat \<Rightarrow> lin_space \<Rightarrow> json \<Rightarrow> json \<Rightarrow>
    advertisement \<Rightarrow> json interp" where
  "render_with M lp rs n linsp request response a =
     bnd (rectangular_hull M lp rs n (get_pq_profile a) Map.empty) (\<lambda>bb.
     bnd (from_result (render_grid M linsp request bb)) (\<lambda>g. case g of
       None \<Rightarrow> ret response
     | Some (p, q) \<Rightarrow> bnd (evalFunOnPQDomain M n (get_cost_function a) (get_pq_profile a) p q) (\<lambda>raster.
         from_result (add_raster M p q raster response))))"

definition renderCostFunction :: "platform \<Rightarrow> lp_solver \<Rightarrow> (nat \<Rightarrow> nat \<Rightarrow> nat) \<Rightarrow> nat \<Rightarrow> lin_space \<Rightarrow> json \<Rightarrow> json \<Rightarrow>
    advertisement \<Rightarrow> json result option" where
  "renderCostFunction M lp rs n linsp request response a = (case construct_advfunc a of
     None \<Rightarrow> None
   | Some (Inl e, s) \<Rightarrow> Some (Inl e)
   | Some (Inr _, s) \<Rightarrow> map_option fst (render_with M lp rs n linsp request response a s))"

section \<open>A session\<close>

definition network_to_host :: "byte list \<Rightarrow> nat" where
  "network_to_host bs = foldl (\<lambda>a b. a * 256 + unat b) 0 bs"

definition host_to_network :: "32 word \<Rightarrow> byte list" where
  "host_to_network w = map (\<lambda>i. ucast (drop_bit (8 * (3 - i)) w)) [0 ..< 4]"

definition async_read :: "nat \<Rightarrow> byte list \<Rightarrow> (byte list \<times> byte list) result" where
  "async_read n stream = (if n \<le> length stream then Inr (take n stream, drop n stream) else Inl System_Error)"

text \<open>The three reads of a request: the JSON text, the message's bytes, and the rest of the stream.\<close>

definition read_frame :: "byte list \<Rightarrow> (byte list \<times> byte list \<times> byte list) result" where
  "read_frame stream =
     rbind (async_read 8 stream) (\<lambda>(header, stream).
     rbind (async_read (network_to_host (take 4 header)) stream) (\<lambda>(jsonData, stream).
     rbind (async_read (network_to_host (drop 4 header)) stream) (\<lambda>(capnpData, stream).
       Inr (jsonData, capnpData, stream))))"

text \<open>The reply to one request; \<open>what\<close> is the text of Cap'n Proto's exception.\<close>

definition session_reply :: "byte json_lib \<Rightarrow> (byte list \<Rightarrow> message option) \<Rightarrow> (byte list \<Rightarrow> string) \<Rightarrow>
    (json \<Rightarrow> json \<Rightarrow> advertisement \<Rightarrow> json result option) \<Rightarrow> byte list \<Rightarrow> byte list \<Rightarrow> json result option" where
  "session_reply J reader what render jsonData capnpData =
     (let jsonRequest = parse_into J (takeWhile (\<lambda>b. b \<noteq> 0) jsonData) JNull;
          with_error = (\<lambda>code msg. rbind (addError (JArray []) code msg) (\<lambda>errors. add_member (JObject []) ''errors'' errors)) in
      case reader capnpData of
        None \<Rightarrow> Some (with_error Capnproto_Payload_Invalid (''capnproto payload invalid: '' @ what capnpData))
      | Some m \<Rightarrow> (case message_adv m of
          None \<Rightarrow> Some (with_error Not_An_Advertisement ''capnproto payload is not an advertisement'')
        | Some a \<Rightarrow> render jsonRequest (JObject []) a))"

definition reply_frame :: "byte json_lib \<Rightarrow> json \<Rightarrow> byte list" where
  "reply_frame J reply = (let payload = takeWhile (\<lambda>b. b \<noteq> 0) (json_print J reply) in
     host_to_network (word_of_nat (length payload)) @ payload)"

text \<open>
  How a session ends: its socket is closed after an exception (the end of the stream is one), or
  the whole process is terminated. \<open>None\<close>: a request does not return. The session is run for at
  most \<open>f\<close> requests.
\<close>

datatype session_end = Closed error | Killed error | Open "byte list"

fun sessionLoop :: "byte json_lib \<Rightarrow> (byte list \<Rightarrow> message option) \<Rightarrow> (byte list \<Rightarrow> string) \<Rightarrow>
    (json \<Rightarrow> json \<Rightarrow> advertisement \<Rightarrow> json result option) \<Rightarrow> nat \<Rightarrow> byte list \<Rightarrow> byte list \<Rightarrow>
    (session_end \<times> byte list) option" where
  "sessionLoop J reader what render 0 stream sent = Some (Open stream, sent)"
| "sessionLoop J reader what render (Suc f) stream sent =
     (let close = (\<lambda>e. Some (if is_exception e then Closed e else Killed e, sent)) in
      case read_frame stream of
        Inl e \<Rightarrow> close e
      | Inr (jsonData, capnpData, rest) \<Rightarrow>
          (case session_reply J reader what render jsonData capnpData of
             None \<Rightarrow> None
           | Some (Inl e) \<Rightarrow> close e
           | Some (Inr reply) \<Rightarrow> sessionLoop J reader what render f rest (sent @ reply_frame J reply)))"

end
