(* ===== verification/Visualization_Props.thy ===== *)
theory Visualization_Props imports Visualization begin

text \<open>
  The raster and its compressed form: the shape and the entries of the matrix, the round trip of
  the run-length code, and the frames of a session.
\<close>

section \<open>The raster\<close>

lemma grid_point_run:
  assumes "adv_valid s" "ref_free_set dm" "calls_set dm \<le> 10000" "calls_set dm \<le> n"
    "ref_free_real f" "calls_real f \<le> 10000" "calls_real f \<le> n"
  shows "\<exists>t. grid_point M n f dm p q s = Some (rbind (den_set M Map.empty dm [p, q]) (\<lambda>b.
    if b then den_real M [''P'' \<mapsto> p, ''Q'' \<mapsto> q] f else Inr Nan), t) \<and> adv_valid t"
proof -
  obtain d where d: "test_membership M n dm [p, q] Map.empty s =
      Some (den_set M Map.empty dm [p, q], s\<lparr>bound_vars := Map.empty, nesting_depth := d\<rparr>)" (is "_ = Some (_, ?u)")
    using membership_denotes_lemma [OF assms(1-4)] by blast
  moreover obtain d' where "evaluate M n f [''P'' \<mapsto> p, ''Q'' \<mapsto> q] ?u =
      Some (den_real M [''P'' \<mapsto> p, ''Q'' \<mapsto> q] f, ?u\<lparr>bound_vars := [''P'' \<mapsto> p, ''Q'' \<mapsto> q], nesting_depth := d'\<rparr>)"
    using evaluate_denotes_lemma [of ?u f n M "[''P'' \<mapsto> p, ''Q'' \<mapsto> q]"] assms by auto
  ultimately show ?thesis using assms(1)
    by (cases "den_set M Map.empty dm [p, q]") (auto simp: grid_point_def bnd_run ret_run)
qed

lemma grid_point_value:
  assumes "adv_valid s" "ref_free_set dm" "calls_set dm \<le> 10000" "calls_set dm \<le> n"
    "ref_free_real f" "calls_real f \<le> 10000" "calls_real f \<le> n"
    and "grid_point M n f dm p q s = Some (Inr v, t)"
  shows "adv_valid t \<and> (den_set M Map.empty dm [p, q] = Inr True \<and> den_real M [''P'' \<mapsto> p, ''Q'' \<mapsto> q] f = Inr v \<or>
    den_set M Map.empty dm [p, q] = Inr False \<and> v = Nan)"
proof -
  have "rbind (den_set M Map.empty dm [p, q]) (\<lambda>b. if b then den_real M [''P'' \<mapsto> p, ''Q'' \<mapsto> q] f else Inr Nan) = Inr v"
    "adv_valid t"
    using grid_point_run [OF assms(1-7), of M p q] assms(8) by auto
  then show ?thesis by (auto simp: rbind_Inr_iff split: if_splits)
qed

lemma mapC_entries:
  assumes "mapC f xs s = Some (Inr ys, t)" "P s"
    and "\<And>x y s t. f x s = Some (Inr y, t) \<Longrightarrow> P s \<Longrightarrow> P t \<and> Q x y"
  shows "P t \<and> list_all2 Q xs ys"
  using assms(1,2)
proof (induction xs arbitrary: s ys)
  case (Cons x xs)
  then obtain y u zs where "f x s = Some (Inr y, u)" "mapC f xs u = Some (Inr zs, t)" "ys = y # zs"
    by (auto simp: bnd_Inr_iff ret_run)
  with assms(3) [of x s y u] Cons.prems(2) Cons.IH [of u zs] show ?case by simp
qed (simp add: run_simps)

text \<open>The matrix of \<open>evalFunOnPQDomain\<close> has one row for each value of \<open>P\<close> and one column for each value of \<open>Q\<close>, and each entry is the value of the function at its grid point when the point lies in the domain, NaN when it does not.\<close>

theorem raster_entries:
  assumes "adv_valid s" and "ref_free_set dm" "calls_set dm \<le> 10000" "calls_set dm \<le> n"
    and "ref_free_real f" "calls_real f \<le> 10000" "calls_real f \<le> n"
    and "evalFunOnPQDomain M n f dm ps qs s = Some (Inr m, t)"
  shows "length m = length ps \<and> (\<forall>i < length ps. length (m ! i) = length qs \<and> (\<forall>j < length qs.
    den_set M Map.empty dm [ps ! i, qs ! j] = Inr True \<and>
      den_real M [''P'' \<mapsto> ps ! i, ''Q'' \<mapsto> qs ! j] f = Inr (m ! i ! j) \<or>
    den_set M Map.empty dm [ps ! i, qs ! j] = Inr False \<and> m ! i ! j = Nan))"
proof -
  let ?Q = "\<lambda>p q v. den_set M Map.empty dm [p, q] = Inr True \<and> den_real M [''P'' \<mapsto> p, ''Q'' \<mapsto> q] f = Inr v \<or>
    den_set M Map.empty dm [p, q] = Inr False \<and> v = Nan"
  have "adv_valid t \<and> list_all2 (\<lambda>p row. list_all2 (?Q p) qs row) ps m"
  proof (rule mapC_entries [where P = adv_valid, OF assms(8) [unfolded evalFunOnPQDomain_def] assms(1)])
    fix p row u u'
    assume "mapC (grid_point M n f dm p) qs u = Some (Inr row, u')" "adv_valid u"
    then show "adv_valid u' \<and> list_all2 (?Q p) qs row"
      by (rule mapC_entries [where P = adv_valid]) (rule grid_point_value [OF _ assms(2-7)])
  qed
  then show ?thesis by (auto simp: list_all2_conv_all_nth)
qed

theorem raster_entries_witness:
  "\<exists>m t. evalFunOnPQDomain exact 9 (var_ref ''P'') (literal_box [(0, 1), (0, 1)]) [Fin 1, Fin 3] [Fin 0]
      (new_advfunc\<lparr>adv_valid := True\<rparr>) = Some (Inr m, t) \<and> length m = 2 \<and> m ! 0 ! 0 = Fin 1 \<and> m ! 1 ! 0 = Nan"
proof -
  let ?dm = "literal_box [(0, 1), (0, 1)]" and ?s = "new_advfunc\<lparr>adv_valid := True\<rparr>"
  have size: "ref_free_set ?dm" "calls_set ?dm \<le> 9" "ref_free_real (var_ref ''P'')" "calls_real (var_ref ''P'') \<le> 9"
    by (simp_all add: literal_box_def)
  have box: "den_set exact Map.empty ?dm [Fin 1, Fin 0] = Inr True" "den_set exact Map.empty ?dm [Fin 3, Fin 0] = Inr False"
    using den_literal_box [of "[1, 0]" "[(0, 1), (0, 1)]" exact Map.empty]
      den_literal_box [of "[3, 0]" "[(0, 1), (0, 1)]" exact Map.empty] by (auto simp: less_Suc_eq)
  have point: "\<exists>u. grid_point exact 9 (var_ref ''P'') ?dm p (Fin 0) s = Some (rbind (den_set exact Map.empty ?dm [p, Fin 0])
      (\<lambda>b. if b then Inr p else Inr Nan), u) \<and> adv_valid u" if "adv_valid s" for s p
    using grid_point_run [OF that size(1) _ size(2,3) _ size(4), of exact p "Fin 0"] size by (simp add: lookup_or_def cong: if_cong)
  obtain u where "grid_point exact 9 (var_ref ''P'') ?dm (Fin 1) (Fin 0) ?s = Some (Inr (Fin 1), u)" "adv_valid u"
    using point [of ?s "Fin 1"] box(1) by auto
  moreover obtain v where "grid_point exact 9 (var_ref ''P'') ?dm (Fin 3) (Fin 0) u = Some (Inr Nan, v)"
    using point [OF \<open>adv_valid u\<close>, of "Fin 3"] box(2) by auto
  ultimately have run: "evalFunOnPQDomain exact 9 (var_ref ''P'') ?dm [Fin 1, Fin 3] [Fin 0] ?s = Some (Inr [[Fin 1], [Nan]], v)"
    by (simp add: evalFunOnPQDomain_def run_simps)
  have "adv_valid ?s" by simp
  from raster_entries [OF this size(1) _ size(2,3) _ size(4) run] size run show ?thesis by auto
qed

section \<open>The run-length code\<close>

text \<open>What a client does: a number after a value repeats it, -1 is NaN.\<close>

fun expand :: "json list \<Rightarrow> double list" where
  "expand (JDouble v # JInt n # ts) = replicate (nat n) v @ expand ts"
| "expand (JDouble v # ts) = v # expand ts"
| "expand _ = []"

definition decode :: "double \<Rightarrow> double" where
  "decode v = (if deq v (Fin (- 1)) then Nan else v)"

text \<open>What the client may see for a value: the value itself up to the sign of zero, but a value near -1 for -1.\<close>

definition rendered :: "double \<Rightarrow> double \<Rightarrow> bool" where
  "rendered x y \<longleftrightarrow> (if x = Nan then y = Nan else if x = Fin (- 1) then y = Fin (- 1 + 1 / 2 ^ 52) else deq x y)"

definition same :: "double \<Rightarrow> double \<Rightarrow> bool" where
  "same v d \<longleftrightarrow> v = d \<or> deq d v"

lemma compress_steps:
  "c > 0 \<Longrightarrow> deq (remap M x) a \<Longrightarrow> compress_loop M vals (x # xs) c a out = compress_loop M vals xs (c + 1) a out"
  "c > 0 \<Longrightarrow> \<not> deq (remap M x) a \<Longrightarrow>
    compress_loop M vals (x # xs) c a out = compress_loop M vals (x # xs) 0 a (out @ [JDouble a, JInt (int c)])"
  "in_set vals (remap M x) \<Longrightarrow> compress_loop M vals (x # xs) 0 a out = compress_loop M vals xs 1 (remap M x) out"
  "\<not> in_set vals (remap M x) \<Longrightarrow> compress_loop M vals (x # xs) 0 a out = compress_loop M vals xs 0 a (out @ [JDouble (remap M x)])"
  by (simp_all add: Let_def)

declare compress_loop.simps(2) [simp del]

lemma compress_out: "compress_loop M vals xs c a out = out @ compress_loop M vals xs c a []"
proof (induction "2 * length xs + (if c > 0 then 1 else 0)" arbitrary: xs c a out rule: less_induct)
  case less
  show ?case
  proof (cases xs)
    case (Cons x ys)
    show ?thesis
    proof (cases "c > 0")
      case True
      then show ?thesis
        using Cons less [of ys "c + 1" a out] less [of xs 0 a "out @ [JDouble a, JInt (int c)]"] less [of xs 0 a "[JDouble a, JInt (int c)]"]
        by (cases "deq (remap M x) a") (simp_all add: compress_steps)
    next
      case False
      then show ?thesis
        using Cons less [of ys 1 "remap M x" out] less [of ys 0 a "out @ [JDouble (remap M x)]"] less [of ys 0 a "[JDouble (remap M x)]"]
        by (cases "in_set vals (remap M x)") (simp_all add: compress_steps)
    qed
  qed simp
qed

fun starts_int :: "json list \<Rightarrow> bool" where
  "starts_int (JInt n # ts) = True"
| "starts_int _ = False"

lemma expand_plain: "\<not> starts_int ts \<Longrightarrow> expand (JDouble v # ts) = v # expand ts"
  by (cases ts rule: starts_int.cases) simp_all

lemma expand_compress:
  "\<exists>E. expand (compress_loop M vals xs c a []) = replicate c a @ E \<and> list_all2 same E (map (remap M) xs) \<and>
    \<not> starts_int (compress_loop M vals xs c a [])"
proof (induction "2 * length xs + (if c > 0 then 1 else 0)" arbitrary: xs c a rule: less_induct)
  case less
  show ?case
  proof (cases xs)
    case (Cons x ys)
    let ?d = "remap M x"
    consider "c > 0" "deq ?d a" | "c > 0" "\<not> deq ?d a" | "c = 0" "in_set vals ?d" | "c = 0" "\<not> in_set vals ?d" by auto
    then show ?thesis
    proof cases
      case 1
      then obtain E where "expand (compress_loop M vals ys (c + 1) a []) = replicate (c + 1) a @ E"
          "list_all2 same E (map (remap M) ys)" "\<not> starts_int (compress_loop M vals ys (c + 1) a [])"
        using less [of ys "c + 1" a] Cons by auto
      with 1 Cons show ?thesis
        by (intro exI [of _ "a # E"]) (simp add: compress_steps same_def replicate_app_Cons_same)
    next
      case 2
      then obtain E where E: "expand (compress_loop M vals xs 0 a []) = E" "list_all2 same E (map (remap M) xs)"
        using less [of xs 0 a] by auto
      have "compress_loop M vals xs c a [] = JDouble a # JInt (int c) # compress_loop M vals xs 0 a []"
        using 2 Cons compress_out [of M vals xs 0 a "[JDouble a, JInt (int c)]"] by (simp add: compress_steps)
      with E show ?thesis by simp
    next
      case 3
      then obtain E where "expand (compress_loop M vals ys 1 ?d []) = ?d # E"
          "list_all2 same E (map (remap M) ys)" "\<not> starts_int (compress_loop M vals ys 1 ?d [])"
        using less [of ys 1 ?d] Cons by auto
      with 3 Cons show ?thesis by (simp add: compress_steps same_def)
    next
      case 4
      then obtain E where E: "expand (compress_loop M vals ys 0 a []) = E" "list_all2 same E (map (remap M) ys)"
          "\<not> starts_int (compress_loop M vals ys 0 a [])"
        using less [of ys 0 a] Cons by auto
      have "compress_loop M vals xs c a [] = JDouble ?d # compress_loop M vals ys 0 a []"
        using 4 Cons compress_out [of M vals ys 0 a "[JDouble ?d]"] by (simp add: compress_steps)
      with E 4 Cons show ?thesis by (simp add: expand_plain same_def)
    qed
  qed (cases "c > 0"; simp)
qed

lemma deq_Fin_cases: "deq x (Fin y) \<longleftrightarrow> x = Fin y \<or> x = NZero \<and> y = 0"
  by (cases x) (auto simp: deq_def)

lemma rendered_remap:
  assumes "rnd M (- 1 + 1 / 2 ^ 52) = Fin (- 1 + 1 / 2 ^ 52)" "same v (remap M x)"
  shows "rendered x (decode v)"
proof -
  have eps: "dadd M (Fin (- 1)) epsilon = Fin (- 1 + 1 / 2 ^ 52)"
    using assms(1) by (simp add: dadd_def epsilon_def)
  show ?thesis using assms(2) eps
    by (cases x; cases v) (auto simp: rendered_def decode_def remap_def same_def deq_def split: if_splits)
qed

text \<open>
  A grid with a single value of \<open>P\<close> fails Eigen's assertion when the resolution is computed, and a
  request that is no JSON object fails RapidJSON's: both end the server for all its clients.
\<close>

lemma one_point_grid_aborts:
  "length p = 1 \<Longrightarrow> q \<noteq> [] \<Longrightarrow> length m * length q < 2 ^ 31 \<Longrightarrow> add_raster M p q m (JObject ms) = Inl Assert_Failed"
  by (simp add: add_raster_def runlengthCompress_def coord_def)

lemma malformed_request_aborts:
  "\<not> is_object request \<Longrightarrow> render_grid M linsp request bb = Inl Assert_Failed"
  by (cases request) (simp_all add: render_grid_def has_both_def has_member_def)

text \<open>C37: A client that expands the compressed matrix gets every entry back in Eigen's column order: NaN for NaN, the same number otherwise, with the two exceptions that -1 arrives as the next larger \<open>double\<close> and that the sign of a zero may change.\<close>

theorem compression_roundtrip:
  assumes "rnd M (- 1 + 1 / 2 ^ 52) = Fin (- 1 + 1 / 2 ^ 52)" and "length m * cols < 2 ^ 31"
  shows "\<exists>ts. runlengthCompress M m cols vals = Inr (JArray ts) \<and>
    list_all2 rendered (column_major m cols) (map decode (expand ts))"
proof -
  let ?ts = "compress_loop M vals (column_major m cols) 0 (Fin 0) []"
  obtain E where "expand ?ts = E" "list_all2 same E (map (remap M) (column_major m cols))"
    using expand_compress [of M vals "column_major m cols" 0 "Fin 0"] by auto
  then have "list_all2 rendered (column_major m cols) (map decode (expand ?ts))"
    using rendered_remap [OF assms(1)] by (auto simp: list_all2_conv_all_nth)
  with assms(2) show ?thesis by (simp add: runlengthCompress_def)
qed

theorem compression_roundtrip_witness:
  "\<exists>ts. runlengthCompress exact [[Nan, Fin 1], [Nan, Fin (- 1)]] 2 [Fin 0, Fin (- 1)] = Inr (JArray ts) \<and>
    list_all2 rendered [Nan, Nan, Fin 1, Fin (- 1)] (map decode (expand ts))"
  using compression_roundtrip [of exact "[[Nan, Fin 1], [Nan, Fin (- 1)]]" 2 "[Fin 0, Fin (- 1)]"]
  by (simp add: column_major_def exact_rnd upt_rec)

end
