(* ===== verification/Visualization_Session.thy ===== *)
theory Visualization_Session imports Visualization begin

text \<open>
  A session of the visualization server over its byte stream: what a client has to send, the
  answers it gets and how it reads them back.
\<close>

section \<open>Lengths in network order\<close>

lemma unat_byte: "unat (ucast (drop_bit k w) :: byte) = unat w div 2 ^ k mod 256" for w :: "32 word"
proof -
  have "unat (drop_bit k w) = unat w div 2 ^ k" by (simp add: unat_drop_bit_eq flip: drop_bit_eq_div)
  then show ?thesis by (simp add: unsigned_ucast_eq take_bit_eq_mod)
qed

lemma split_bytes:
  assumes "(n::nat) < 2 ^ 32"
  shows "((n div 2 ^ 24 mod 256 * 256 + n div 2 ^ 16 mod 256) * 256 + n div 2 ^ 8 mod 256) * 256 + n mod 256 = n"
proof -
  define a b c where "a = n div 256" and "b = a div 256" and "c = b div 256"
  have "n div 2 ^ 8 = a" "n div 2 ^ 16 = b" "n div 2 ^ 24 = c"
    by (simp_all add: a_def b_def c_def div_mult2_eq [symmetric])
  moreover have "c < 256" using assms by (simp add: a_def b_def c_def div_mult2_eq [symmetric] less_mult_imp_div_less)
  moreover have "n = a * 256 + n mod 256" "a = b * 256 + a mod 256" "b = c * 256 + b mod 256"
    by (simp_all add: a_def b_def c_def)
  ultimately show ?thesis by simp
qed

lemma network_roundtrip: "network_to_host (host_to_network w) = unat w"
proof -
  have "unat w < 2 ^ 32" using unsigned_less [of w] by simp
  then have "foldl (\<lambda>a b. a * 256 + b) 0 [unat w div 2 ^ 24 mod 256, unat w div 2 ^ 16 mod 256, unat w div 2 ^ 8 mod 256, unat w mod 256] = unat w"
    using split_bytes by simp
  moreover have "map unat (host_to_network w) = [unat w div 2 ^ 24 mod 256, unat w div 2 ^ 16 mod 256, unat w div 2 ^ 8 mod 256, unat w mod 256]"
    using unat_byte [of 0 w] by (simp add: host_to_network_def upt_rec unat_byte)
  ultimately show ?thesis by (metis foldl_map network_to_host_def)
qed

lemma network_length: "n < 2 ^ 32 \<Longrightarrow> network_to_host (host_to_network (word_of_nat n)) = n"
  by (simp add: network_roundtrip unsigned_of_nat take_bit_nat_eq_self)

lemma length_host_to_network [simp]: "length (host_to_network w) = 4"
  by (simp add: host_to_network_def)

section \<open>The client\<close>

text \<open>A request: two lengths, the JSON text and the message.\<close>

definition request_frame :: "byte list \<times> byte list \<Rightarrow> byte list" where
  "request_frame r = host_to_network (word_of_nat (length (fst r))) @ host_to_network (word_of_nat (length (snd r))) @ fst r @ snd r"

text \<open>Reading \<open>n\<close> replies.\<close>

fun read_replies :: "nat \<Rightarrow> byte list \<Rightarrow> byte list list" where
  "read_replies 0 stream = []"
| "read_replies (Suc n) stream = (let len = network_to_host (take 4 stream); rest = drop 4 stream in
     take len rest # read_replies n (drop len rest))"

definition reply_text :: "byte json_lib \<Rightarrow> json \<Rightarrow> byte list" where
  "reply_text J reply = takeWhile (\<lambda>b. b \<noteq> 0) (json_print J reply)"

lemma reply_frame_text: "reply_frame J r = host_to_network (word_of_nat (length (reply_text J r))) @ reply_text J r"
  by (simp add: reply_frame_def reply_text_def Let_def)

lemma read_replies_frames:
  "\<forall>r \<in> set replies. length (reply_text J r) < 2 ^ 32 \<Longrightarrow>
    read_replies (length replies) (concat (map (reply_frame J) replies)) = map (reply_text J) replies"
  by (induction replies) (simp_all add: reply_frame_text network_length Let_def)

lemma read_frame_request:
  "length (fst r) < 2 ^ 32 \<Longrightarrow> length (snd r) < 2 ^ 32 \<Longrightarrow>
    read_frame (request_frame r @ rest) = Inr (fst r, snd r, rest)"
  by (simp add: read_frame_def request_frame_def async_read_def network_length)

section \<open>The session\<close>

text \<open>A message that cannot be read, or is no advertisement, is answered with a list of one error.\<close>

definition error_reply :: "error_code \<Rightarrow> string \<Rightarrow> json" where
  "error_reply code msg = JObject [(''errors'', JArray [JObject [(''code'', JInt (error_code_int code)),
     (''msg'', JString (takeWhile (\<lambda>c. c \<noteq> CHR 0x00) msg))]])]"

lemma bad_message_reply:
  "reader c = None \<Longrightarrow> session_reply J reader what render j c =
    Some (Inr (error_reply Capnproto_Payload_Invalid (''capnproto payload invalid: '' @ what c)))"
  "reader c = Some m \<Longrightarrow> message_adv m = None \<Longrightarrow> session_reply J reader what render j c =
    Some (Inr (error_reply Not_An_Advertisement ''capnproto payload is not an advertisement''))"
  by (simp_all add: session_reply_def addError_def error_reply_def)

lemma session_serves:
  "list_all2 (\<lambda>r reply. session_reply J reader what render (fst r) (snd r) = Some (Inr reply)) reqs replies \<Longrightarrow>
    \<forall>r \<in> set reqs. length (fst r) < 2 ^ 32 \<and> length (snd r) < 2 ^ 32 \<Longrightarrow> length reqs < f \<Longrightarrow>
    sessionLoop J reader what render f (concat (map request_frame reqs)) sent =
      Some (Closed System_Error, sent @ concat (map (reply_frame J) replies))"
proof (induction reqs replies arbitrary: f sent rule: list_all2_induct)
  case Nil
  then obtain g where "f = Suc g" by (cases f) auto
  then show ?case by (simp add: read_frame_def async_read_def is_exception_def)
next
  case (Cons r rs reply replies)
  from Cons.prems obtain g where "f = Suc g" by (cases f) auto
  with Cons.prems Cons.hyps Cons.IH [of g "sent @ reply_frame J reply"]
    read_frame_request [of r "concat (map request_frame rs)"]
  show ?case by simp
qed

text \<open>C18: A session answers every request of a client in order: if the client sends frames with the lengths in network order and then closes its side, and every request is one that can be rendered or one whose message is unreadable or no advertisement, the server sends exactly one frame for each request, from which the client reads back the printed replies, errors included, and then closes the socket.\<close>

theorem session_answers_all:
  assumes "\<forall>r \<in> set reqs. length (fst r) < 2 ^ 32 \<and> length (snd r) < 2 ^ 32"
    and "list_all2 (\<lambda>r reply. case reader (snd r) of
        None \<Rightarrow> reply = error_reply Capnproto_Payload_Invalid (''capnproto payload invalid: '' @ what (snd r))
      | Some m \<Rightarrow> (case message_adv m of
          None \<Rightarrow> reply = error_reply Not_An_Advertisement ''capnproto payload is not an advertisement''
        | Some a \<Rightarrow> renderCostFunction M lp rs n linsp (parse_into J (takeWhile (\<lambda>b. b \<noteq> 0) (fst r)) JNull) (JObject []) a =
            Some (Inr reply))) reqs replies"
    and "\<forall>r \<in> set replies. length (reply_text J r) < 2 ^ 32" and "length reqs < f"
  shows "\<exists>sent. sessionLoop J reader what (renderCostFunction M lp rs n linsp) f (concat (map request_frame reqs)) [] =
      Some (Closed System_Error, sent) \<and>
    read_replies (length reqs) sent = map (reply_text J) replies"
proof -
  let ?render = "renderCostFunction M lp rs n linsp"
  have "list_all2 (\<lambda>r reply. session_reply J reader what ?render (fst r) (snd r) = Some (Inr reply)) reqs replies"
    using assms(2)
  proof (rule list_all2_mono)
    fix r reply
    assume "case reader (snd r) of
        None \<Rightarrow> reply = error_reply Capnproto_Payload_Invalid (''capnproto payload invalid: '' @ what (snd r))
      | Some m \<Rightarrow> (case message_adv m of
          None \<Rightarrow> reply = error_reply Not_An_Advertisement ''capnproto payload is not an advertisement''
        | Some a \<Rightarrow> ?render (parse_into J (takeWhile (\<lambda>b. b \<noteq> 0) (fst r)) JNull) (JObject []) a = Some (Inr reply))"
    then show "session_reply J reader what ?render (fst r) (snd r) = Some (Inr reply)"
      using bad_message_reply [of reader "snd r"] by (auto simp: session_reply_def Let_def split: option.splits)
  qed
  from session_serves [OF this assms(1,4), of "[]"] read_replies_frames [OF assms(3)] list_all2_lengthD [OF assms(2)]
  show ?thesis by simp
qed

theorem session_answers_all_witness:
  "let J = \<lparr> json_parse = (\<lambda>bs. None), json_print = (\<lambda>_. [123, 125]) \<rparr> :: byte json_lib in
    \<exists>sent. sessionLoop J (\<lambda>_. None) (\<lambda>_. ''bad'') (renderCostFunction exact (\<lambda>_ _ _ _ _ _. (Lp_Other, [])) (\<lambda>_ _. 0) 9 (\<lambda>n a b. [])) 9
      (concat (map request_frame [([123], [1]), ([], [2, 3])])) [] = Some (Closed System_Error, sent) \<and>
    read_replies (Suc (Suc 0)) sent = [[123, 125], [123, 125]]"
proof -
  let ?J = "\<lparr> json_parse = (\<lambda>bs. None), json_print = (\<lambda>_. [123, 125]) \<rparr> :: byte json_lib"
  let ?e = "error_reply Capnproto_Payload_Invalid (''capnproto payload invalid: '' @ ''bad'')"
  show ?thesis
    using session_answers_all [where reqs = "[([123], [1]), ([], [2, 3])]" and replies = "[?e, ?e]" and reader = "\<lambda>_. None"
        and what = "\<lambda>_. ''bad''" and M = exact and lp = "\<lambda>_ _ _ _ _ _. (Lp_Other, [])" and rs = "\<lambda>_ _. 0" and n = 9
        and linsp = "\<lambda>n a b. []" and J = ?J and f = 9]
    by (simp add: reply_text_def)
qed

end
