(* ===== verification/Visualization_Timer.thy ===== *)
theory Visualization_Timer imports Visualization begin

text \<open>
  The two coroutines of a session of the visualization server, which answers requests and which
  closes the socket of an idle client, and the program that accepts the connections. The coroutines
  share one strand: each runs from one asynchronous call to the next without the other.
\<close>

section \<open>The state of a session\<close>

text \<open>
  The first coroutine waits for one of four operations on the socket, or has one of them
  completed and waits for its turn, or has left its loop. The second waits on the timer, or has been
  woken up (because the time has come, or because setting or cancelling the timer cancels the wait),
  or has ended. Times are in seconds.
\<close>

datatype operation = Read_Header | Read_Json | Read_Capnp | Write_Reply

datatype answering = Pending operation | Completed operation | Closed_Down

datatype watching = Timer_Wait | Woken_Up | Ended

record session_state =
  clock :: nat
  expiry :: nat
  socket_open :: bool
  answerer :: answering
  watcher :: watching

definition session_seconds :: nat where "session_seconds = 10"

definition start_session :: "nat \<Rightarrow> session_state" where
  "start_session now = \<lparr> clock = now, expiry = now + session_seconds, socket_open = True,
     answerer = Pending Read_Header, watcher = Timer_Wait \<rparr>"

text \<open>\<open>expires_from_now(d)\<close> and \<open>cancel()\<close> cancel the pending wait.\<close>

definition wake :: "watching \<Rightarrow> watching" where
  "wake w = (if w = Timer_Wait then Woken_Up else w)"

text \<open>The loop from one operation to the next; \<open>d\<close> is the time it takes. A new round sets the timer.\<close>

definition resume_session :: "nat \<Rightarrow> operation \<Rightarrow> session_state \<Rightarrow> session_state" where
  "resume_session d oper s = (let s = s\<lparr>clock := clock s + d\<rparr> in case oper of
     Read_Header \<Rightarrow> s\<lparr>answerer := Pending Read_Json\<rparr>
   | Read_Json \<Rightarrow> s\<lparr>answerer := Pending Read_Capnp\<rparr>
   | Read_Capnp \<Rightarrow> s\<lparr>answerer := Pending Write_Reply\<rparr>
   | Write_Reply \<Rightarrow> s\<lparr>expiry := clock s + session_seconds, watcher := wake (watcher s), answerer := Pending Read_Header\<rparr>)"

text \<open>The handler of exceptions closes the socket and cancels the timer.\<close>

definition close_session :: "session_state \<Rightarrow> session_state" where
  "close_session s = s\<lparr>socket_open := False, watcher := wake (watcher s), answerer := Closed_Down\<rparr>"

text \<open>The rest of a round of the second loop after its wait, with the test for the next round.\<close>

definition watch_session :: "session_state \<Rightarrow> session_state" where
  "watch_session s = (let s = (if expiry s \<le> clock s then s\<lparr>socket_open := False\<rparr> else s) in
     s\<lparr>watcher := (if socket_open s then Timer_Wait else Ended)\<rparr>)"

text \<open>
  The steps in which the session does something by itself (\<open>session_reacts\<close>), and the two it
  waits for: an operation completes, time passes.
\<close>

inductive session_reacts :: "session_state \<Rightarrow> session_state \<Rightarrow> bool" where
  resumes: "answerer s = Completed oper \<Longrightarrow> session_reacts s (resume_session d oper s)"
| throws: "answerer s = Completed oper \<Longrightarrow> session_reacts s (close_session s)"
| aborted: "answerer s = Pending oper \<Longrightarrow> \<not> socket_open s \<Longrightarrow> session_reacts s (close_session s)"
| timer_fires: "watcher s = Timer_Wait \<Longrightarrow> expiry s \<le> clock s \<Longrightarrow> session_reacts s (s\<lparr>watcher := Woken_Up\<rparr>)"
| watches: "watcher s = Woken_Up \<Longrightarrow> session_reacts s (watch_session s)"

inductive session_step :: "session_state \<Rightarrow> session_state \<Rightarrow> bool" where
  reaction: "session_reacts s t \<Longrightarrow> session_step s t"
| completes: "answerer s = Pending oper \<Longrightarrow> socket_open s \<Longrightarrow> session_step s (s\<lparr>answerer := Completed oper\<rparr>)"
| fails: "answerer s = Pending oper \<Longrightarrow> socket_open s \<Longrightarrow> session_step s (close_session s)"
| time_passes: "session_step s (s\<lparr>clock := Suc (clock s)\<rparr>)"

inductive reachable_session :: "session_state \<Rightarrow> bool" where
  started: "reachable_session (start_session now)"
| stepped: "reachable_session s \<Longrightarrow> session_step s t \<Longrightarrow> reachable_session t"

lemmas session_ops = resume_session_def close_session_def watch_session_def wake_def Let_def

section \<open>Invariants\<close>

text \<open>A session that has ended has a closed socket and leaves no wait behind.\<close>

definition session_ok :: "session_state \<Rightarrow> bool" where
  "session_ok s \<longleftrightarrow> (answerer s = Closed_Down \<longrightarrow> \<not> socket_open s \<and> watcher s \<noteq> Timer_Wait) \<and>
     (watcher s = Ended \<longrightarrow> \<not> socket_open s)"

lemma reacts_ok: "session_reacts s t \<Longrightarrow> session_ok s \<Longrightarrow> session_ok t"
  by (induction rule: session_reacts.induct) (auto simp: session_ok_def session_ops split: operation.splits if_splits)

lemma step_ok: "session_step s t \<Longrightarrow> session_ok s \<Longrightarrow> session_ok t"
  by (induction rule: session_step.induct) (auto simp: reacts_ok, auto simp: session_ok_def session_ops)

lemma reachable_ok: "reachable_session s \<Longrightarrow> session_ok s"
  by (induction rule: reachable_session.induct) (auto simp: step_ok, simp add: session_ok_def start_session_def)

section \<open>The end of an idle session\<close>

text \<open>Each reaction of a session lowers this number, so a session that only reacts comes to rest.\<close>

definition to_do :: "session_state \<Rightarrow> nat" where
  "to_do s = (case answerer s of Completed _ \<Rightarrow> 6 | Pending _ \<Rightarrow> 3 | Closed_Down \<Rightarrow> 0) +
     (case watcher s of Timer_Wait \<Rightarrow> if expiry s \<le> clock s then 2 else 0 | Woken_Up \<Rightarrow> 1 | Ended \<Rightarrow> 0)"

lemma reacts_less: "session_reacts s t \<Longrightarrow> to_do t < to_do s"
  by (induction rule: session_reacts.induct)
    (auto simp: to_do_def session_ops split: operation.splits watching.splits)

text \<open>The client has sent nothing since the timer expired.\<close>

definition idle :: "session_state \<Rightarrow> bool" where
  "idle s \<longleftrightarrow> session_ok s \<and> expiry s \<le> clock s \<and> (\<forall>oper. answerer s \<noteq> Completed oper)"

lemma reacts_idle:
  assumes "session_reacts s t" "idle s"
  shows "idle t"
proof -
  have "session_ok t" using reacts_ok assms by (simp add: idle_def)
  with assms show ?thesis by (cases rule: session_reacts.cases) (auto simp: idle_def session_ops)
qed

lemma idle_at_rest:
  assumes "idle s" "\<nexists>t. session_reacts s t"
  shows "\<not> socket_open s \<and> answerer s = Closed_Down \<and> watcher s = Ended"
proof -
  have "watcher s = Ended" using assms by (cases "watcher s") (auto simp: idle_def intro: session_reacts.intros)
  then have "\<not> socket_open s" using assms(1) by (simp add: idle_def session_ok_def)
  moreover have "answerer s = Closed_Down"
    using assms calculation by (cases "answerer s") (auto simp: idle_def intro: session_reacts.intros)
  ultimately show ?thesis using \<open>watcher s = Ended\<close> by simp
qed

lemma reacts_power: "(session_reacts ^^ n) s t \<Longrightarrow> idle s \<Longrightarrow> idle t \<and> n + to_do t \<le> to_do s"
proof (induction n arbitrary: t)
  case (Suc n)
  then obtain u where u: "(session_reacts ^^ n) s u" "session_reacts u t" by auto
  with Suc.IH [OF u(1) Suc.prems(2)] reacts_less [OF u(2)] reacts_idle [OF u(2)] show ?case by simp
qed simp

text \<open>C32: A session does not stay behind: once ten seconds have passed since the start of the last request and no completed operation of the client is left to be handled, the two coroutines take at most five turns, in whatever order, and when no more turn can be taken the socket is closed and both have ended.\<close>

theorem idle_session_ends:
  assumes "reachable_session s" and "expiry s \<le> clock s" and "\<forall>oper. answerer s \<noteq> Completed oper"
    and "(session_reacts ^^ n) s t"
  shows "n \<le> 5 \<and> ((\<nexists>u. session_reacts t u) \<longrightarrow> \<not> socket_open t \<and> answerer t = Closed_Down \<and> watcher t = Ended)"
proof -
  have "idle s" using assms(2,3) reachable_ok [OF assms(1)] by (simp add: idle_def)
  from reacts_power [OF assms(4) this] have "idle t" "n \<le> to_do s" by simp_all
  moreover have "to_do s \<le> 5" using assms(3) by (auto simp: to_do_def split: answering.splits watching.splits)
  ultimately show ?thesis using idle_at_rest by auto
qed

lemma wait_ten: "k \<le> 10 \<Longrightarrow> reachable_session ((start_session now)\<lparr>clock := now + k\<rparr>)"
proof (induction k)
  case 0
  have "(start_session now)\<lparr>clock := now + 0\<rparr> = start_session now" by (simp add: start_session_def)
  then show ?case by (metis started)
next
  case (Suc k)
  have "session_step ((start_session now)\<lparr>clock := now + k\<rparr>) (((start_session now)\<lparr>clock := now + k\<rparr>)\<lparr>clock := Suc (clock ((start_session now)\<lparr>clock := now + k\<rparr>))\<rparr>)"
    by (rule time_passes)
  then have "session_step ((start_session now)\<lparr>clock := now + k\<rparr>) ((start_session now)\<lparr>clock := now + Suc k\<rparr>)" by simp
  with Suc show ?case by (auto intro: stepped)
qed

theorem idle_session_ends_witness:
  "let s = (start_session 0)\<lparr>clock := 0 + 10\<rparr>; t = close_session (watch_session (s\<lparr>watcher := Woken_Up\<rparr>)) in
    reachable_session s \<and> (session_reacts ^^ 3) s t \<and> (3 :: nat) \<le> 5 \<and>
    ((\<nexists>u. session_reacts t u) \<longrightarrow> \<not> socket_open t \<and> answerer t = Closed_Down \<and> watcher t = Ended)"
proof -
  let ?s = "(start_session 0)\<lparr>clock := 0 + 10\<rparr>"
  let ?u = "?s\<lparr>watcher := Woken_Up\<rparr>"
  have r: "reachable_session ?s" by (rule wait_ten) simp
  have "session_reacts ?s ?u" by (rule timer_fires) (simp_all add: start_session_def session_seconds_def)
  moreover have "session_reacts ?u (watch_session ?u)" by (rule watches) simp
  moreover have "session_reacts (watch_session ?u) (close_session (watch_session ?u))"
    by (rule aborted [of _ Read_Header]) (simp_all add: start_session_def session_ops session_seconds_def)
  ultimately have run: "(session_reacts ^^ 3) ?s (close_session (watch_session ?u))"
    by (auto simp: numeral_3_eq_3)
  have "3 \<le> (5 :: nat) \<and> ((\<nexists>u. session_reacts (close_session (watch_session ?u)) u) \<longrightarrow>
      \<not> socket_open (close_session (watch_session ?u)) \<and> answerer (close_session (watch_session ?u)) = Closed_Down \<and>
      watcher (close_session (watch_session ?u)) = Ended)"
    by (rule idle_session_ends [OF r _ _ run]) (simp_all add: start_session_def session_seconds_def)
  with r run show ?thesis by (simp add: Let_def)
qed

text \<open>
  The ten seconds include the time the server itself takes: when rendering takes that long, the
  second coroutine may close the socket before the reply has been written.
\<close>

lemma slow_reply_lost:
  assumes "answerer s = Completed Read_Capnp" "watcher s = Timer_Wait" "expiry s \<le> clock s + d"
  shows "\<exists>t. session_reacts\<^sup>*\<^sup>* s t \<and> answerer t = Pending Write_Reply \<and> \<not> socket_open t"
proof -
  let ?u = "resume_session d Read_Capnp s"
  have "session_reacts s ?u" by (rule resumes) (rule assms(1))
  moreover have "session_reacts ?u (?u\<lparr>watcher := Woken_Up\<rparr>)"
    using assms by (intro timer_fires) (simp_all add: session_ops)
  moreover have "session_reacts (?u\<lparr>watcher := Woken_Up\<rparr>) (watch_session (?u\<lparr>watcher := Woken_Up\<rparr>))"
    by (rule watches) simp
  ultimately have "session_reacts\<^sup>*\<^sup>* s (watch_session (?u\<lparr>watcher := Woken_Up\<rparr>))"
    by (meson converse_rtranclp_into_rtranclp rtranclp.rtrancl_refl)
  then show ?thesis using assms(3) by (intro exI conjI) (assumption, simp_all add: session_ops)
qed

section \<open>The program\<close>

definition is_space :: "char \<Rightarrow> bool" where
  "is_space c \<longleftrightarrow> c = CHR '' '' \<or> 9 \<le> (of_char c :: nat) \<and> (of_char c :: nat) \<le> 13"

definition is_digit :: "char \<Rightarrow> bool" where
  "is_digit c \<longleftrightarrow> 48 \<le> (of_char c :: nat) \<and> (of_char c :: nat) \<le> 57"

text \<open>\<open>std::atoi\<close>: white space, a sign, the longest sequence of digits; undefined out of range.\<close>

definition digits_value :: "string \<Rightarrow> int" where
  "digits_value s = foldl (\<lambda>n c. 10 * n + (of_char c - 48)) 0 (takeWhile is_digit s)"

definition atoi :: "string \<Rightarrow> int result" where
  "atoi s = (let s = dropWhile is_space s;
       n = (case s of CHR ''-'' # t \<Rightarrow> - digits_value t | CHR ''+'' # t \<Rightarrow> digits_value t | _ \<Rightarrow> digits_value s)
     in if - (2 ^ 31) \<le> n \<and> n < 2 ^ 31 then Inr n else Inl Undefined)"

datatype visualization_exit = Returns int | Ends error | Accepts_On "16 word"

text \<open>
  \<open>main\<close>: \<open>can_listen\<close> tells whether the acceptor can be bound to a port; its exception is caught and
  the program returns 0.
\<close>

definition visualization_main :: "(16 word \<Rightarrow> bool) \<Rightarrow> string list \<Rightarrow> visualization_exit" where
  "visualization_main can_listen argv =
     (if length argv \<noteq> 2 then Returns 1
      else case atoi (argv ! 1) of
        Inl e \<Rightarrow> Ends e
      | Inr n \<Rightarrow> (let port = word_of_int n in if can_listen port then Accepts_On port else Returns 0))"

text \<open>The loop of \<open>main\<close>: a session starts for each connection that is accepted without an error.\<close>

fun accept_loop :: "(nat \<times> bool) list \<Rightarrow> session_state list" where
  "accept_loop [] = []"
| "accept_loop ((now, failed) # connections) =
     (if failed then accept_loop connections else start_session now # accept_loop connections)"

lemma port_wraps: "visualization_main (\<lambda>_. True) [prog, ''65616''] = Accepts_On 80"
  by (simp add: visualization_main_def atoi_def digits_value_def is_space_def is_digit_def)

end
