(* ===== verification/Seidel.thy ===== *)
theory Seidel imports Rect_Hull begin

text \<open>
  The linear-program solver under \<open>externals/seidel_lp\<close>: \<open>linprog.c\<close>, \<open>lp_base_case.c\<close>,
  \<open>unit2.c\<close> and \<open>vector_up.c\<close>, compiled with \<open>DOUBLE\<close> and without \<open>CHECK\<close>. The arrays
  \<open>next\<close> and \<open>prev\<close> are the state of the computations; an access outside them, or to a plane that
  has not been written, is \<open>Undefined\<close>. A loop takes the number of rounds it may make.
\<close>

section \<open>Arithmetic\<close>

definition EPS :: "platform \<Rightarrow> double" where
  "EPS M = rnd M (2 / 10 ^ 16)"

definition two_EPS :: "platform \<Rightarrow> double" where
  "two_EPS M = dmul M (Fin 2) (EPS M)"

text \<open>The macros of \<open>localmath.h\<close> and \<open>lp_base_case.c\<close>, on vectors of two entries.\<close>

type_synonym vec2 = "double \<times> double"

definition ABS :: "double \<Rightarrow> double" where
  "ABS a = (if dlt (Fin 0) a then a else dneg a)"

definition dot2 :: "platform \<Rightarrow> vec2 \<Rightarrow> vec2 \<Rightarrow> double" where
  "dot2 M a b = dadd M (dmul M (fst a) (fst b)) (dmul M (snd a) (snd b))"

definition cross2 :: "platform \<Rightarrow> vec2 \<Rightarrow> vec2 \<Rightarrow> double" where
  "cross2 M a b = dsub M (dmul M (fst a) (snd b)) (dmul M (snd a) (fst b))"

definition not_zero :: "platform \<Rightarrow> double \<Rightarrow> bool" where
  "not_zero M a \<longleftrightarrow> dle (two_EPS M) a \<or> dle a (dmul M (Fin (- 2)) (EPS M))"

text \<open>\<open>None\<close>: the vector is too short and the target is left as it is.\<close>

definition unit2 :: "platform \<Rightarrow> vec2 \<Rightarrow> vec2 option" where
  "unit2 M a = (let sz = dsqrt M (dadd M (dmul M (fst a) (fst a)) (dmul M (snd a) (snd a))) in
     if dlt sz (two_EPS M) then None else Some (ddiv M (fst a) sz, ddiv M (snd a) sz))"

text \<open>The loops \<open>s += a[i] * b[i]\<close> from \<open>0.0\<close> and \<open>s += a[i] * a[i]\<close>.\<close>

definition dot_loop :: "platform \<Rightarrow> double list \<Rightarrow> double list \<Rightarrow> double" where
  "dot_loop M a b = foldl (\<lambda>s (x, y). dadd M s (dmul M x y)) (Fin 0) (zip a b)"

section \<open>The linked list of planes\<close>

record links =
  nxt :: "nat list"
  prv :: "nat list"

definition get_nxt :: "nat \<Rightarrow> (links, nat) comp" where
  "get_nxt i = (\<lambda>s. if i < length (nxt s) then Some (Inr (nxt s ! i), s) else Some (Inl Undefined, s))"

definition get_prv :: "nat \<Rightarrow> (links, nat) comp" where
  "get_prv i = (\<lambda>s. if i < length (prv s) then Some (Inr (prv s ! i), s) else Some (Inl Undefined, s))"

definition set_nxt :: "nat \<Rightarrow> nat \<Rightarrow> (links, unit) comp" where
  "set_nxt i x = (\<lambda>s. if i < length (nxt s) then Some (Inr (), s\<lparr>nxt := (nxt s)[i := x]\<rparr>) else Some (Inl Undefined, s))"

definition set_prv :: "nat \<Rightarrow> nat \<Rightarrow> (links, unit) comp" where
  "set_prv i x = (\<lambda>s. if i < length (prv s) then Some (Inr (), s\<lparr>prv := (prv s)[i := x]\<rparr>) else Some (Inl Undefined, s))"

definition move_to_front :: "nat \<Rightarrow> int \<Rightarrow> (links, nat) comp" where
  "move_to_front i max_halves =
     (if i = 0 then ret i else bnd (get_nxt 0) (\<lambda>n0. if i = n0 then ret i else
      bnd (get_prv i) (\<lambda>previ.
      bnd (get_prv i) (\<lambda>p. bnd (get_nxt i) (\<lambda>x. bnd (set_nxt p x) (\<lambda>_.
      bnd (get_nxt i) (\<lambda>x.
      bnd (if int x \<noteq> max_halves then bnd (get_prv i) (\<lambda>p. set_prv x p) else ret ()) (\<lambda>_.
      bnd (get_nxt 0) (\<lambda>x. bnd (set_nxt i x) (\<lambda>_.
      bnd (set_prv i 0) (\<lambda>_.
      bnd (get_nxt i) (\<lambda>x. bnd (set_prv x i) (\<lambda>_.
      bnd (set_nxt 0 i) (\<lambda>_. ret previ))))))))))))))"

text \<open>The planes of a problem, by index.\<close>

type_synonym planes = "nat \<Rightarrow> double list option"

definition plane_at :: "planes \<Rightarrow> nat \<Rightarrow> (links, double list) comp" where
  "plane_at halves i = from_result (case halves i of None \<Rightarrow> Inl Undefined | Some h \<Rightarrow> Inr h)"

section \<open>The base case\<close>

definition half_at :: "planes \<Rightarrow> nat \<Rightarrow> (links, vec2) comp" where
  "half_at halves i = bnd (plane_at halves i) (\<lambda>h. case h of [a, b] \<Rightarrow> ret (a, b) | _ \<Rightarrow> raise Undefined)"

definition lp_d_unit :: "platform \<Rightarrow> nat \<Rightarrow> double list \<Rightarrow> double list option" where
  "lp_d_unit M d a = (let sz = dot_loop M a a in
     if dlt sz (dmul M (dmul M (of_i (int d + 1)) (EPS M)) (EPS M)) then None
     else (let f = ddiv M (Fin 1) (dsqrt M sz) in Some (map (\<lambda>x. dmul M x f) a)))"

definition lp_no_constraints :: "platform \<Rightarrow> nat \<Rightarrow> double list \<Rightarrow> double list \<Rightarrow> lp_status \<times> double list" where
  "lp_no_constraints M d n_vec d_vec =
     (let n_dot_d = dot_loop M n_vec d_vec; d_dot_d = dot_loop M d_vec d_vec;
          (n_dot_d, d_dot_d) = (if dlt d_dot_d (dmul M (EPS M) (EPS M)) then (Fin 0, Fin 1) else (n_dot_d, d_dot_d));
          opt = map (\<lambda>(n, e). dadd M (dneg n) (ddiv M (dmul M e n_dot_d) d_dot_d)) (zip n_vec d_vec)
      in case lp_d_unit M d opt of None \<Rightarrow> (Ambiguous, opt[d := Fin 1]) | Some u \<Rightarrow> (Minimum, u))"

text \<open>The first plane that is not too short gives the two ends of the feasible region.\<close>

fun wedge_first :: "platform \<Rightarrow> planes \<Rightarrow> nat \<Rightarrow> nat \<Rightarrow> nat \<Rightarrow> (links, (vec2 \<times> vec2) option) comp" where
  "wedge_first M halves m 0 i = (\<lambda>s. None)"
| "wedge_first M halves m (Suc f) i =
     (if i = m then ret None else bnd (half_at halves i) (\<lambda>h. case unit2 M h of
        Some u \<Rightarrow> (let cw = (snd u, dneg (fst u)) in ret (Some (cw, (dneg (fst cw), dneg (snd cw)))))
      | None \<Rightarrow> bnd (get_nxt i) (wedge_first M halves m f)))"

text \<open>One plane: \<open>None\<close> for infeasible, else the two ends, \<open>offensive\<close> and \<open>*degen\<close>.\<close>

definition or_same :: "vec2 option \<Rightarrow> vec2 \<Rightarrow> vec2" where
  "or_same u v = (case u of None \<Rightarrow> v | Some w \<Rightarrow> w)"

definition wedge_step :: "platform \<Rightarrow> vec2 \<Rightarrow> vec2 \<Rightarrow> vec2 \<Rightarrow> (vec2 \<times> vec2 \<times> bool \<times> bool) option" where
  "wedge_step M cw ccw h =
     (let d_cw = dot2 M cw h; d_ccw = dot2 M ccw h; e = two_EPS M; ne = dmul M (Fin (- 2)) (EPS M) in
      if dle e d_ccw then
        (if dle d_cw ne then (let v = (snd h, dneg (fst h)) in Some (or_same (unit2 M v) v, ccw, True, False))
         else Some (cw, ccw, False, False))
      else if dle e d_cw then
        (if dle d_ccw ne then (let v = (dneg (snd h), fst h) in Some (cw, or_same (unit2 M v) v, True, False))
         else Some (cw, ccw, False, False))
      else if dle d_ccw ne \<and> dle d_cw ne then None
      else if dle d_cw ne \<or> dle d_ccw ne \<or> dlt (cross2 M cw h) (Fin 0) then
        (if dle d_cw ne then Some (or_same (unit2 M ccw) cw, ccw, True, True)
         else if dle d_ccw ne then Some (cw, or_same (unit2 M cw) ccw, True, True)
         else Some (cw, ccw, True, True))
      else Some (cw, ccw, False, False))"

text \<open>
  The loop up to the terminal marker or the first degenerate plane. \<open>move_to_front\<close> is called with
  three arguments through a declaration of this file: \<open>junk\<close> is what it finds as the fourth, taken to be
  the same value at every call of a run.
\<close>

fun wedge_loop :: "platform \<Rightarrow> int \<Rightarrow> planes \<Rightarrow> nat \<Rightarrow> nat \<Rightarrow> vec2 \<Rightarrow> vec2 \<Rightarrow> nat \<Rightarrow>
    (links, (nat \<times> vec2 \<times> vec2 \<times> bool) option) comp" where
  "wedge_loop M junk halves m 0 cw ccw i = (\<lambda>s. None)"
| "wedge_loop M junk halves m (Suc f) cw ccw i =
     (if i = m then ret (Some (i, cw, ccw, False)) else bnd (half_at halves i) (\<lambda>h.
      case wedge_step M cw ccw h of
        None \<Rightarrow> ret None
      | Some (cw, ccw, offensive, degen) \<Rightarrow>
          bnd (if offensive then move_to_front i junk else ret i) (\<lambda>i. bnd (get_nxt i) (\<lambda>i.
          if degen then ret (Some (i, cw, ccw, True)) else wedge_loop M junk halves m f cw ccw i))))"

fun wedge_degen :: "platform \<Rightarrow> planes \<Rightarrow> nat \<Rightarrow> nat \<Rightarrow> vec2 \<Rightarrow> vec2 \<Rightarrow> nat \<Rightarrow> (links, (vec2 \<times> vec2) option) comp" where
  "wedge_degen M halves m 0 cw ccw i = (\<lambda>s. None)"
| "wedge_degen M halves m (Suc f) cw ccw i =
     (if i = m then ret (Some (cw, ccw)) else bnd (half_at halves i) (\<lambda>h.
      let d_cw = dot2 M cw h; d_ccw = dot2 M ccw h; ne = dmul M (Fin (- 2)) (EPS M) in
      if dlt d_cw ne then
        (if dlt d_ccw ne then ret None else bnd (get_nxt i) (wedge_degen M halves m f ccw ccw))
      else if dlt d_ccw ne then bnd (get_nxt i) (wedge_degen M halves m f cw cw)
      else bnd (get_nxt i) (wedge_degen M halves m f cw ccw)))"

datatype wedge_result = No_Wedge | Whole_Line | Wedge vec2 vec2 bool

definition wedge :: "platform \<Rightarrow> int \<Rightarrow> planes \<Rightarrow> nat \<Rightarrow> nat \<Rightarrow> (links, wedge_result) comp" where
  "wedge M junk halves m f = bnd (wedge_first M halves m f 0) (\<lambda>start. case start of
     None \<Rightarrow> ret Whole_Line
   | Some (cw, ccw) \<Rightarrow> bnd (wedge_loop M junk halves m f cw ccw 0) (\<lambda>r. case r of
       None \<Rightarrow> ret No_Wedge
     | Some (i, cw, ccw, degen) \<Rightarrow>
         if degen then bnd (wedge_degen M halves m f cw ccw i) (\<lambda>r. case r of
           None \<Rightarrow> ret No_Wedge | Some (cw, ccw) \<Rightarrow> ret (Wedge cw ccw True))
         else ret (Wedge cw ccw False)))"

definition lp_min_lin_rat :: "platform \<Rightarrow> bool \<Rightarrow> vec2 \<Rightarrow> vec2 \<Rightarrow> vec2 \<Rightarrow> vec2 \<Rightarrow> vec2" where
  "lp_min_lin_rat M degen cw ccw n_vec d_vec =
     (let d_cw = dot2 M cw d_vec; d_ccw = dot2 M ccw d_vec; n_cw = dot2 M cw n_vec; n_ccw = dot2 M ccw n_vec in
      if degen then (if dlt (ddiv M n_cw d_cw) (ddiv M n_ccw d_ccw) then cw else ccw)
      else if not_zero M d_cw \<and> not_zero M d_ccw then
        (if dlt (Fin 0) (dmul M d_cw d_ccw) then (if dlt (ddiv M n_cw d_cw) (ddiv M n_ccw d_ccw) then cw else ccw)
         else if dlt (Fin 0) d_cw then (dneg (snd d_vec), fst d_vec) else (snd d_vec, dneg (fst d_vec)))
      else if not_zero M d_cw then (if dlt (Fin 0) (dmul M n_ccw d_cw) then cw else ccw)
      else if not_zero M d_ccw then (if dlt (two_EPS M) (dmul M n_cw d_ccw) then ccw else cw)
      else if dlt (Fin 0) (cross2 M d_vec n_vec) then cw else ccw)"

text \<open>The optimum of a feasible region with two ends.\<close>

definition base_optimum :: "platform \<Rightarrow> bool \<Rightarrow> vec2 \<Rightarrow> vec2 \<Rightarrow> vec2 \<Rightarrow> vec2 \<Rightarrow> lp_status \<times> vec2" where
  "base_optimum M degen cw ccw n_vec d_vec =
     (let ab = ABS (cross2 M n_vec d_vec); ee = dmul M (two_EPS M) (EPS M) in
      if dlt ab ee then
        (if dlt (dot2 M n_vec n_vec) ee \<or> dlt ee (dot2 M d_vec d_vec) then (Ambiguous, cw)
         else if \<not> degen \<and> dle (cross2 M cw n_vec) (Fin 0) \<and> dle (cross2 M n_vec ccw) (Fin 0)
         then (Minimum, (dneg (fst n_vec), dneg (snd n_vec)))
         else if dlt (dot2 M n_vec ccw) (dot2 M n_vec cw) then (Minimum, ccw)
         else (Minimum, cw))
      else (Minimum, lp_min_lin_rat M degen cw ccw n_vec d_vec))"

text \<open>The last argument is \<open>opt\<close>, which an infeasible problem leaves as it is.\<close>

definition lp_base_case :: "platform \<Rightarrow> int \<Rightarrow> nat \<Rightarrow> planes \<Rightarrow> nat \<Rightarrow> double list \<Rightarrow> double list \<Rightarrow> double list \<Rightarrow>
    (links, lp_status \<times> double list) comp" where
  "lp_base_case M junk f halves m n_vec d_vec opt =
     bnd (wedge M junk halves m f) (\<lambda>w. case w of
       No_Wedge \<Rightarrow> ret (Infeasible, opt)
     | Whole_Line \<Rightarrow> ret (lp_no_constraints M 1 n_vec d_vec)
     | Wedge cw ccw degen \<Rightarrow>
         (let (status, u) = base_optimum M degen cw ccw (n_vec ! 0, n_vec ! 1) (d_vec ! 0, d_vec ! 1)
          in ret (status, [fst u, snd u])))"

section \<open>Projection to a plane\<close>

text \<open>The index of the first largest coefficient.\<close>

fun imax_from :: "double list \<Rightarrow> nat \<Rightarrow> nat \<Rightarrow> double \<Rightarrow> nat" where
  "imax_from [] i imax rmax = imax"
| "imax_from (x # xs) i imax rmax =
     (let ab = ABS x in if dlt rmax ab then imax_from xs (Suc i) i ab else imax_from xs (Suc i) imax rmax)"

definition findimax :: "double list \<Rightarrow> nat" where
  "findimax pln = imax_from (tl pln) 1 0 (ABS (hd pln))"

definition drop_at :: "nat \<Rightarrow> 'a list \<Rightarrow> 'a list" where
  "drop_at k xs = take k xs @ drop (Suc k) xs"

lemma length_drop_at [simp]: "k < length xs \<Longrightarrow> length (drop_at k xs) = length xs - 1"
  by (simp add: drop_at_def)

definition minus_times :: "platform \<Rightarrow> double list \<Rightarrow> double list \<Rightarrow> double \<Rightarrow> double list" where
  "minus_times M old eqn c = map (\<lambda>(x, e). dsub M x (dmul M e c)) (zip old eqn)"

definition vector_down :: "platform \<Rightarrow> double list \<Rightarrow> nat \<Rightarrow> double list \<Rightarrow> double list" where
  "vector_down M elim_eqn ivar old_vec =
     (let ve = dot_loop M old_vec elim_eqn; ee = dot_loop M elim_eqn elim_eqn
      in drop_at ivar (minus_times M old_vec elim_eqn (ddiv M ve ee)))"

definition plane_down :: "platform \<Rightarrow> double list \<Rightarrow> nat \<Rightarrow> double list \<Rightarrow> double list" where
  "plane_down M elim_eqn ivar old_plane =
     drop_at ivar (minus_times M old_plane elim_eqn (ddiv M (old_plane ! ivar) (elim_eqn ! ivar)))"

definition vector_up :: "platform \<Rightarrow> double list \<Rightarrow> nat \<Rightarrow> double list \<Rightarrow> double list" where
  "vector_up M equation ivar low =
     (let s = foldl (\<lambda>s (e, x). dsub M s (dmul M e x)) (Fin 0) (zip (drop_at ivar equation) low)
      in take ivar low @ ddiv M s (equation ! ivar) # drop ivar low)"

text \<open>The planes before \<open>i\<close>, in list order, are projected to plane \<open>i\<close>.\<close>

definition inline_down :: "platform \<Rightarrow> double list \<Rightarrow> nat \<Rightarrow> double \<Rightarrow> double list \<Rightarrow> double list" where
  "inline_down M plane_i imax fac old =
     drop_at imax (minus_times M old plane_i (dmul M (old ! imax) fac))"

fun project_planes :: "(double list \<Rightarrow> double list) \<Rightarrow> planes \<Rightarrow> nat \<Rightarrow> nat \<Rightarrow> nat \<Rightarrow> planes \<Rightarrow> (links, planes) comp" where
  "project_planes down halves i 0 j new = (\<lambda>s. None)"
| "project_planes down halves i (Suc f) j new =
     (if j = i then ret new else bnd (plane_at halves j) (\<lambda>old.
        bnd (get_nxt j) (\<lambda>k. project_planes down halves i f k (new(j \<mapsto> down old)))))"

definition unitize :: "platform \<Rightarrow> double list \<Rightarrow> double list" where
  "unitize M opt = (let f = ddiv M (Fin 1) (dsqrt M (dot_loop M opt opt)) in map (\<lambda>x. dmul M x f) opt)"

section \<open>The solver\<close>

text \<open>A solver of the next lower dimension: planes, terminal marker, objective.\<close>

type_synonym sub_solver = "planes \<Rightarrow> nat \<Rightarrow> double list \<Rightarrow> double list \<Rightarrow> (links, lp_status \<times> double list) comp"

text \<open>The planes of the lower problem at plane \<open>i\<close>; its memory holds no plane before.\<close>

definition lower_planes :: "platform \<Rightarrow> planes \<Rightarrow> nat \<Rightarrow> double list \<Rightarrow> nat \<Rightarrow> (links, planes) comp" where
  "lower_planes M halves f plane_i i =
     (if i = 0 then ret Map.empty else
      (let imax = findimax plane_i; fac = ddiv M (Fin 1) (plane_i ! imax)
       in project_planes (inline_down M plane_i imax fac) halves i f 0 Map.empty))"

definition violated :: "platform \<Rightarrow> nat \<Rightarrow> double list \<Rightarrow> double list \<Rightarrow> bool" where
  "violated M d opt plane_i \<longleftrightarrow> dlt (dot_loop M opt plane_i) (dmul M (of_i (- (int d + 1))) (EPS M))"

fun lp_loop :: "platform \<Rightarrow> sub_solver \<Rightarrow> nat \<Rightarrow> planes \<Rightarrow> nat \<Rightarrow> double list \<Rightarrow> double list \<Rightarrow> int \<Rightarrow>
    nat \<Rightarrow> lp_status \<Rightarrow> double list \<Rightarrow> nat \<Rightarrow> (links, lp_status \<times> double list) comp" where
  "lp_loop M sub d halves m n_vec d_vec max_size 0 status opt i = (\<lambda>s. None)"
| "lp_loop M sub d halves m n_vec d_vec max_size (Suc f) status opt i =
     (if i = m then ret (status, opt) else bnd (plane_at halves i) (\<lambda>plane_i.
      if violated M d opt plane_i then
        (let imax = findimax plane_i in
         bnd (lower_planes M halves (Suc (nat max_size)) plane_i i) (\<lambda>new_halves.
         let (new_n, new_d) = (if dlt (dot_loop M d_vec d_vec) (dmul M (dmul M (of_i (int d + 1)) (EPS M)) (EPS M))
               then (vector_down M plane_i imax n_vec, replicate d (Fin 0))
               else (plane_down M plane_i imax n_vec, plane_down M plane_i imax d_vec)) in
         bnd (sub new_halves i new_n new_d) (\<lambda>(status, new_opt).
         if status \<noteq> Infeasible then
           bnd (move_to_front i max_size) (\<lambda>i. bnd (get_nxt i)
             (lp_loop M sub d halves m n_vec d_vec max_size f status (unitize M (vector_up M plane_i imax new_opt))))
         else ret (status, opt))))
      else bnd (get_nxt i) (lp_loop M sub d halves m n_vec d_vec max_size f status opt)))"

text \<open>
  \<open>dlinprog\<close> for \<open>istart = 0\<close> and a dimension of at least one. \<open>opt\<close> is what the target holds
  before the call; for a lower problem, that is the work space.
\<close>

fun linprog :: "platform \<Rightarrow> int \<Rightarrow> int \<Rightarrow> nat \<Rightarrow> double list \<Rightarrow> sub_solver" where
  "linprog M junk max_size 0 opt halves m n_vec d_vec = raise Undefined"
| "linprog M junk max_size (Suc k) opt halves m n_vec d_vec =
     (if k = 0 \<and> m \<noteq> 0 then lp_base_case M junk (Suc (nat max_size)) halves m n_vec d_vec opt
      else (let (status, opt) = lp_no_constraints M (Suc k) n_vec d_vec in
        if m = 0 then ret (status, opt)
        else lp_loop M (linprog M junk max_size k []) (Suc k) halves m n_vec d_vec max_size
               (Suc (nat max_size)) status opt 0))"

text \<open>The array of the planes, row after row.\<close>

definition rows_of :: "nat \<Rightarrow> double list \<Rightarrow> planes" where
  "rows_of w flat i = (if (i + 1) * w \<le> length flat then Some (take w (drop (i * w) flat)) else None)"

text \<open>The solver as \<open>solve_lp2\<close> calls it, in two dimensions with a new target.\<close>

definition seidel_run :: "platform \<Rightarrow> int \<Rightarrow> double list \<Rightarrow> nat \<Rightarrow> double list \<Rightarrow> double list \<Rightarrow>
    (links, lp_status \<times> double list) comp" where
  "seidel_run M junk halves m n_vec d_vec =
     linprog M junk (int m) 2 (replicate 3 (Fin 0)) (rows_of 3 halves) m n_vec d_vec"

definition seidel_lp :: "platform \<Rightarrow> int \<Rightarrow> lp_solver" where
  "seidel_lp M junk halves m n_vec d_vec ns ps =
     (case seidel_run M junk halves m n_vec d_vec \<lparr> nxt = ns, prv = ps \<rparr> of
        Some (Inr r, s) \<Rightarrow> r | _ \<Rightarrow> (Lp_Other, []))"

end
