(* ===== verification/Seidel_Links.thy ===== *)
theory Seidel_Links imports Seidel "HOL-Library.Multiset" begin

text \<open>
  The arrays \<open>next\<close> and \<open>prev\<close> of the linear-program solver represent a list of indices
  (\<open>chain\<close>); \<open>move_to_front\<close> moves an element to second place. The base case calls it with an
  argument missing. Whatever is found there, a weaker relation to a list survives (\<open>linked\<close>), in
  which \<open>prev\<close> of one index may be out of date.
\<close>

section \<open>The abstract list\<close>

text \<open>Neighbours in the list are linked in both directions, except that \<open>prev\<close> has no entry for the marker \<open>K\<close>.\<close>

fun seg :: "links \<Rightarrow> nat \<Rightarrow> nat list \<Rightarrow> bool" where
  "seg s K (a # b # L) \<longleftrightarrow> a < K \<and> nxt s ! a = b \<and> (b \<noteq> K \<longrightarrow> prv s ! b = a) \<and> seg s K (b # L)"
| "seg s K _ \<longleftrightarrow> True"

definition chain :: "links \<Rightarrow> nat \<Rightarrow> nat list \<Rightarrow> bool" where
  "chain s K L \<longleftrightarrow> length (nxt s) = K \<and> length (prv s) = K \<and> distinct L \<and> L \<noteq> [] \<and> hd L = 0 \<and> last L = K \<and> seg s K L"

text \<open>
  The weaker relation: \<open>prev\<close> of the index \<open>j\<close> may be any earlier index of the list but the first.
  \<open>S\<close> holds the indices before the segment.
\<close>

fun lseg :: "int \<Rightarrow> links \<Rightarrow> nat \<Rightarrow> nat set \<Rightarrow> nat list \<Rightarrow> bool" where
  "lseg j s K S (a # b # L) \<longleftrightarrow> a < K \<and> nxt s ! a = b \<and>
     (b \<noteq> K \<longrightarrow> prv s ! b = a \<or> int b = j \<and> prv s ! b \<in> S \<and> prv s ! b \<noteq> 0) \<and> lseg j s K (insert a S) (b # L)"
| "lseg j s K S _ \<longleftrightarrow> True"

definition linked :: "int \<Rightarrow> links \<Rightarrow> nat \<Rightarrow> nat list \<Rightarrow> bool" where
  "linked j s K L \<longleftrightarrow> length (nxt s) = K \<and> length (prv s) = K \<and> distinct L \<and> L \<noteq> [] \<and> hd L = 0 \<and> last L = K \<and> lseg j s K {} L"

text \<open>The value \<open>j\<close> is the index of no plane.\<close>

definition no_index :: "int \<Rightarrow> nat \<Rightarrow> bool" where
  "no_index j K \<longleftrightarrow> \<not> (0 \<le> j \<and> j < int K)"

lemma lseg_append: "lseg j s K S (A @ b # B) \<longleftrightarrow> lseg j s K S (A @ [b]) \<and> lseg j s K (S \<union> set A) (b # B)"
proof (induction A arbitrary: S)
  case (Cons a A)
  then show ?case by (cases A) (auto simp: insert_commute)
qed simp

lemma lseg_mono: "lseg j s K S L \<Longrightarrow> S \<subseteq> S' \<Longrightarrow> lseg j s K S' L"
proof (induction j s K S L arbitrary: S' rule: lseg.induct)
  case (1 j s K S a b L)
  from 1(1) [of "insert a S'"] 1(2,3) show ?case by auto
qed auto

text \<open>Only the entries of the segment matter, and without \<open>j\<close> in it nothing is out of date.\<close>

lemma lseg_frame:
  "lseg j s K S L \<Longrightarrow> (\<And>x. x \<in> set (butlast L) \<Longrightarrow> nxt s' ! x = nxt s ! x) \<Longrightarrow>
   (\<And>x. x \<in> set (tl L) \<Longrightarrow> x \<noteq> K \<Longrightarrow> prv s' ! x = prv s ! x) \<Longrightarrow> lseg j s' K S L"
proof (induction j s K S L rule: lseg.induct)
  case (1 j s K S a b L)
  then show ?case by (cases L) auto
qed auto

lemma lseg_other: "lseg j s K S L \<Longrightarrow> (\<And>x. x \<in> set (tl L) \<Longrightarrow> int x \<noteq> j) \<Longrightarrow> lseg j s K S' L"
proof (induction j s K S L arbitrary: S' rule: lseg.induct)
  case (1 j s K S a b L)
  then show ?case by (cases L) auto
qed auto

lemma lseg_bounds: "lseg j s K S L \<Longrightarrow> x \<in> set (butlast L) \<Longrightarrow> x < K"
  by (induction j s K S L rule: lseg.induct) (auto split: if_splits)

lemma seg_lseg: "seg s K L \<Longrightarrow> lseg j s K S L"
  by (induction s K L arbitrary: S rule: seg.induct) auto

lemma lseg_seg:
  "lseg j s K S L \<Longrightarrow> no_index j K \<Longrightarrow> last L = K \<Longrightarrow> seg s K L"
proof (induction j s K S L rule: lseg.induct)
  case (1 j s K S a b L)
  have "b \<noteq> K \<Longrightarrow> b < K" using 1(2,4) by (cases L) auto
  with 1 show ?case by (auto simp: no_index_def)
qed auto

lemma chain_linked: "chain s K L \<Longrightarrow> linked j s K L"
  by (simp add: chain_def linked_def seg_lseg)

lemma linked_chain: "linked j s K L \<Longrightarrow> no_index j K \<Longrightarrow> chain s K L"
  by (auto simp: chain_def linked_def intro: lseg_seg)

lemma linked_split:
  assumes "linked j s K (V @ i # R)" "R \<noteq> []"
  shows "i < K" "nxt s ! i = hd R" "length (nxt s) = K" "\<forall>x \<in> set V. x < K"
proof -
  obtain b B where R: "R = b # B" using assms(2) by (cases R) auto
  with assms have seg: "lseg j s K {} (V @ i # b # B)" by (simp add: linked_def)
  then show "i < K" "nxt s ! i = hd R" "\<forall>x \<in> set V. x < K"
    using lseg_append [of j s K "{}" V i "b # B"] lseg_bounds [OF seg] R by (auto simp: butlast_append)
  show "length (nxt s) = K" using assms(1) by (simp add: linked_def)
qed

lemma linked_marker: "linked j s K (V @ m # T) \<Longrightarrow> m = K \<longleftrightarrow> T = []"
  by (auto simp: linked_def split: if_splits) (metis last_in_set)

lemma get_nxt_linked: "linked j s K (V @ i # R) \<Longrightarrow> R \<noteq> [] \<Longrightarrow> get_nxt i s = Some (Inr (hd R), s)"
  using linked_split [of j s K V i R] by (simp add: get_nxt_def)

lemma linked_hd0: "linked j s K (V @ 0 # R) \<Longrightarrow> V = []"
  by (cases V) (auto simp: linked_def)

section \<open>Moving a plane to second place\<close>

definition moved :: "links \<Rightarrow> nat \<Rightarrow> nat \<Rightarrow> nat \<Rightarrow> nat \<Rightarrow> int \<Rightarrow> links" where
  "moved s i p a b mh = s\<lparr>nxt := (nxt s)[p := b, i := a, 0 := i],
     prv := (if int b \<noteq> mh then (prv s)[b := p] else prv s)[i := 0, a := i]\<rparr>"

text \<open>The predecessor that \<open>prev\<close> names; the indices between it and the plane, if any, are lost.\<close>

lemma linked_prev:
  assumes "linked j s K (0 # a # A @ i # b # B)"
  shows "\<exists>A0 p A1. a # A = A0 @ p # A1 \<and> prv s ! i = p \<and> (int i \<noteq> j \<longrightarrow> A1 = [])"
proof -
  obtain A0 p where A0: "a # A = A0 @ [p]" by (metis append_butlast_last_id list.distinct(1))
  have "i \<noteq> K" using assms linked_marker [of j s K "0 # a # A" i "b # B"] by simp
  moreover have "lseg j s K {} ((0 # A0) @ p # i # b # B)"
    using assms A0 unfolding linked_def by (metis append.assoc append_Cons append_Nil)
  ultimately consider "prv s ! i = p" | "int i = j" "prv s ! i \<in> insert 0 (set A0)" "prv s ! i \<noteq> 0"
    using lseg_append [of j s K "{}" "0 # A0" p "i # b # B"] by auto
  then show ?thesis
  proof cases
    case 1
    with A0 show ?thesis by blast
  next
    case 2
    then obtain X Y where "A0 = X @ prv s ! i # Y" by (auto dest: split_list)
    with A0 2(1) show ?thesis by (intro exI [of _ X] exI [of _ "prv s ! i"] exI [of _ "Y @ [p]"]) simp
  qed
qed

lemma move_to_front_linked:
  assumes c: "linked j s K (0 # a # A @ i # b # B)" and A: "a # A = A0 @ p # A1" "prv s ! i = p" "int i \<noteq> j \<longrightarrow> A1 = []"
    and mh: "b = K \<Longrightarrow> int b = mh" "b \<noteq> K \<Longrightarrow> int b = mh \<Longrightarrow> mh = j"
  shows "move_to_front i mh s = Some (Inr p, moved s i p a b mh)"
    and "linked j (moved s i p a b mh) K (0 # i # A0 @ p # b # B)"
proof -
  let ?s = "moved s i p a b mh"
  have L: "0 # a # A @ i # b # B = (0 # A0) @ p # A1 @ i # b # B" using A(1) by simp
  have seg: "lseg j s K {} ((0 # A0) @ p # A1 @ i # b # B)" and d: "distinct ((0 # A0) @ p # A1 @ i # b # B)"
    and len: "length (nxt s) = K" "length (prv s) = K" and lst: "last (b # B) = K"
    using c unfolding L linked_def by (auto split: if_splits)
  have le: "x < K" if "x \<in> set (0 # A0 @ p # A1 @ [i])" for x
    using lseg_bounds [OF seg] that by (auto simp: butlast_append)
  have bK: "b \<noteq> K \<Longrightarrow> b < K" using lseg_bounds [OF seg, of b] lst by (auto simp: butlast_append)
  have a: "a \<in> set (A0 @ [p])" "hd (A0 @ [p]) = a" using A(1) by (cases A0; auto)+
  have ne: "p \<noteq> i" "p \<noteq> 0" "i \<noteq> 0" "i \<noteq> a" "i \<noteq> b" "a \<noteq> b" "p \<noteq> b" "p < K" "i < K" "0 < K" "a < K" "a \<noteq> 0" "b \<noteq> 0"
    using d a le by auto
  have nx: "nxt s ! 0 = a" "nxt s ! i = b"
    using linked_split(2) [of j s K "[]" 0 "a # A @ i # b # B"] linked_split(2) [of j s K "0 # a # A" i "b # B"] c by auto
  have full: "nxt s \<noteq> []" using len(1) ne(10) by auto
  show "move_to_front i mh s = Some (Inr p, ?s)"
  proof (cases "b = K")
    case True
    with mh(1) ne nx len full A(2) show ?thesis
      by (simp add: move_to_front_def run_simps get_nxt_def get_prv_def set_nxt_def set_prv_def moved_def)
  next
    case False
    with bK ne nx len full A(2) show ?thesis
      by (simp add: move_to_front_def run_simps get_nxt_def get_prv_def set_nxt_def set_prv_def moved_def)
  qed
  have links: "nxt ?s ! 0 = i" "prv ?s ! i = 0" "nxt ?s ! i = a" "prv ?s ! a = i" "nxt ?s ! p = b" "b \<noteq> K \<Longrightarrow> int b \<noteq> mh \<Longrightarrow> prv ?s ! b = p"
    "prv ?s ! b = (if b \<noteq> K \<and> int b \<noteq> mh then p else prv s ! b)"
    using ne len bK mh(1) by (auto simp: moved_def)
  have old: "lseg j s K {0} (A0 @ [p])" "lseg j s K (insert 0 (set A0) \<union> set (p # A1)) (i # b # B)"
    using seg lseg_append [of j s K "{}" "0 # A0" p "A1 @ i # b # B"] lseg_append [of j s K "insert 0 (set A0)" "p # A1" i "b # B"]
      lseg_append [of j s K "{}" "[0]" "hd (A0 @ [p])" "tl (A0 @ [p])"]
    by (cases A0; auto simp: insert_commute)+
  have "lseg j ?s K {0, i} (A0 @ [p])"
  proof (rule lseg_frame [OF lseg_mono [OF old(1)]])
    fix x assume x: "x \<in> set (tl (A0 @ [p]))"
    then have "x \<in> set (A0 @ [p])" by (metis list.set_sel(2) tl_Nil)
    moreover have "distinct (A0 @ [p])" using d by auto
    ultimately have "x \<noteq> a" "x \<noteq> b" "x \<noteq> i" using d x a(2) by (auto simp: neq_Nil_conv) (cases A0; auto)+
    then show "prv ?s ! x = prv s ! x" by (simp add: moved_def)
  next
    fix x assume "x \<in> set (butlast (A0 @ [p]))"
    then have "x \<noteq> p" "x \<noteq> i" "x \<noteq> 0" using d by auto
    then show "nxt ?s ! x = nxt s ! x" by (simp add: moved_def)
  qed simp
  moreover have "lseg j ?s K ({0, i} \<union> set A0) (p # b # B)"
  proof -
    have tail: "lseg j s K (insert i (insert 0 (set A0) \<union> set (p # A1))) (b # B)" using old(2) by simp
    have "lseg j s K (insert p ({0, i} \<union> set A0)) (b # B)"
    proof (cases "A1 = []")
      case True
      with tail show ?thesis by (elim lseg_mono) auto
    next
      case False
      then have "int i = j" using A(3) by blast
      with d show ?thesis by (intro lseg_other [OF tail]) auto
    qed
    moreover have "prv ?s ! b = p \<or> int b = j \<and> prv ?s ! b \<in> {0, i} \<union> set A0 \<and> prv ?s ! b \<noteq> 0" if "b \<noteq> K"
    proof (cases "int b = mh")
      case True
      then have "int b = j" using mh(2) that by blast
      moreover from this have "A1 = []" using A(3) ne(5) by auto
      ultimately show ?thesis using old(2) that True links(7) ne by auto
    qed (use links(6) that in simp)
    ultimately have "lseg j s K (insert p ({0, i} \<union> set A0)) (b # B) \<and> (b \<noteq> K \<longrightarrow> prv ?s ! b = p \<or> int b = j \<and> prv ?s ! b \<in> {0, i} \<union> set A0 \<and> prv ?s ! b \<noteq> 0)"
      by blast
    moreover have "lseg j ?s K (insert p ({0, i} \<union> set A0)) (b # B)" if "lseg j s K (insert p ({0, i} \<union> set A0)) (b # B)"
    proof (rule lseg_frame [OF that])
      fix x assume "x \<in> set (butlast (b # B))"
      then have "x \<in> set (b # B)" by (rule in_set_butlastD)
      then have "x \<noteq> p" "x \<noteq> i" "x \<noteq> 0" using d by auto
      then show "nxt ?s ! x = nxt s ! x" by (simp add: moved_def)
    next
      fix x assume "x \<in> set (tl (b # B))"
      then have "x \<noteq> b" "x \<noteq> i" "x \<noteq> a" using d a(1) by auto
      then show "prv ?s ! x = prv s ! x" by (simp add: moved_def)
    qed
    ultimately show ?thesis using links(5) ne(8) by simp
  qed
  ultimately have "lseg j ?s K {0, i} (A0 @ p # b # B)" using lseg_append [of j ?s K "{0, i}" A0 p "b # B"] by simp
  then have "lseg j ?s K {} (0 # i # A0 @ p # b # B)"
    using links(1-4) ne a(2) by (cases A0) (auto simp: insert_commute)
  moreover have "distinct (0 # i # A0 @ p # b # B)" using d by auto
  ultimately show "linked j ?s K (0 # i # A0 @ p # b # B)" using lst len by (simp add: linked_def moved_def)
qed

lemma stay_next:
  assumes "linked j s K (V @ i # R)" "R \<noteq> []"
  shows "bnd (ret i) get_nxt s = Some (Inr (hd R), s)"
  using get_nxt_linked [OF assms] by (simp add: run_simps)

text \<open>What a run keeps of the planes before a position: all of them, unless \<open>j\<close> is the index of one.\<close>

definition kept :: "int \<Rightarrow> nat \<Rightarrow> nat list \<Rightarrow> nat list \<Rightarrow> bool" where
  "kept j K xs ys \<longleftrightarrow> mset xs \<subseteq># mset ys \<and> (no_index j K \<longrightarrow> mset xs = mset ys)"

lemma kept_simps [simp]: "kept j K xs xs" "kept j K (xs @ zs) (ys @ zs) = kept j K xs ys"
  by (simp_all add: kept_def)

lemma kept_trans: "kept j K xs ys \<Longrightarrow> kept j K ys zs \<Longrightarrow> kept j K xs zs"
  unfolding kept_def by (metis subset_mset.order_trans)

lemma kept_set: "kept j K xs ys \<Longrightarrow> set xs \<subseteq> set ys"
  unfolding kept_def by (metis mset_subset_eqD set_mset_mset subsetI)

lemma kept_length: "kept j K xs ys \<Longrightarrow> length xs \<le> length ys"
  unfolding kept_def by (metis size_mset size_mset_mono)

text \<open>After \<open>move_to_front\<close>, the element at its result is followed by the old successor.\<close>

lemma front_next:
  assumes "linked j s K (V @ i # R)" "R \<noteq> []" "hd R = K \<Longrightarrow> int K = mh" "hd R \<noteq> K \<Longrightarrow> int (hd R) = mh \<Longrightarrow> mh = j"
  shows "\<exists>s' V'. bnd (move_to_front i mh) get_nxt s = Some (Inr (hd R), s') \<and> linked j s' K (V' @ R) \<and> kept j K V' (V @ [i])"
proof -
  consider "V = []" | "V = [0]" | a A where "V = 0 # a # A"
    using assms(1) by (cases V; cases "tl V") (auto simp: linked_def)
  then show ?thesis
  proof cases
    case 1
    with assms(1) have "i = 0" by (simp add: linked_def)
    with 1 stay_next [OF assms(1,2)] assms(1) show ?thesis
      by (intro exI [of _ s] exI [of _ "[0]"]) (simp add: move_to_front_def)
  next
    case 2
    then have "get_nxt 0 s = Some (Inr i, s)" using get_nxt_linked [of j s K "[]" 0 "i # R"] assms(1) by simp
    then have "move_to_front i mh s = Some (Inr i, s)" by (simp add: move_to_front_def run_simps)
    with 2 get_nxt_linked [OF assms(1,2)] assms(1) show ?thesis
      by (intro exI [of _ s] exI [of _ "[0, i]"]) (simp add: run_simps)
  next
    case 3
    obtain b B where R: "R = b # B" using assms(2) by (cases R) auto
    have c: "linked j s K (0 # a # A @ i # b # B)" using assms(1) 3 R by simp
    have mh: "b = K \<Longrightarrow> int b = mh" "b \<noteq> K \<Longrightarrow> int b = mh \<Longrightarrow> mh = j" using assms(3,4) R by auto
    obtain A0 p A1 where A: "a # A = A0 @ p # A1" "prv s ! i = p" "int i \<noteq> j \<longrightarrow> A1 = []" using linked_prev [OF c] by blast
    let ?s = "moved s i p a b mh"
    have m: "move_to_front i mh s = Some (Inr p, ?s)" "linked j ?s K (0 # i # A0 @ p # b # B)"
      by (rule move_to_front_linked [OF c A mh]; assumption)+
    have "get_nxt p ?s = Some (Inr b, ?s)"
      using get_nxt_linked [of j ?s K "0 # i # A0" p "b # B"] m(2) by simp
    moreover have "i < K" using linked_split(1) [OF assms(1,2)] .
    then have "no_index j K \<Longrightarrow> A1 = []" using A(3) by (auto simp: no_index_def)
    then have "kept j K (0 # i # A0 @ [p]) (V @ [i])" using 3 A(1) by (auto simp: kept_def)
    ultimately show ?thesis using m R by (intro exI [of _ ?s] exI [of _ "0 # i # A0 @ [p]"]) (simp add: run_simps)
  qed
qed

section \<open>Moving a plane, on the abstract list\<close>

definition to_second :: "nat \<Rightarrow> nat list \<Rightarrow> nat list" where
  "to_second i L = (if i = hd L then L else hd L # i # remove1 i (tl L))"

lemma to_second_split:
  assumes "distinct (V @ i # R)" "V \<noteq> []"
  shows "to_second i (V @ i # R) = hd V # i # tl V @ R"
  using assms by (cases V) (auto simp: to_second_def remove1_append)

text \<open>C30: On arrays that represent a list of planes with the marker \<open>m\<close> at the end, \<open>move_to_front\<close> takes a plane out of the list and puts it in second place, and the plane it returns is now followed by the one that followed the moved plane, when its last argument is equal to that following index exactly if this is the marker.\<close>

theorem move_to_front_refines:
  assumes "chain s K L" and "L = V @ i # b # R" and "(int b = max_halves) = (b = K)"
  shows "\<exists>j s'. move_to_front i max_halves s = Some (Inr j, s') \<and> chain s' K (to_second i L) \<and> nxt s' ! j = b"
proof -
  let ?b = "hd (b # R)"
  have c: "linked (- 1) s K (V @ i # b # R)" and d: "distinct (V @ i # b # R)" and hd0: "hd (V @ i # b # R) = 0"
    using assms(1,2) chain_linked [of s K L] by (simp_all add: chain_def)
  have strict: "chain t K L'" if "linked (- 1) t K L'" for t L' using linked_chain [OF that] by (simp add: no_index_def)
  consider "V = []" | "V = [0]" | a A where "V = 0 # a # A"
    using hd0 by (cases V; cases "tl V") auto
  then show ?thesis
  proof cases
    case 1
    with hd0 linked_split(2) [of "- 1" s K "[]" i "b # R"] c assms(1,2) show ?thesis
      by (simp add: move_to_front_def ret_run to_second_def)
  next
    case 2
    then have "get_nxt 0 s = Some (Inr i, s)" using get_nxt_linked [of "- 1" s K "[]" 0 "i # b # R"] c by simp
    with 2 linked_split(2) [OF c] assms(1) d assms(2) show ?thesis
      by (simp add: move_to_front_def run_simps to_second_def)
  next
    case 3
    have c': "linked (- 1) s K (0 # a # A @ i # b # R)" using c 3 by simp
    have mh: "b = K \<Longrightarrow> int b = max_halves" "b \<noteq> K \<Longrightarrow> int b = max_halves \<Longrightarrow> max_halves = - 1" using assms(3) by auto
    obtain A0 p A1 where A: "a # A = A0 @ p # A1" "prv s ! i = p" "int i \<noteq> - 1 \<longrightarrow> A1 = []" using linked_prev [OF c'] by blast
    let ?s = "moved s i p a b max_halves"
    have m: "move_to_front i max_halves s = Some (Inr p, ?s)" "linked (- 1) ?s K (0 # i # A0 @ p # b # R)"
      by (rule move_to_front_linked [OF c' A mh]; assumption)+
    moreover have "nxt ?s ! p = b" using linked_split(2) [of "- 1" ?s K "0 # i # A0" p "b # R"] m(2) by simp
    moreover have "to_second i L = 0 # i # A0 @ p # b # R"
      using to_second_split [OF d] 3 A assms(2) by simp
    ultimately show ?thesis using strict by auto
  qed
qed

theorem move_to_front_refines_witness:
  "\<exists>j s'. move_to_front 2 4 \<lparr> nxt = [3, 2, 4, 1], prv = [1234567890, 3, 1, 0] \<rparr> = Some (Inr j, s') \<and>
    chain s' 4 (to_second 2 [0, 3, 1, 2, 4]) \<and> nxt s' ! j = 4"
  by (rule move_to_front_refines [of _ _ _ "[0, 3, 1]" _ _ "[]"]) (simp_all add: chain_def)

text \<open>
  With another last argument, as the calls of the base case may pass, the list is damaged: here the
  argument happens to be the index that follows the moved plane, whose \<open>prev\<close> is not updated. When this
  plane is moved in turn, plane 3 drops out of the list.
\<close>

lemma junk_breaks_links:
  "chain \<lparr> nxt = [3, 4, 1, 2], prv = [1234567890, 2, 3, 0] \<rparr> 4 [0, 3, 2, 1, 4]"
  "\<exists>s'. bnd (move_to_front 2 1) (\<lambda>_. move_to_front 1 4) \<lparr> nxt = [3, 4, 1, 2], prv = [1234567890, 2, 3, 0] \<rparr> = Some (Inr 2, s') \<and>
    chain s' 4 [0, 1, 2, 4]"
  by (simp_all add: chain_def move_to_front_def run_simps get_nxt_def get_prv_def set_nxt_def set_prv_def)

end
