(* ===== verification/Seidel_Props.thy ===== *)
theory Seidel_Props imports Seidel_Links Rect_Hull_Props begin

text \<open>
  The linear-program solver keeps its list of planes: a run ends within the rounds its loops are
  given, accesses no array out of range and leaves a permutation of the list, on every platform
  and for every input; with it, the errors a bounding box of a polygon can end with.
\<close>

section \<open>The loops of the base case\<close>

definition rows :: "nat \<Rightarrow> planes \<Rightarrow> nat list \<Rightarrow> bool" where
  "rows w halves xs \<longleftrightarrow> (\<forall>x \<in> set xs. \<exists>h. halves x = Some h \<and> length h = w)"

lemma rows_simps [simp]:
  "rows w halves []" "rows w halves (x # xs) \<longleftrightarrow> (\<exists>h. halves x = Some h \<and> length h = w) \<and> rows w halves xs"
  "rows w halves (xs @ ys) \<longleftrightarrow> rows w halves xs \<and> rows w halves ys"
  by (auto simp: rows_def)

lemma rows_kept: "kept j K xs ys \<Longrightarrow> rows w halves ys \<Longrightarrow> rows w halves xs"
  using kept_set unfolding rows_def by blast

lemma half_at_row: "halves i = Some h \<Longrightarrow> length h = 2 \<Longrightarrow> half_at halves i s = Some (Inr (h ! 0, h ! 1), s)"
  by (auto simp: half_at_def plane_at_def run_simps length_Suc_conv numeral_2_eq_2)

lemma plane_at_row: "halves i = Some h \<Longrightarrow> plane_at halves i s = Some (Inr h, s)"
  by (simp add: plane_at_def run_simps)

text \<open>A position in the list: visited planes, planes still to visit, the marker and what follows it.\<close>

lemma linked_next:
  assumes "linked j s K (V @ (i # R) @ m # T)"
  shows "get_nxt i s = Some (Inr (hd (R @ m # T)), s)" "linked j s K ((V @ [i]) @ R @ m # T)" "i \<noteq> m"
    "m < K \<Longrightarrow> hd (R @ m # T) < K"
proof -
  show "get_nxt i s = Some (Inr (hd (R @ m # T)), s)"
    using get_nxt_linked [of j s K V i "R @ m # T"] assms by simp
  show "linked j s K ((V @ [i]) @ R @ m # T)" using assms by simp
  show "i \<noteq> m" using assms by (auto simp: linked_def)
  show "m < K \<Longrightarrow> hd (R @ m # T) < K"
    using linked_split(1) [of j s K "V @ [i]" "hd (R @ m # T)" "tl (R @ m # T)"] linked_marker [of j s K "V @ i # R" m T] assms
    by (cases R) auto
qed

lemma wedge_first_returns:
  "linked j s K (V @ R @ m # T) \<Longrightarrow> rows 2 halves R \<Longrightarrow> length R < f \<Longrightarrow>
    \<exists>r. wedge_first M halves m f (hd (R @ m # T)) s = Some (Inr r, s)"
proof (induction R arbitrary: V f)
  case Nil
  then show ?case by (cases f) (auto simp: run_simps)
next
  case (Cons i R)
  then obtain h f' where "halves i = Some h" "length h = 2" "f = Suc f'" by (cases f) auto
  then show ?case
    using Cons.IH [of "V @ [i]" f'] Cons.prems linked_next [of j s K V i R m T]
    by (auto simp: run_simps half_at_row Let_def split: option.split)
qed

lemma wedge_degen_returns:
  "linked j s K (V @ R @ m # T) \<Longrightarrow> rows 2 halves R \<Longrightarrow> length R < f \<Longrightarrow>
    \<exists>r. wedge_degen M halves m f cw ccw (hd (R @ m # T)) s = Some (Inr r, s)"
proof (induction R arbitrary: V f cw ccw)
  case Nil
  then show ?case by (cases f) (auto simp: run_simps)
next
  case (Cons i R)
  then obtain h f' where "halves i = Some h" "length h = 2" "f = Suc f'" by (cases f) auto
  then show ?case
    using Cons.IH [of "V @ [i]" f'] Cons.prems linked_next [of j s K V i R m T]
    by (simp add: run_simps half_at_row Let_def)
qed

lemma bnd_get_nxt: "bnd c (\<lambda>i. bnd (get_nxt i) k) = bnd (bnd c get_nxt) k"
  by (rule ext) (auto simp: bnd_def split: option.splits sum.splits)

lemma advance:
  assumes "linked junk s K (V @ (i # R) @ m # T)" "m < K"
  shows "\<exists>s' V'. bnd (if offensive then move_to_front i junk else ret i) get_nxt s = Some (Inr (hd (R @ m # T)), s') \<and>
    linked junk s' K (V' @ R @ m # T) \<and> kept junk K V' (V @ [i])"
proof (cases offensive)
  case True
  with front_next [of junk s K V i "R @ m # T" junk] linked_next(4) [OF assms] assms(1) show ?thesis by auto
next
  case False
  with stay_next [of junk s K V i "R @ m # T"] assms(1) show ?thesis
    by (intro exI [of _ s] exI [of _ "V @ [i]"]) simp
qed

lemma wedge_loop_returns:
  "linked junk s K (V @ R @ m # T) \<Longrightarrow> rows 2 halves R \<Longrightarrow> length R < f \<Longrightarrow> m < K \<Longrightarrow>
    \<exists>r s' V' R'. wedge_loop M junk halves m f cw ccw (hd (R @ m # T)) s = Some (Inr r, s') \<and>
      linked junk s' K (V' @ R' @ m # T) \<and> kept junk K (V' @ R') (V @ R) \<and> rows 2 halves R' \<and> length R' \<le> length R \<and>
      (\<forall>i cw ccw d. r = Some (i, cw, ccw, d) \<longrightarrow> i = hd (R' @ m # T))"
proof (induction R arbitrary: V f cw ccw s)
  case Nil
  then obtain g where "f = Suc g" by (cases f) auto
  with Nil show ?case
    by (intro exI [of _ "Some (hd ([] @ m # T), cw, ccw, False)"] exI [of _ s] exI [of _ V] exI [of _ "[]"]) (simp add: run_simps)
next
  case (Cons i R)
  then obtain h g where h: "halves i = Some h" "length h = 2" and f: "f = Suc g" by (cases f) auto
  note run = wedge_loop.simps f bnd_get_nxt half_at_row [of halves i h, OF h] linked_next(3) [OF Cons.prems(1)]
  show ?case
  proof (cases "wedge_step M cw ccw (h ! 0, h ! 1)")
    case None
    have "wedge_loop M junk halves m f cw ccw (hd ((i # R) @ m # T)) s = Some (Inr None, s)"
      using None by (simp add: run bnd_run ret_run)
    with Cons.prems(1,2) show ?thesis
      by (intro exI [of _ None] exI [of _ s] exI [of _ V] exI [of _ "i # R"]) simp
  next
    case (Some w)
    obtain cw' ccw' off d where w: "w = (cw', ccw', off, d)" by (cases w)
    obtain t U where t: "bnd (if off then move_to_front i junk else ret i) get_nxt s = Some (Inr (hd (R @ m # T)), t)"
      and U: "linked junk t K (U @ R @ m # T)" "kept junk K U (V @ [i])"
      using advance [OF Cons.prems(1,4)] by blast
    have UR: "kept junk K (U @ R) (V @ i # R)" using U(2) kept_simps(2) [of junk K U R "V @ [i]"] by simp
    have step: "wedge_loop M junk halves m f cw ccw (hd ((i # R) @ m # T)) s =
      (if d then ret (Some (hd (R @ m # T), cw', ccw', True)) else wedge_loop M junk halves m g cw' ccw' (hd (R @ m # T))) t"
      using Some w t by (simp add: run bnd_run [of "half_at halves i"] bnd_run [of "bnd (if off then _ else _) get_nxt"])
    show ?thesis
    proof (cases d)
      case True
      with step U UR Cons.prems(2) show ?thesis
        by (intro exI [of _ "Some (hd (R @ m # T), cw', ccw', True)"] exI [of _ t] exI [of _ U] exI [of _ R]) (simp add: ret_run)
    next
      case False
      have "rows 2 halves R" "length R < g" using Cons.prems(2,3) f by auto
      from Cons.IH [OF U(1) this Cons.prems(4), of cw' ccw'] obtain r s' V' R' where
        "wedge_loop M junk halves m g cw' ccw' (hd (R @ m # T)) t = Some (Inr r, s')" "linked junk s' K (V' @ R' @ m # T)"
        "kept junk K (V' @ R') (U @ R)" "rows 2 halves R'" "length R' \<le> length R"
        "\<forall>i cw ccw d. r = Some (i, cw, ccw, d) \<longrightarrow> i = hd (R' @ m # T)" by blast
      with step False kept_trans [OF _ UR] show ?thesis
        by (intro exI [of _ r] exI [of _ s'] exI [of _ V'] exI [of _ R']) simp
    qed
  qed
qed

lemma wedge_returns:
  assumes "linked junk s K (P @ m # T)" "rows 2 halves P" "length P < f" "m < K"
  shows "\<exists>r s' P'. wedge M junk halves m f s = Some (Inr r, s') \<and> linked junk s' K (P' @ m # T) \<and> kept junk K P' P"
proof -
  have hd0: "hd (P @ m # T) = 0" using assms(1) by (simp add: linked_def)
  obtain st where st: "wedge_first M halves m f 0 s = Some (Inr st, s)"
    using wedge_first_returns [of junk s K "[]" P m T] assms hd0 by fastforce
  show ?thesis
  proof (cases st)
    case None
    with st assms(1) show ?thesis by (intro exI [of _ Whole_Line] exI [of _ s] exI [of _ P]) (simp add: wedge_def run_simps)
  next
    case (Some c)
    then obtain cw ccw where c: "st = Some (cw, ccw)" by (cases c) auto
    obtain r t U R where r: "wedge_loop M junk halves m f cw ccw 0 s = Some (Inr r, t)"
      and U: "linked junk t K (U @ R @ m # T)" "kept junk K (U @ R) P" "rows 2 halves R" "length R < f"
      and hd: "\<And>i cw ccw d. r = Some (i, cw, ccw, d) \<Longrightarrow> i = hd (R @ m # T)"
      using wedge_loop_returns [of junk s K "[]" P m T halves f M cw ccw] assms hd0 by fastforce
    have "\<exists>w. wedge M junk halves m f s = Some (Inr w, t)"
    proof (cases r)
      case None
      with st c r show ?thesis by (simp add: wedge_def run_simps)
    next
      case (Some q)
      then obtain i cw' ccw' d where q: "r = Some (i, cw', ccw', d)" by (cases q) auto
      obtain x where "wedge_degen M halves m f cw' ccw' i t = Some (Inr x, t)"
        using wedge_degen_returns [OF U(1,3,4), of M cw' ccw'] hd [OF q] by auto
      with st c r q show ?thesis by (cases x) (auto simp: wedge_def run_simps)
    qed
    with U show ?thesis by (auto intro!: exI [of _ "U @ R"])
  qed
qed

section \<open>Sizes\<close>

lemma length_minus_times [simp]: "length (minus_times M old eqn c) = min (length old) (length eqn)"
  by (simp add: minus_times_def)

lemma imax_from_bound: "imax < i \<Longrightarrow> imax_from xs i imax rmax < i + length xs"
proof (induction xs arbitrary: i imax rmax)
  case (Cons x xs)
  from Cons.IH [of i "Suc i"] Cons.IH [of imax "Suc i"] Cons.prems show ?case by (simp add: Let_def)
qed simp

lemma findimax_bound: "pln \<noteq> [] \<Longrightarrow> findimax pln < length pln"
  using imax_from_bound [of 0 1 "tl pln" "ABS (hd pln)"] by (cases pln) (simp_all add: findimax_def)

lemma length_unitize [simp]: "length (unitize M opt) = length opt"
  by (simp add: unitize_def)

lemma length_vector_up [simp]: "k \<le> length low \<Longrightarrow> length (vector_up M eqn k low) = Suc (length low)"
  by (simp add: vector_up_def Let_def)

text \<open>What a solver of dimension \<open>d\<close> returns: one of three statuses, and an optimum unless infeasible.\<close>

definition lp_result :: "nat \<Rightarrow> lp_status \<Rightarrow> double list \<Rightarrow> bool" where
  "lp_result d status opt \<longleftrightarrow> status \<in> {Infeasible, Minimum, Ambiguous} \<and> (status \<noteq> Infeasible \<longrightarrow> length opt = Suc d)"

lemma lp_no_constraints_result:
  assumes "length n_vec = Suc d" "length d_vec = Suc d" "lp_no_constraints M d n_vec d_vec = (status, opt)"
  shows "lp_result d status opt" "status \<noteq> Infeasible" "length opt = Suc d"
  using assms by (auto simp: lp_no_constraints_def lp_result_def lp_d_unit_def Let_def split: if_splits)

lemma base_optimum_status: "fst (base_optimum M degen cw ccw n_vec d_vec) \<in> {Minimum, Ambiguous}"
  by (simp add: base_optimum_def Let_def)

section \<open>The contract of a solver\<close>

text \<open>
  What the loop over the planes needs of the solver of the next lower dimension: on the part of a
  list before the marker \<open>m\<close>, it returns a result and changes that part only, where it keeps all planes
  unless \<open>junk\<close> is the index of one.
\<close>

definition solves :: "int \<Rightarrow> sub_solver \<Rightarrow> nat \<Rightarrow> nat \<Rightarrow> planes \<Rightarrow> nat \<Rightarrow> double list \<Rightarrow> double list \<Rightarrow> nat list \<Rightarrow> nat list \<Rightarrow> links \<Rightarrow> bool" where
  "solves junk slv K d halves m n_vec d_vec P T s \<longleftrightarrow> (\<exists>status opt s' P'.
     slv halves m n_vec d_vec s = Some (Inr (status, opt), s') \<and> lp_result d status opt \<and>
     linked junk s' K (P' @ m # T) \<and> kept junk K P' P)"

locale plane_solver =
  fixes slv :: sub_solver and junk :: int and K d :: nat
  assumes solves: "linked junk s K (P @ m # T) \<Longrightarrow> m < K \<Longrightarrow> rows (Suc d) halves P \<Longrightarrow>
    length n_vec = Suc d \<Longrightarrow> length d_vec = Suc d \<Longrightarrow> solves junk slv K d halves m n_vec d_vec P T s"

lemma project_planes_returns:
  "linked junk s K (V @ R @ m # T) \<Longrightarrow> rows w halves R \<Longrightarrow> length R < f \<Longrightarrow>
    (\<And>h. length h = w \<Longrightarrow> length (down h) = v) \<Longrightarrow> rows v new V \<Longrightarrow>
    \<exists>new'. project_planes down halves m f (hd (R @ m # T)) new s = Some (Inr new', s) \<and> rows v new' (V @ R)"
proof (induction R arbitrary: V f new)
  case Nil
  then show ?case by (cases f) (auto simp: run_simps)
next
  case (Cons i R)
  then obtain h g where h: "halves i = Some h" "length h = w" and f: "f = Suc g" by (cases f) auto
  have "rows v (new(i \<mapsto> down h)) (V @ [i])" using Cons.prems(4,5) h(2) by (auto simp: rows_def)
  moreover have "rows w halves R" "length R < g" using Cons.prems(2,3) f by auto
  ultimately obtain new' where "project_planes down halves m g (hd (R @ m # T)) (new(i \<mapsto> down h)) s = Some (Inr new', s)"
    "rows v new' ((V @ [i]) @ R)"
    using Cons.IH [OF linked_next(2) [OF Cons.prems(1)] _ _ Cons.prems(4)] by blast
  with f h linked_next(1,3) [OF Cons.prems(1)] show ?case by (auto simp: run_simps plane_at_row)
qed

lemma linked_length: "linked junk s K (P @ m # T) \<Longrightarrow> length P \<le> K"
proof -
  assume c: "linked junk s K (P @ m # T)"
  then have "set P \<subseteq> {..<K}" using linked_split(4) [of junk s K P m T] linked_marker [OF c] 
    by (cases "T = []") (auto simp: linked_def butlast_append dest: lseg_bounds)
  moreover have "distinct P" using c by (simp add: linked_def)
  ultimately show "length P \<le> K" using card_mono [of "{..<K}" "set P"] by (simp add: distinct_card)
qed

lemma lower_planes_returns:
  assumes "linked junk s K (V @ i # R)" "R \<noteq> []" "rows (Suc (Suc d)) halves V" "length pl = Suc (Suc d)"
  shows "\<exists>new. lower_planes M halves (Suc K) pl i s = Some (Inr new, s) \<and> rows (Suc d) new V"
proof (cases "i = 0")
  case True
  with assms(1) have "V = []" using linked_hd0 by blast
  with True show ?thesis by (simp add: lower_planes_def ret_run)
next
  case False
  have "findimax pl < Suc (Suc d)" using findimax_bound [of pl] assms(4) by force
  moreover have "hd (V @ i # R) = 0" using assms(1) by (simp add: linked_def)
  ultimately show ?thesis
    using project_planes_returns [of junk s K "[]" V i R "Suc (Suc d)" halves "Suc K"
        "inline_down M pl (findimax pl) (ddiv M (Fin 1) (pl ! findimax pl))" "Suc d" Map.empty]
      assms False linked_length [OF assms(1)] by (auto simp: lower_planes_def inline_down_def Let_def)
qed

context plane_solver
begin

lemma loop_returns:
  "linked junk s K (V @ R @ m # T) \<Longrightarrow> rows (Suc (Suc d)) halves (V @ R) \<Longrightarrow> length R < f \<Longrightarrow>
    length n_vec = Suc (Suc d) \<Longrightarrow> length d_vec = Suc (Suc d) \<Longrightarrow> lp_result (Suc d) status opt \<Longrightarrow> length opt = Suc (Suc d) \<Longrightarrow>
    \<exists>status' opt' s' P'. lp_loop M slv (Suc d) halves m n_vec d_vec (int K) f status opt (hd (R @ m # T)) s =
        Some (Inr (status', opt'), s') \<and>
      lp_result (Suc d) status' opt' \<and> linked junk s' K (P' @ m # T) \<and> kept junk K P' (V @ R)"
proof (induction R arbitrary: V f status opt s)
  case Nil
  then obtain g where "f = Suc g" by (cases f) auto
  with Nil show ?case by (intro exI [of _ status] exI [of _ opt] exI [of _ s] exI [of _ V]) (simp add: ret_run)
next
  case (Cons i R)
  note P = Cons.prems
  from P obtain pl g where pl: "halves i = Some pl" "length pl = Suc (Suc d)" and f: "f = Suc g" by (cases f) auto
  have c: "linked junk s K (V @ i # R @ m # T)" using P(1) by simp
  have rest: "R @ m # T \<noteq> []" "rows (Suc (Suc d)) halves V" using P(2) by simp_all
  show ?case
  proof (cases "violated M (Suc d) opt pl")
    case False
    have "rows (Suc (Suc d)) halves ((V @ [i]) @ R)" "length R < g" using P(2,3) f by auto
    from Cons.IH [OF linked_next(2) [OF P(1)] this P(4-7)] show ?thesis
      using False f pl linked_next(1,3) [OF P(1)] by (simp add: run_simps plane_at_row)
  next
    case True
    let ?k = "findimax pl"
    have k: "?k < Suc (Suc d)" using findimax_bound [of pl] pl(2) by force
    obtain new where new: "lower_planes M halves (Suc K) pl i s = Some (Inr new, s)" "rows (Suc d) new V"
      using lower_planes_returns [OF c rest pl(2)] by blast
    let ?objective = "if dlt (dot_loop M d_vec d_vec) (dmul M (dmul M (of_i (int (Suc d) + 1)) (EPS M)) (EPS M))
       then (vector_down M pl ?k n_vec, replicate (Suc d) (Fin 0))
       else (plane_down M pl ?k n_vec, plane_down M pl ?k d_vec)"
    obtain n' d' where nd: "?objective = (n', d')" by (cases ?objective)
    then have len: "length n' = Suc d" "length d' = Suc d"
      using P(4,5) pl(2) k by (auto simp: vector_down_def plane_down_def Let_def split: if_splits)
    obtain st low t U where sub: "slv new i n' d' s = Some (Inr (st, low), t)" "lp_result d st low"
      "linked junk t K (U @ i # R @ m # T)" "kept junk K U V"
      using solves [OF c linked_split(1) [OF c rest(1)] new(2) len] by (auto simp: solves_def)
    let ?body = "\<lambda>(st, low). if st \<noteq> Infeasible then bnd (move_to_front i (int K)) (\<lambda>i. bnd (get_nxt i)
        (lp_loop M slv (Suc d) halves m n_vec d_vec (int K) g st (unitize M (vector_up M pl ?k low)))) else ret (st, opt)"
    have step: "lp_loop M slv (Suc d) halves m n_vec d_vec (int K) f status opt (hd ((i # R) @ m # T)) s = ?body (st, low) t"
      using True f pl linked_next(3) [OF P(1)] new(1) nd sub(1)
      by (simp only: lp_loop.simps list.sel append_Cons if_False if_True Let_def bnd_run plane_at_row [of halves i pl] option.case sum.case prod.case nat_int)
    show ?thesis
    proof (cases "st = Infeasible")
      case True
      with step sub(3,4) show ?thesis
        by (intro exI [of _ st] exI [of _ opt] exI [of _ t] exI [of _ "U @ i # R"]) (simp add: ret_run lp_result_def)
    next
      case False
      let ?opt = "unitize M (vector_up M pl ?k low)"
      obtain u W where u: "bnd (move_to_front i (int K)) get_nxt t = Some (Inr (hd (R @ m # T)), u)"
        "linked junk u K (W @ R @ m # T)" "kept junk K W (U @ [i])"
        using front_next [OF sub(3) rest(1), of "int K"] by auto
      have "kept junk K (W @ R) (U @ i # R)" "kept junk K (U @ i # R) (V @ i # R)"
        using u(3) sub(4) kept_simps(2) [of junk K W R "U @ [i]"] by simp_all
      then have WR: "kept junk K (W @ R) (V @ i # R)" by (rule kept_trans)
      have lens: "length low = Suc d" "lp_result (Suc d) st ?opt" "length ?opt = Suc (Suc d)"
        using sub(2) False k by (auto simp: lp_result_def)
      have "rows (Suc (Suc d)) halves (W @ R)" "length R < g"
        using P(2,3) f rows_kept [OF WR] by auto
      from Cons.IH [OF u(2) this P(4,5) lens(2,3)] obtain status' opt' s' P' where
        "lp_loop M slv (Suc d) halves m n_vec d_vec (int K) g st ?opt (hd (R @ m # T)) u = Some (Inr (status', opt'), s')"
        "lp_result (Suc d) status' opt'" "linked junk s' K (P' @ m # T)" "kept junk K P' (W @ R)" by blast
      with step False u(1) kept_trans [OF _ WR, of P'] show ?thesis
        by (intro exI [of _ status'] exI [of _ opt'] exI [of _ s'] exI [of _ P'])
          (simp add: bnd_get_nxt bnd_run [of "bnd (move_to_front i (int K)) get_nxt"])
    qed
  qed
qed

end

section \<open>The solver keeps its contract\<close>

lemma base_case_solves: "plane_solver (\<lambda>halves m n_vec d_vec. lp_base_case M junk (Suc (nat (int K))) halves m n_vec d_vec opt) junk K 1"
proof
  fix s :: links and P m T halves and n_vec d_vec :: "double list"
  assume a: "linked junk s K (P @ m # T)" "m < K" "rows (Suc 1) halves P" "length n_vec = Suc 1" "length d_vec = Suc 1"
  obtain w t U where w: "wedge M junk halves m (Suc (nat (int K))) s = Some (Inr w, t)" "linked junk t K (U @ m # T)" "kept junk K U P"
    using wedge_returns [OF a(1) _ _ a(2), of halves "Suc (nat (int K))" M] a(3) linked_length [OF a(1)] by (auto simp: numeral_2_eq_2)
  have "\<exists>status opt'. lp_base_case M junk (Suc (nat (int K))) halves m n_vec d_vec opt s = Some (Inr (status, opt'), t) \<and> lp_result 1 status opt'"
  proof (cases w)
    case No_Wedge
    with w(1) show ?thesis by (simp add: lp_base_case_def run_simps lp_result_def)
  next
    case Whole_Line
    with w(1) lp_no_constraints_result [OF a(4,5)] show ?thesis
      by (cases "lp_no_constraints M 1 n_vec d_vec") (simp add: lp_base_case_def run_simps)
  next
    case (Wedge cw ccw degen)
    with w(1) base_optimum_status [of M degen cw ccw "(n_vec ! 0, n_vec ! 1)" "(d_vec ! 0, d_vec ! 1)"] show ?thesis
      by (cases "base_optimum M degen cw ccw (n_vec ! 0, n_vec ! 1) (d_vec ! 0, d_vec ! 1)")
        (auto simp: lp_base_case_def run_simps lp_result_def)
  qed
  with w show "solves junk (\<lambda>halves m n_vec d_vec. lp_base_case M junk (Suc (nat (int K))) halves m n_vec d_vec opt) K 1 halves m n_vec d_vec P T s"
    by (fastforce simp: solves_def)
qed

interpretation base_case: plane_solver "\<lambda>halves m n_vec d_vec. lp_base_case M junk (Suc (nat (int K))) halves m n_vec d_vec opt" junk K 1
  by (rule base_case_solves)

lemma no_planes_solved:
  assumes "linked junk s K (P @ 0 # T)" "length n_vec = Suc (Suc d)" "length d_vec = Suc (Suc d)"
  shows "solves junk (linprog M junk max_size (Suc d) opt) K (Suc d) halves 0 n_vec d_vec P T s"
  using assms lp_no_constraints_result [OF assms(2,3)]
  by (cases "lp_no_constraints M (Suc d) n_vec d_vec") (auto simp: solves_def run_simps intro!: exI [of _ s] exI [of _ P])

lemma linprog_step:
  assumes sub: "plane_solver (linprog M junk (int K) (Suc d) []) junk K (Suc d)"
    and c: "linked junk s K (P @ m # T)" and r: "rows (Suc (Suc (Suc d))) halves P"
    and len: "length n_vec = Suc (Suc (Suc d))" "length d_vec = Suc (Suc (Suc d))"
  shows "solves junk (linprog M junk (int K) (Suc (Suc d)) opt) K (Suc (Suc d)) halves m n_vec d_vec P T s"
proof (cases "m = 0")
  case True
  with c len show ?thesis using no_planes_solved by blast
next
  case False
  obtain st u where st: "lp_no_constraints M (Suc (Suc d)) n_vec d_vec = (st, u)" by (cases "lp_no_constraints M (Suc (Suc d)) n_vec d_vec")
  have "hd (P @ m # T) = 0" "length P < Suc K" using c linked_length [OF c] by (simp_all add: linked_def)
  with plane_solver.loop_returns [OF sub, of s "[]" P m T halves "Suc K" n_vec d_vec st u M]
    lp_no_constraints_result [OF len st] c r len False st
  show ?thesis by (auto simp: solves_def)
qed

lemma linprog_solves: "plane_solver (linprog M junk (int K) (Suc d) opt) junk K (Suc d)"
proof (induction d arbitrary: opt)
  case 0
  show ?case
  proof
    fix s :: links and P m T halves and n_vec d_vec :: "double list"
    assume a: "linked junk s K (P @ m # T)" "m < K" "rows (Suc (Suc 0)) halves P" "length n_vec = Suc (Suc 0)" "length d_vec = Suc (Suc 0)"
    show "solves junk (linprog M junk (int K) (Suc 0) opt) K (Suc 0) halves m n_vec d_vec P T s"
    proof (cases "m = 0")
      case True
      with a show ?thesis using no_planes_solved by blast
    next
      case False
      with base_case.solves [OF a(1,2), of halves n_vec d_vec M opt] a(3-5)
      show ?thesis by (simp add: solves_def)
    qed
  qed
next
  case (Suc d)
  show ?case by unfold_locales (rule linprog_step [OF Suc.IH])
qed

interpretation seidel: plane_solver "linprog M junk (int K) (Suc d) opt" junk K "Suc d"
  by (rule linprog_solves)

section \<open>The call from the rectangular hulls\<close>

lemma seg_of_links:
  "map ((!) (nxt s)) (butlast L) = tl L \<Longrightarrow> map ((!) (prv s)) (butlast (tl L)) = butlast (butlast L) \<Longrightarrow>
    \<forall>x \<in> set (butlast L). x < K \<Longrightarrow> last L = K \<Longrightarrow> seg s K L"
proof (induction L rule: seg.induct [of _ s K])
  case (1 s K a b L)
  then show ?case by (cases L; cases "tl L") auto
qed auto

lemma plane_lists_chain:
  assumes "2 \<le> m" "plane_lists m (randperm rs (m - 1)) = (ns, ps)"
  shows "\<exists>P. mset P = mset [0..<m] \<and> chain \<lparr> nxt = ns, prv = ps \<rparr> m (P @ [m])"
proof -
  let ?q = "map Suc (randperm rs (m - 1))"
  have links: "map ((!) ns) (0 # ?q) = ?q @ [m]" "map ((!) ps) ?q = butlast (0 # ?q)"
    using planes_linked [OF assms(1), of rs] assms(2) by (simp_all add: Let_def)
  have "mset ?q = mset (map Suc [0..<m - 1])" using randperm_mset [of rs "m - 1"] by simp
  then have q: "mset (0 # ?q) = mset [0..<m]"
    using assms(1) by (simp add: map_Suc_upt upt_conv_Cons del: mset_map)
  then have d: "distinct (0 # ?q)" and b: "\<forall>x \<in> set (0 # ?q). x < m"
    by (metis distinct_upt mset_eq_imp_distinct_iff) (metis atLeastLessThan_iff mset_eq_setD q set_upt)
  obtain a qs where "randperm rs (m - 1) = a # qs"
    using assms(1) randperm_facts(3) [of rs "m - 1"] by (cases "randperm rs (m - 1)") auto
  then have "length ns = m" "length ps = m"
    using assms(2) link_lengths [of a qs "(replicate m 0)[0 := Suc a]" "(replicate m 0)[0 := 1234567890, Suc a := 0]"]
    by (auto simp: plane_lists_def Let_def split: prod.splits)
  moreover have "seg \<lparr> nxt = ns, prv = ps \<rparr> m ((0 # ?q) @ [m])"
    using links b by (intro seg_of_links) (simp_all add: butlast_append)
  ultimately have "chain \<lparr> nxt = ns, prv = ps \<rparr> m ((0 # ?q) @ [m])" using d b by (auto simp: chain_def)
  with q show ?thesis by blast
qed

lemma rows_of_all:
  assumes "length flat = m * w" "set P \<subseteq> {..<m}"
  shows "rows w (rows_of w flat) P"
proof (unfold rows_def, rule ballI)
  fix x assume "x \<in> set P"
  then have "(x + 1) * w \<le> m * w" using assms(2) by (intro mult_right_mono) auto
  then show "\<exists>h. rows_of w flat x = Some h \<and> length h = w" using assms(1) by (simp add: rows_of_def)
qed

lemma linprog_ends:
  assumes "2 \<le> m" "plane_lists m (randperm rs (m - 1)) = (ns, ps)" "2 \<le> d" "length halves = m * (d + 1)"
    "length n_vec = d + 1" "length d_vec = d + 1"
  shows "\<exists>status opt' s' P. linprog M junk (int m) d opt (rows_of (d + 1) halves) m n_vec d_vec \<lparr> nxt = ns, prv = ps \<rparr> =
      Some (Inr (status, opt'), s') \<and>
    lp_result d status opt' \<and> kept junk m P [0..<m] \<and> linked junk s' m (P @ [m])"
proof -
  obtain P where P: "mset P = mset [0..<m]" "chain \<lparr> nxt = ns, prv = ps \<rparr> m (P @ m # [])"
    using plane_lists_chain [OF assms(1,2)] by auto
  obtain e where d: "d = Suc (Suc e)" using nat_le_iff_add [of 2 d] assms(3) by auto
  have "set P \<subseteq> {..<m}" using P(1) by (metis atLeast_upt mset_eq_setD order_refl)
  then have "rows (d + 1) (rows_of (d + 1) halves) P" by (rule rows_of_all [OF assms(4)])
  then have "solves junk (linprog M junk (int m) (Suc (Suc e)) opt) m (Suc (Suc e)) (rows_of (d + 1) halves) m n_vec d_vec P []
      \<lparr> nxt = ns, prv = ps \<rparr>"
    using assms(5,6) d by (intro linprog_step [OF seidel.plane_solver_axioms chain_linked [OF P(2)]]) simp_all
  moreover have "kept junk m Q [0..<m] = kept junk m Q P" for Q using P(1) by (simp add: kept_def)
  ultimately show ?thesis by (simp only: solves_def d) blast
qed

text \<open>C6: In two or more dimensions the solver, called on a list of at least two planes as its callers link them, ends, whatever
  the random numbers, the planes, the objective, the rounding and the value \<open>junk\<close> that every call of
  \<open>move_to_front\<close> from the base case finds as the fourth argument it is not passed. No loop goes over more than the planes,
  there is no access outside the arrays \<open>next\<close> and \<open>prev\<close> (the entry 1234567890 of \<open>prev\<close> is never followed) and none
  to a plane that has not been written. The result is one of \<open>INFEASIBLE\<close>, \<open>MINIMUM\<close> and \<open>AMBIGUOUS\<close>, with an optimum of
  one entry more than the dimension unless infeasible. The arrays still link distinct planes, from plane 0 to the marker;
  if \<open>junk\<close> is the index of a plane, some planes may be lost from the list, otherwise it is a doubly linked list of all of them.
\<close>

theorem solver_keeps_planes:
  assumes "2 \<le> m" and "plane_lists m (randperm rs (m - 1)) = (ns, ps)" and "2 \<le> d" and "length halves = m * (d + 1)"
    and "length n_vec = d + 1" and "length d_vec = d + 1"
  shows "\<exists>status opt' s' P. linprog M junk (int m) d opt (rows_of (d + 1) halves) m n_vec d_vec \<lparr> nxt = ns, prv = ps \<rparr> =
      Some (Inr (status, opt'), s') \<and>
    status \<in> {Infeasible, Minimum, Ambiguous} \<and> (status \<noteq> Infeasible \<longrightarrow> length opt' = d + 1) \<and>
    mset P \<subseteq># mset [0..<m] \<and> linked junk s' m (P @ [m]) \<and>
    (no_index junk m \<longrightarrow> mset P = mset [0..<m] \<and> chain s' m (P @ [m]))"
  using linprog_ends [OF assms, of M junk opt] linked_chain unfolding lp_result_def kept_def Suc_eq_plus1 by blast

theorem solver_keeps_planes_witness:
  "\<exists>status opt' s' P. linprog ieee64 1 (int 2) 2 [] (rows_of (2 + 1) [Fin 0, Fin 0, Fin 1, Fin 1, NZero, Nan]) 2
      [Fin 1, Fin 0, Fin 0] [Fin 0, Fin 0, Fin 1] \<lparr> nxt = [1, 2], prv = [1234567890, 0] \<rparr> = Some (Inr (status, opt'), s') \<and>
    status \<in> {Infeasible, Minimum, Ambiguous} \<and> linked 1 s' 2 (P @ [2])"
  using solver_keeps_planes [of 2 "\<lambda>_. 0" "[1, 2]" "[1234567890, 0]" 2 "[Fin 0, Fin 0, Fin 1, Fin 1, NZero, Nan]"
      "[Fin 1, Fin 0, Fin 0]" "[Fin 0, Fin 0, Fin 1]" ieee64 1 "[]"]
  by (auto simp: plane_lists_def randperm_def numeral_2_eq_2 simp del: linprog.simps)





end
