(* ===== verification/Seidel_Exact.thy ===== *)
theory Seidel_Exact imports Seidel Adv_Deriv_Props begin

text \<open>
  The geometry of the linear-program solver in exact arithmetic: projecting a plane to another one
  and lifting a point back.
\<close>

section \<open>Projection and back substitution\<close>

definition lift_real :: "real list \<Rightarrow> nat \<Rightarrow> real list \<Rightarrow> real list" where
  "lift_real e k y = take k y @ (- inner (drop_at k e) y / e ! k) # drop k y"

definition down_real :: "real list \<Rightarrow> nat \<Rightarrow> real list \<Rightarrow> real list" where
  "down_real e k p = drop_at k (map2 (\<lambda>x a. x - a * (p ! k / e ! k)) p e)"

lemma inner_append: "length a = length c \<Longrightarrow> inner (a @ b) (c @ d) = inner a c + inner b d"
  by (simp add: inner_def)

lemma inner_drop_at:
  assumes "k < length e" "Suc (length y) = length e"
  shows "inner e (take k y @ x # drop k y) = inner (drop_at k e) y + e ! k * x"
proof -
  have e: "e = take k e @ e ! k # drop (Suc k) e" using assms(1) by (rule id_take_nth_drop)
  have "inner (take k e @ e ! k # drop (Suc k) e) (take k y @ x # drop k y) =
      inner (take k e) (take k y) + (e ! k * x + inner (drop (Suc k) e) (drop k y))"
    using assms by (simp add: inner_append inner_Cons)
  moreover have "inner (take k e @ drop (Suc k) e) (take k y @ drop k y) =
      inner (take k e) (take k y) + inner (drop (Suc k) e) (drop k y)"
    using assms by (intro inner_append) simp
  ultimately show ?thesis using e by (simp add: drop_at_def)
qed

lemma inner_minus_times:
  "length p = length e \<Longrightarrow> length y = length e \<Longrightarrow> inner (map2 (\<lambda>x a. x - a * c) p e) y = inner p y - c * inner e y"
proof (induction p e arbitrary: y rule: list_induct2)
  case (Cons x xs a as)
  then obtain b bs where "y = b # bs" "length bs = length as" by (cases y) auto
  with Cons.IH [of bs] Cons.hyps show ?case by (simp add: inner_Cons algebra_simps)
qed (simp add: inner_def)

lemma drop_at_map2: "length p = length e \<Longrightarrow> drop_at k (map2 f p e) = map2 f (drop_at k p) (drop_at k e)"
  by (simp add: drop_at_def take_zip drop_zip take_map drop_map zip_append)

lemma lift_on_plane:
  assumes "k < length e" "Suc (length y) = length e" "e ! k \<noteq> 0"
  shows "inner e (lift_real e k y) = 0"
  using inner_drop_at [OF assms(1,2)] assms(3) by (simp add: lift_real_def)

lemma down_lift:
  assumes "k < length e" "Suc (length y) = length e" "length p = length e" "e ! k \<noteq> 0"
  shows "inner (down_real e k p) y = inner p (lift_real e k y)"
proof -
  define c where "c = p ! k / e ! k"
  have "inner (down_real e k p) y = inner (drop_at k p) y - c * inner (drop_at k e) y"
    unfolding down_real_def c_def [symmetric] using assms by (simp add: drop_at_map2 inner_minus_times)
  also have "\<dots> = inner p (lift_real e k y)"
    using inner_drop_at [of k p y "- inner (drop_at k e) y / e ! k"] assms by (simp add: lift_real_def c_def)
  finally show ?thesis .
qed

abbreviation has_vals :: "double list \<Rightarrow> real list \<Rightarrow> bool" where
  "has_vals \<equiv> list_all2 has_val"

lemma has_vals_Fin: "has_vals (map Fin xs) xs"
  by (simp add: list_all2_map1 has_val_Fin list_all2_refl)

lemma has_val_dot_loop:
  assumes "has_vals a x" "has_vals b y"
  shows "has_val (dot_loop exact a b) (inner x y)"
proof -
  have "has_val (foldl (\<lambda>s (x, y). dadd exact s (dmul exact x y)) s (zip a b)) (t + inner x y)" if "has_val s t" for s t
    using assms that
  proof (induction a x arbitrary: b y s t rule: list_all2_induct)
    case (Cons v a w x)
    show ?case
    proof (cases y)
      case Nil
      with Cons.prems show ?thesis by (simp add: inner_def)
    next
      case (Cons u us)
      with Cons.prems(1) obtain d ds where b: "b = d # ds" "has_val d u" "has_vals ds us"
        by (auto simp: list_all2_Cons2)
      have "has_val (dadd exact s (dmul exact v d)) (t + w * u)" using b Cons.hyps Cons.prems by (intro val_intros)
      from Cons.IH [OF b(3) this] show ?thesis using b Cons by (simp add: inner_Cons add.assoc)
    qed
  qed (simp add: inner_def)
  from this [OF has_val_Fin, of 0] show ?thesis by (simp add: dot_loop_def)
qed

lemma has_vals_drop_at: "has_vals a x \<Longrightarrow> has_vals (drop_at k a) (drop_at k x)"
  unfolding drop_at_def by (intro list_all2_appendI list_all2_takeI list_all2_dropI)

lemma has_vals_minus_times:
  "has_vals a x \<Longrightarrow> has_vals b y \<Longrightarrow> has_val c v \<Longrightarrow> has_vals (minus_times exact a b c) (map2 (\<lambda>x y. x - y * v) x y)"
  unfolding minus_times_def
proof (induction a x arbitrary: b y rule: list_all2_induct)
  case (Cons r rs q qs)
  then show ?case by (cases b; cases y) (auto intro!: val_intros)
qed simp

lemma has_val_at: "has_vals a x \<Longrightarrow> k < length x \<Longrightarrow> has_val (a ! k) (x ! k)"
  by (simp add: list_all2_conv_all_nth)

lemma has_vals_down:
  assumes "k < length e" "length p = length e" "e ! k \<noteq> 0"
  shows "has_vals (plane_down exact (map Fin e) k (map Fin p)) (down_real e k p)"
    "has_vals (inline_down exact (map Fin e) k (ddiv exact (Fin 1) (Fin (e ! k))) (map Fin p)) (down_real e k p)"
proof -
  have down: "has_vals (drop_at k (minus_times exact (map Fin p) (map Fin e) c)) (down_real e k p)"
    if "has_val c (p ! k / e ! k)" for c
    unfolding down_real_def by (intro has_vals_drop_at has_vals_minus_times has_vals_Fin that)
  have "has_val (ddiv exact (Fin (p ! k)) (Fin (e ! k))) (p ! k / e ! k)"
    "has_val (dmul exact (Fin (p ! k)) (ddiv exact (Fin 1) (Fin (e ! k)))) (p ! k * (1 / e ! k))"
    using assms(3) by (intro val_intros; simp)+
  with assms show "has_vals (plane_down exact (map Fin e) k (map Fin p)) (down_real e k p)"
    "has_vals (inline_down exact (map Fin e) k (ddiv exact (Fin 1) (Fin (e ! k))) (map Fin p)) (down_real e k p)"
    by (simp_all add: plane_down_def inline_down_def down)
qed

lemma has_vals_up:
  assumes "k < length e" "Suc (length y) = length e" "e ! k \<noteq> 0"
  shows "has_vals (vector_up exact (map Fin e) k (map Fin y)) (lift_real e k y)"
proof -
  have "has_val (foldl (\<lambda>s (e, x). dsub exact s (dmul exact e x)) s (zip (map Fin a) (map Fin b))) (t - inner a b)"
    if "has_val s t" for s t a b using that
  proof (induction a arbitrary: b s t)
    case (Cons u us)
    show ?case
    proof (cases b)
      case (Cons v vs)
      have "has_val (dsub exact s (dmul exact (Fin u) (Fin v))) (t - u * v)" using Cons.prems by (intro val_intros)
      from Cons.IH [OF this, of vs] show ?thesis using Cons by (simp add: inner_Cons algebra_simps)
    qed (use Cons.prems in \<open>simp add: inner_def\<close>)
  qed (simp add: inner_def)
  from this [OF has_val_Fin, of 0 "drop_at k e" y]
  have "has_val (ddiv exact (foldl (\<lambda>s (e, x). dsub exact s (dmul exact e x)) (Fin 0) (zip (map Fin (drop_at k e)) (map Fin y)))
      (Fin (e ! k))) (- inner (drop_at k e) y / e ! k)"
    using assms(3) by (intro val_intros) auto
  moreover have "drop_at k (map Fin e) = map Fin (drop_at k e)" by (simp add: drop_at_def take_map drop_map)
  ultimately show ?thesis
    using assms(1) unfolding vector_up_def lift_real_def Let_def
    by (intro list_all2_appendI) (simp_all add: take_map drop_map has_vals_Fin)
qed

text \<open>C25: In exact arithmetic, projecting a plane onto plane \<open>i\<close> and back substitution fit together: a point of the lower dimension gives the projected plane (by \<open>plane_down\<close> or by the inlined loop) the same value as the point \<open>vector_up\<close> makes of it gives the original plane, and that point lies on plane \<open>i\<close>; so a point is feasible for the lower problem exactly when its lifting is feasible for the original planes.\<close>

theorem back_substitution_exact:
  assumes "k < length e" and "e ! k \<noteq> 0" and "length p = length e" and "Suc (length y) = length e"
  shows "\<exists>v. has_val (dot_loop exact (plane_down exact (map Fin e) k (map Fin p)) (map Fin y)) v \<and>
    has_val (dot_loop exact (inline_down exact (map Fin e) k (ddiv exact (Fin 1) (Fin (e ! k))) (map Fin p)) (map Fin y)) v \<and>
    has_val (dot_loop exact (vector_up exact (map Fin e) k (map Fin y)) (map Fin p)) v \<and>
    has_val (dot_loop exact (vector_up exact (map Fin e) k (map Fin y)) (map Fin e)) 0"
proof -
  have comm: "inner a b = inner b a" for a b by (simp add: inner_def zip_commute [of a b] comp_def split_def mult.commute)
  note up = has_vals_up [OF assms(1,4,2)]
  have "has_val (dot_loop exact (vector_up exact (map Fin e) k (map Fin y)) (map Fin p)) (inner (down_real e k p) y)"
    using has_val_dot_loop [OF up has_vals_Fin, of p] down_lift [OF assms(1,4,3,2)] comm by simp
  moreover have "has_val (dot_loop exact (vector_up exact (map Fin e) k (map Fin y)) (map Fin e)) 0"
    using has_val_dot_loop [OF up has_vals_Fin, of e] lift_on_plane [OF assms(1,4,2)] comm by simp
  ultimately show ?thesis
    using has_val_dot_loop [OF _ has_vals_Fin] has_vals_down [OF assms(1,3,2)] by blast
qed

theorem back_substitution_exact_witness:
  "\<exists>v. has_val (dot_loop exact (plane_down exact (map Fin [1, 2, 3]) 2 (map Fin [1, 1, 1])) (map Fin [5, 7])) v \<and>
    has_val (dot_loop exact (vector_up exact (map Fin [1, 2, 3]) 2 (map Fin [5, 7])) (map Fin [1, 1, 1])) v"
  using back_substitution_exact [of 2 "[1, 2, 3]" "[1, 1, 1]" "[5, 7]"] by auto

end
