(* ===== verification/Expr_Meaning.thy ===== *)
theory Expr_Meaning imports Adv_Deriv_Props Hlapi_Discrete begin

text \<open>
  What an expression means to the programmer who writes it with the templates of \<open>cv\<close>, as a function
  on real numbers, and what the interpreter makes of the message it is built into.
\<close>

section \<open>Expressions as they are written\<close>

text \<open>A C++ expression of type \<open>Expr<T>\<close>: one constructor per function and operator of the header.\<close>

datatype cv_expr =
    Cv_Var string
  | Cv_Real double
  | Cv_Name string cv_expr
  | Cv_exp cv_expr | Cv_sin cv_expr | Cv_cos cv_expr | Cv_sqrt cv_expr | Cv_square cv_expr
  | Cv_log10 cv_expr | Cv_ln cv_expr | Cv_round cv_expr | Cv_floor cv_expr | Cv_ceil cv_expr
  | Cv_abs cv_expr | Cv_sign cv_expr
  | Cv_max cv_expr cv_expr | Cv_min cv_expr cv_expr | Cv_pow cv_expr cv_expr
  | Cv_plus cv_expr cv_expr | Cv_minus cv_expr cv_expr | Cv_times cv_expr cv_expr | Cv_divide cv_expr cv_expr

text \<open>The object it makes, by the functions of the header.\<close>

fun made_expr :: "cv_expr \<Rightarrow> expr" where
  "made_expr (Cv_Var v) = EVar v"
| "made_expr (Cv_Real c) = EReal c"
| "made_expr (Cv_Name r a) = named r (made_expr a)"
| "made_expr (Cv_exp a) = e_exp (made_expr a)"
| "made_expr (Cv_sin a) = e_sin (made_expr a)"
| "made_expr (Cv_cos a) = e_cos (made_expr a)"
| "made_expr (Cv_sqrt a) = e_sqrt (made_expr a)"
| "made_expr (Cv_square a) = e_square (made_expr a)"
| "made_expr (Cv_log10 a) = e_log10 (made_expr a)"
| "made_expr (Cv_ln a) = e_ln (made_expr a)"
| "made_expr (Cv_round a) = e_round (made_expr a)"
| "made_expr (Cv_floor a) = e_floor (made_expr a)"
| "made_expr (Cv_ceil a) = e_ceil (made_expr a)"
| "made_expr (Cv_abs a) = e_abs (made_expr a)"
| "made_expr (Cv_sign a) = e_sign (made_expr a)"
| "made_expr (Cv_max a b) = e_max (made_expr a) (made_expr b)"
| "made_expr (Cv_min a b) = e_min (made_expr a) (made_expr b)"
| "made_expr (Cv_pow a b) = e_pow (made_expr a) (made_expr b)"
| "made_expr (Cv_plus a b) = e_plus (made_expr a) (made_expr b)"
| "made_expr (Cv_minus a b) = e_minus (made_expr a) (made_expr b)"
| "made_expr (Cv_times a b) = e_times (made_expr a) (made_expr b)"
| "made_expr (Cv_divide a b) = e_divide (made_expr a) (made_expr b)"

text \<open>The real number it stands for; \<open>c\<close> is the function that \<open>cos\<close> stands for.\<close>

fun meaning :: "(real \<Rightarrow> real) \<Rightarrow> (string \<Rightarrow> real) \<Rightarrow> cv_expr \<Rightarrow> real" where
  "meaning c x (Cv_Var v) = x v"
| "meaning c x (Cv_Real r) = val r"
| "meaning c x (Cv_Name r a) = meaning c x a"
| "meaning c x (Cv_exp a) = exp (meaning c x a)"
| "meaning c x (Cv_sin a) = sin (meaning c x a)"
| "meaning c x (Cv_cos a) = c (meaning c x a)"
| "meaning c x (Cv_sqrt a) = sqrt (meaning c x a)"
| "meaning c x (Cv_square a) = (meaning c x a)\<^sup>2"
| "meaning c x (Cv_log10 a) = log 10 (meaning c x a)"
| "meaning c x (Cv_ln a) = ln (meaning c x a)"
| "meaning c x (Cv_round a) = of_int (round_away (meaning c x a))"
| "meaning c x (Cv_floor a) = of_int \<lfloor>meaning c x a\<rfloor>"
| "meaning c x (Cv_ceil a) = of_int \<lceil>meaning c x a\<rceil>"
| "meaning c x (Cv_abs a) = \<bar>meaning c x a\<bar>"
| "meaning c x (Cv_sign a) = sgn (meaning c x a)"
| "meaning c x (Cv_max a b) = max (meaning c x a) (meaning c x b)"
| "meaning c x (Cv_min a b) = min (meaning c x a) (meaning c x b)"
| "meaning c x (Cv_pow a b) = meaning c x a powr meaning c x b"
| "meaning c x (Cv_plus a b) = meaning c x a + meaning c x b"
| "meaning c x (Cv_minus a b) = meaning c x a - meaning c x b"
| "meaning c x (Cv_times a b) = meaning c x a * meaning c x b"
| "meaning c x (Cv_divide a b) = meaning c x a / meaning c x b"

text \<open>The variables are among \<open>vs\<close>, the constants finite, and the functions applied where they are defined.\<close>

fun meaningful :: "(real \<Rightarrow> real) \<Rightarrow> string list \<Rightarrow> (string \<Rightarrow> real) \<Rightarrow> cv_expr \<Rightarrow> bool" where
  "meaningful c vs x (Cv_Var v) = (v \<in> set vs)"
| "meaningful c vs x (Cv_Real r) = is_finite r"
| "meaningful c vs x (Cv_Name r a) = meaningful c vs x a"
| "meaningful c vs x (Cv_exp a) = meaningful c vs x a"
| "meaningful c vs x (Cv_sin a) = meaningful c vs x a"
| "meaningful c vs x (Cv_cos a) = meaningful c vs x a"
| "meaningful c vs x (Cv_sqrt a) = (meaningful c vs x a \<and> 0 \<le> meaning c x a)"
| "meaningful c vs x (Cv_square a) = meaningful c vs x a"
| "meaningful c vs x (Cv_log10 a) = (meaningful c vs x a \<and> 0 < meaning c x a)"
| "meaningful c vs x (Cv_ln a) = (meaningful c vs x a \<and> 0 < meaning c x a)"
| "meaningful c vs x (Cv_round a) = meaningful c vs x a"
| "meaningful c vs x (Cv_floor a) = meaningful c vs x a"
| "meaningful c vs x (Cv_ceil a) = meaningful c vs x a"
| "meaningful c vs x (Cv_abs a) = meaningful c vs x a"
| "meaningful c vs x (Cv_sign a) = meaningful c vs x a"
| "meaningful c vs x (Cv_max a b) = (meaningful c vs x a \<and> meaningful c vs x b)"
| "meaningful c vs x (Cv_min a b) = (meaningful c vs x a \<and> meaningful c vs x b)"
| "meaningful c vs x (Cv_pow a b) = (meaningful c vs x a \<and> meaningful c vs x b \<and> 0 < meaning c x a)"
| "meaningful c vs x (Cv_plus a b) = (meaningful c vs x a \<and> meaningful c vs x b)"
| "meaningful c vs x (Cv_minus a b) = (meaningful c vs x a \<and> meaningful c vs x b)"
| "meaningful c vs x (Cv_times a b) = (meaningful c vs x a \<and> meaningful c vs x b)"
| "meaningful c vs x (Cv_divide a b) = (meaningful c vs x a \<and> meaningful c vs x b \<and> meaning c x b \<noteq> 0)"

fun cos_free :: "cv_expr \<Rightarrow> bool" where
  "cos_free (Cv_cos a) = False"
| "cos_free (Cv_Name r a) = cos_free a"
| "cos_free (Cv_exp a) = cos_free a"
| "cos_free (Cv_sin a) = cos_free a"
| "cos_free (Cv_sqrt a) = cos_free a"
| "cos_free (Cv_square a) = cos_free a"
| "cos_free (Cv_log10 a) = cos_free a"
| "cos_free (Cv_ln a) = cos_free a"
| "cos_free (Cv_round a) = cos_free a"
| "cos_free (Cv_floor a) = cos_free a"
| "cos_free (Cv_ceil a) = cos_free a"
| "cos_free (Cv_abs a) = cos_free a"
| "cos_free (Cv_sign a) = cos_free a"
| "cos_free (Cv_max a b) = (cos_free a \<and> cos_free b)"
| "cos_free (Cv_min a b) = (cos_free a \<and> cos_free b)"
| "cos_free (Cv_pow a b) = (cos_free a \<and> cos_free b)"
| "cos_free (Cv_plus a b) = (cos_free a \<and> cos_free b)"
| "cos_free (Cv_minus a b) = (cos_free a \<and> cos_free b)"
| "cos_free (Cv_times a b) = (cos_free a \<and> cos_free b)"
| "cos_free (Cv_divide a b) = (cos_free a \<and> cos_free b)"
| "cos_free e = True"

lemma meaning_cos_free: "cos_free e \<Longrightarrow> meaning c x e = meaning d x e"
  by (induction e) auto

lemma made_expr_closed: "closed_expr (made_expr e)"
  by (induction e) (simp_all add: expr_defs)

section \<open>Values\<close>

lemma has_val_integral: "has_val (integral s i) (of_int i)"
  by (cases s) (auto simp: integral_def has_val_def)

lemma has_val_elims:
  assumes "has_val a x"
  obtains "a = Fin x" | "a = NZero" "x = 0"
  using assms has_val_cases by blast

lemma has_val_floor [val_intros]: "has_val a x \<Longrightarrow> has_val (dfloor a) (of_int \<lfloor>x\<rfloor>)"
  by (erule has_val_elims) (simp add: has_val_integral, simp add: has_val_def)

lemma has_val_ceil [val_intros]: "has_val a x \<Longrightarrow> has_val (dceil a) (of_int \<lceil>x\<rceil>)"
  by (erule has_val_elims) (simp add: has_val_integral, simp add: has_val_def)

lemma has_val_divide:
  assumes "has_val a x" "has_val b y" "y \<noteq> 0"
  shows "has_val (dmul exact a (ddiv exact (Fin 1) b)) (x / y)"
  using has_val_mul [OF assms(1) has_val_div [OF has_val_Fin [of 1] assms(2,3)]] by simp

lemma has_val_minus: "has_val a x \<Longrightarrow> has_val b y \<Longrightarrow> has_val (dadd exact a (dneg b)) (x - y)"
  using has_val_add [OF _ has_val_neg] by fastforce

lemma has_val_square: "has_val a x \<Longrightarrow> has_val (dmul exact a a) (x\<^sup>2)"
  using has_val_mul [of a x a x] by (simp add: power2_eq_square)

lemmas cv_values = has_val_exp has_val_trig has_val_sqrt has_val_square has_val_logs has_val_round has_val_floor has_val_ceil
  has_val_abs has_val_sgn has_val_max has_val_min has_val_powr has_val_add has_val_minus has_val_mul has_val_divide

lemma made_expr_value:
  "meaningful sin vs x e \<Longrightarrow> \<exists>r. expr_value exact rho (env_of vs x) (made_expr e) = Inr r \<and> has_val r (meaning sin x e)"
proof (induction e)
  case (Cv_Var v)
  then show ?case by (simp add: lookup_or_def env_of_def has_val_Fin)
next
  case (Cv_Real r)
  then show ?case by (simp add: has_val_def)
qed (auto simp: expr_defs intro: cv_values)

text \<open>C9: Writing an expression with the functions and operators of the templates, building it into a message and evaluating the message gives, in exact arithmetic, the real number the expression stands for: \<open>a - b\<close> is the difference although it is built as a sum with a negation, \<open>a / b\<close> the quotient although it is built as a product with an inverse, and so for every function of the header but \<open>cos\<close>, which gives the sine. The expression has no references and polynomials (the templates of the latter do not write one), at most \<open>MAX_NESTING_DEPTH\<close> operations, finite constants and bound variables, and applies its functions where they are defined.\<close>

theorem built_expression_meaning:
  assumes "meaningful sin vs x e" and "expr_size (made_expr e) \<le> min n 10000" and "adv_valid s"
  shows "\<exists>m r t. build_real_expr exact chk (made_expr e) = Inr m \<and> evaluate exact n m (env_of vs x) s = Some (Inr r, t) \<and>
    has_val r (meaning sin x e) \<and> (cos_free e \<longrightarrow> has_val r (meaning cos x e))"
proof -
  obtain r where r: "expr_value exact (\<lambda>_. Inr Nan) (env_of vs x) (made_expr e) = Inr r" "has_val r (meaning sin x e)"
    using made_expr_value [OF assms(1)] by blast
  then show ?thesis
    using built_expression_value [OF made_expr_closed assms(2,3), of exact chk "env_of vs x" "\<lambda>_. Inr Nan"]
      meaning_cos_free [of e cos x sin] by auto
qed

theorem built_expression_meaning_witness:
  "\<exists>m r t. build_real_expr exact True (e_divide (e_minus (EVar ''P'') (EReal (Fin 1))) (e_exp (EVar ''Q''))) = Inr m \<and>
    evaluate exact 10 m (env_of [''P'', ''Q''] (\<lambda>_. 8)) (new_advfunc\<lparr>adv_valid := True\<rparr>) = Some (Inr r, t) \<and> has_val r (7 / exp 8)"
  using built_expression_meaning [of "[''P'', ''Q'']" "\<lambda>_. 8"
      "Cv_divide (Cv_minus (Cv_Var ''P'') (Cv_Real (Fin 1))) (Cv_exp (Cv_Var ''Q''))" 10 "new_advfunc\<lparr>adv_valid := True\<rparr>" True]
  by (simp add: expr_defs)

end
