(* ===== verification/Hlapi_Uncontrollable.thy ===== *)
theory Hlapi_Uncontrollable imports Hlapi_Props begin

text \<open>
  What the advertisements of uncontrollable loads and generators mean to the interpreter that
  receives them, in exact arithmetic.
\<close>

section \<open>Uncontrollable resources\<close>

definition in_half :: "resource_type \<Rightarrow> real \<Rightarrow> real \<Rightarrow> bool" where
  "in_half ty gap x = (case ty of LoadResource \<Rightarrow> x \<le> gap | GeneratorResource \<Rightarrow> - gap \<le> x | Bidirectional \<Rightarrow> True)"

lemma in_bounds_shifted:
  "in_bounds (Fin x) (dadd exact (Fin p) (dneg (Fin d))) (dadd exact (Fin p) (Fin u)) \<longleftrightarrow> between (p - d) (p + u) x"
proof -
  have "has_val (dadd exact (Fin p) (dneg (Fin d))) (p + - d)" "has_val (dadd exact (Fin p) (Fin u)) (p + u)"
    by (intro val_intros)+
  from in_bounds_has_val [OF has_val_Fin this] show ?thesis by simp
qed

lemma uncontrollable_belief_den:
  "\<exists>st. uncontrollable_belief exact chk (Fin S) (Fin dPup) (Fin dPdown) (Fin dQup) (Fin dQdown) ty (Fin gap) = Inr st \<and>
    ref_free_set st \<and> calls_set st \<le> 30 \<and> length (nodes_set st) \<le> 30 \<and>
    den_set exact [''P'' \<mapsto> Fin p, ''Q'' \<mapsto> Fin q] st [Fin x, Fin y] =
      Inr (between (p - dPdown) (p + dPup) x \<and> between (q - dQdown) (q + dQup) y \<and> x\<^sup>2 + y\<^sup>2 \<le> S\<^sup>2 \<and> in_half ty gap x)"
proof -
  define sgn :: real where "sgn = (if ty = LoadResource then 1 else - 1)"
  let ?env = "[''P'' \<mapsto> Fin p, ''Q'' \<mapsto> Fin q]" and ?A = "[[Fin sgn, Fin 0]]" and ?b = "[Fin gap]"
  let ?half = "set_of_body (ConvexPolytope (init_matrix ?A) (init_vector ?b))"
  have half: "den_set exact ?env ?half [Fin x, Fin y] = Inr (sgn * x \<le> gap)"
    using den_half_planes [of ?A ?b "[[sgn, 0]]" "[gap]" ?env x y] by (simp add: has_val_Fin inner_def)
  have poly: "build_convex_polytope ?A ?b = Inr (ConvexPolytope (init_matrix ?A) (init_vector ?b))"
    by (simp add: build_convex_polytope_def)
  let ?minus = "\<lambda>v d. RealExpr None (BinaryOperation OpSum (var_ref v) (RealExpr None (UnaryOperation OpNegate (real_lit (Fin d)))))"
  let ?plus = "\<lambda>v d. RealExpr None (BinaryOperation OpSum (var_ref v) (real_lit (Fin d)))"
  let ?rect = "set_of_body (Rectangle [(?minus ''P'' dPdown, ?plus ''P'' dPup), (?minus ''Q'' dQdown, ?plus ''Q'' dQup)])"
  let ?common = "[?rect, set_of_body (disk_at_origin (Fin S))]"
  have rect: "den_set exact ?env ?rect [Fin x, Fin y] = Inr (between (p - dPdown) (p + dPup) x \<and> between (q - dQdown) (q + dQup) y)"
    by (simp add: rguard_def lookup_or_def in_bounds_shifted del: dneg.simps)
  have built: "uncontrollable_belief exact chk (Fin S) (Fin dPup) (Fin dPdown) (Fin dQup) (Fin dQdown) ty (Fin gap) =
      Inr (set_of_body (Intersection (if ty = Bidirectional then ?common else ?common @ [?half])))"
    using poly by (simp add: uncontrollable_belief_def build_real_expr_def expr_defs sgn_def if_distrib [of Fin])
  show ?thesis
  proof (cases "ty = Bidirectional")
    case True
    with built rect den_disk show ?thesis
      by (simp add: den_intersection in_half_def del: den_set.simps) (auto simp: disk_at_origin_def)
  next
    case False
    then have "sgn * x \<le> gap \<longleftrightarrow> in_half ty gap x" by (cases ty) (auto simp: sgn_def in_half_def)
    with False built rect den_disk half show ?thesis
      by (simp add: den_intersection del: den_set.simps) (auto simp: disk_at_origin_def init_matrix_def init_vector_def)
  qed
qed

text \<open>C15: In exact arithmetic, a receiver of the advertisement of an uncontrollable resource that tests the belief function for the setpoint \<open>(p, q)\<close> accepts exactly the points within the given deviations of \<open>(p, q)\<close> that lie in the disk of radius \<open>Srated\<close>, and for a load in the half-plane of real power at most \<open>Pgap\<close>, for a generator of real power at least \<open>- Pgap\<close>; the cost is 0 everywhere.\<close>

theorem uncontrollable_meaning:
  "\<exists>a t u. uncontrollable_resource exact chk Pexp Qexp (Fin S) (Fin dPup) (Fin dPdown) (Fin dQup) (Fin dQdown) Pimp Qimp ty (Fin gap)
      empty_adv = Inr a \<and>
    received a (test_membership exact (30 + n) (get_belief_function a) [Fin x, Fin y] [''P'' \<mapsto> Fin p, ''Q'' \<mapsto> Fin q]) =
      Some (Inr (between (p - dPdown) (p + dPup) x \<and> between (q - dQdown) (q + dQup) y \<and> x\<^sup>2 + y\<^sup>2 \<le> S\<^sup>2 \<and>
        (case ty of LoadResource \<Rightarrow> x \<le> gap | GeneratorResource \<Rightarrow> - gap \<le> x | Bidirectional \<Rightarrow> True)), t) \<and>
    received a (evaluate exact (1 + n) (get_cost_function a) [''P'' \<mapsto> Fin x, ''Q'' \<mapsto> Fin y]) = Some (Inr (Fin 0), u)"
proof -
  obtain st where st: "uncontrollable_belief exact chk (Fin S) (Fin dPup) (Fin dPdown) (Fin dQup) (Fin dQdown) ty (Fin gap) = Inr st"
      "ref_free_set st" "calls_set st \<le> 30" "length (nodes_set st) \<le> 30" "den_set exact [''P'' \<mapsto> Fin p, ''Q'' \<mapsto> Fin q] st [Fin x, Fin y] =
      Inr (between (p - dPdown) (p + dPup) x \<and> between (q - dQdown) (q + dQup) y \<and> x\<^sup>2 + y\<^sup>2 \<le> S\<^sup>2 \<and> in_half ty gap x)"
    using uncontrollable_belief_den by blast
  let ?a = "(set_impl_setpoint Pimp Qimp empty_adv)\<lparr>pQProfile := Some (set_of_body (Singleton [real_lit Pexp, real_lit Qexp])),
      beliefFunction := Some st, costFunction := Some (real_lit (Fin 0))\<rparr>"
  have a: "uncontrollable_resource exact chk Pexp Qexp (Fin S) (Fin dPup) (Fin dPdown) (Fin dQup) (Fin dQdown) Pimp Qimp ty (Fin gap)
      empty_adv = Inr ?a"
    by (simp add: uncontrollable_resource_def st)
  have nodes: "length (profile_nodes ?a) \<le> 10000" "length (belief_nodes ?a) \<le> 10000" "length (cost_nodes ?a) \<le> 10000"
    using st(4) by (simp_all add: profile_nodes_def belief_nodes_def cost_nodes_def)
  have belief: "get_belief_function ?a = st" and cost: "get_cost_function ?a = real_lit (Fin 0)"
    by (simp_all add: get_belief_function_def get_cost_function_def)
  have "calls_set st \<le> min (30 + n) 10000" using st(3) by simp
  from received_membership [OF nodes st(2) this, of exact "[Fin x, Fin y]" "[''P'' \<mapsto> Fin p, ''Q'' \<mapsto> Fin q]"]
    received_evaluate [OF nodes, of "real_lit (Fin 0)" "1 + n" exact "[''P'' \<mapsto> Fin x, ''Q'' \<mapsto> Fin y]"]
  show ?thesis using a belief cost st(5) by (auto simp: in_half_def)
qed

end
