(* ===== verification/Hlapi_Zenone.thy ===== *)
theory Hlapi_Zenone imports Hlapi_Discrete Interp_Inline begin

text \<open>
  The belief function of the Zenone load emulator, in exact arithmetic: a box that three times
  refers to a named case distinction inside it, which the receiver resolves through the reference
  maps that \<open>setAdv\<close> fills.
\<close>

section \<open>Inlining leaves expressions without references unchanged\<close>

lemma map_body_id:
  "(\<And>e. e \<in> set (real_parts b) \<Longrightarrow> f e = e) \<Longrightarrow> (\<And>st. st \<in> set (set_parts b) \<Longrightarrow> g st = st) \<Longrightarrow> map_body f g b = b"
  by (cases b) (force intro!: map_idI)+

lemma map_sbody_id:
  "(\<And>e. e \<in> set (real_sparts b) \<Longrightarrow> f e = e) \<Longrightarrow> (\<And>st. st \<in> set (set_sparts b) \<Longrightarrow> g st = st) \<Longrightarrow> map_sbody f g b = b"
  by (cases b) (force intro!: map_idI simp: map_idI)+

lemma cost_body_cong:
  "(\<And>e. e \<in> set (real_parts b) \<Longrightarrow> f e = f' e) \<Longrightarrow> (\<And>st. st \<in> set (set_parts b) \<Longrightarrow> g st = g' st) \<Longrightarrow>
    cost_body f g b = cost_body f' g' b"
  by (cases b) (force intro!: arg_cong [of _ _ sum_list])+

lemma cost_sbody_cong:
  "(\<And>e. e \<in> set (real_sparts b) \<Longrightarrow> f e = f' e) \<Longrightarrow> (\<And>st. st \<in> set (set_sparts b) \<Longrightarrow> g st = g' st) \<Longrightarrow>
    cost_sbody f g b = cost_sbody f' g' b"
  by (cases b) (force intro!: arg_cong [of _ _ sum_list] arg_cong2 [of _ _ _ _ "(+)"])+

lemma inline_ref_free:
  "(\<forall>e. ref_free_real e \<longrightarrow> inline_real rr sr k e = e \<and> ref_calls_real rr sr k e = calls_real e) \<and>
   (\<forall>st. ref_free_set st \<longrightarrow> inline_set rr sr k st = st \<and> ref_calls_set rr sr k st = calls_set st)"
proof (induction k)
  case (Suc k)
  have real: "inline_real rr sr (Suc k) e = e \<and> ref_calls_real rr sr (Suc k) e = calls_real e" if e: "ref_free_real e" for e
  proof (cases e)
    case (RealExpr nm b)
    with e have "ref_free_real_body b" by simp
    from ref_free_parts(1) [OF this] Suc.IH have "map_body (inline_real rr sr k) (inline_set rr sr k) b = b"
        "cost_body (ref_calls_real rr sr k) (ref_calls_set rr sr k) b = cost_body calls_real calls_set b"
      by (auto intro!: map_body_id cost_body_cong)
    with RealExpr e show ?thesis by (cases b) simp_all
  qed
  have set: "inline_set rr sr (Suc k) st = st \<and> ref_calls_set rr sr (Suc k) st = calls_set st" if st: "ref_free_set st" for st
  proof (cases st)
    case (SetExpr nm b)
    with st have "ref_free_set_body b" by simp
    from ref_free_parts(2) [OF this] Suc.IH have "map_sbody (inline_real rr sr k) (inline_set rr sr k) b = b"
        "cost_sbody (ref_calls_real rr sr k) (ref_calls_set rr sr k) b = cost_sbody calls_real calls_set b"
      by (auto intro!: map_sbody_id cost_sbody_cong)
    with SetExpr st show ?thesis by (cases b) simp_all
  qed
  from real set show ?case by blast
qed simp

lemmas inline_id = inline_ref_free [THEN conjunct1, rule_format] inline_ref_free [THEN conjunct2, rule_format]

section \<open>A receiver that follows references\<close>

lemma received_inlined:
  assumes "length (profile_nodes a) \<le> 10000" "length (belief_nodes a) \<le> 10000" "length (cost_nodes a) \<le> 10000"
    and "rr = map_of (rev (concat (map named_real (adv_nodes a))))" "sr = map_of (rev (concat (map named_set (adv_nodes a))))"
    and "ref_free_set (inline_set rr sr k st)" "ref_calls_set rr sr k st \<le> min n 10000"
  shows "\<exists>t. received a (test_membership M n st pt env) = Some (den_set M env (inline_set rr sr k st) pt, t)"
proof -
  obtain s where "set_adv a new_advfunc = Some (Inr (), s)" "adv_valid s" "real_refs s = rr" "set_refs s = sr"
    using set_adv_run [OF assms(1-3)] assms(4,5) by simp
  then show ?thesis
    using membership_inlined [of s k st n M pt env] assms(6,7) by (auto simp: received_def run_simps)
qed

section \<open>The Zenone emulator\<close>

text \<open>The box for the case distinction \<open>c\<close>, with \<open>x\<close> in the places where it is referred to.\<close>

definition zenone_box :: "real_expr \<Rightarrow> real_expr \<Rightarrow> set_expr" where
  "zenone_box c x = set_of_body (Rectangle
     [(c, RealExpr None (BinaryOperation OpSum (RealExpr None (BinaryOperation OpProd (real_lit (Fin (249 / 250))) x)) (real_lit (Fin 100)))),
      (RealExpr None (BinaryOperation OpSum (RealExpr None (BinaryOperation OpProd (real_lit (Fin (19 / 200))) x))
         (RealExpr None (UnaryOperation OpNegate (real_lit (Fin 150))))),
       RealExpr None (BinaryOperation OpSum (RealExpr None (BinaryOperation OpProd (real_lit (Fin (9 / 100))) x))
         (RealExpr None (UnaryOperation OpNegate (real_lit (Fin 40))))))])"

lemma zenone_belief_box:
  "rounding_cases exact chk st err pmin pmax = Inr cs \<Longrightarrow> zenone_belief exact chk st err pmin pmax =
    Inr (zenone_box (RealExpr (Some ''x'') (CaseDistinction [''P''] cs)) (RealExpr None (Reference ''x'')))"
  by (simp add: zenone_belief_def zenone_box_def build_real_expr_def expr_defs ddiv_def exact_rnd)

lemma inline_nodes:
  "inline_real rr sr (Suc k) (RealExpr nm (BinaryOperation op a b)) = RealExpr nm (BinaryOperation op (inline_real rr sr k a) (inline_real rr sr k b))"
  "rr r = Some c \<Longrightarrow> inline_real rr sr (Suc k) (RealExpr nm (Reference r)) = inline_real rr sr k c"
  "inline_set rr sr (Suc k) (SetExpr nm (Rectangle bs)) =
    SetExpr nm (Rectangle (map (\<lambda>(a, b). (inline_real rr sr k a, inline_real rr sr k b)) bs))"
  "ref_calls_real rr sr (Suc k) (RealExpr nm (BinaryOperation op a b)) = Suc (ref_calls_real rr sr k a + ref_calls_real rr sr k b)"
  "rr r = Some c \<Longrightarrow> ref_calls_real rr sr (Suc k) (RealExpr nm (Reference r)) = Suc (ref_calls_real rr sr k c)"
  "ref_calls_set rr sr (Suc k) (SetExpr nm (Rectangle bs)) =
    Suc (sum_list (map (\<lambda>(a, b). ref_calls_real rr sr k a + ref_calls_real rr sr k b) bs))"
  by simp_all

lemma inline_zenone_box:
  assumes "rr ''x'' = Some c" "ref_free_real c"
  shows "inline_set rr sr 5 (zenone_box c (RealExpr None (Reference ''x''))) = zenone_box c c"
    and "ref_calls_set rr sr 5 (zenone_box c (RealExpr None (Reference ''x''))) \<le> 30 + 4 * calls_real c"
    and "ref_free_set (zenone_box c c)"
  using assms
  by (simp_all add: zenone_box_def numeral_eq_Suc inline_id inline_nodes
      del: inline_real.simps inline_set.simps ref_calls_real.simps ref_calls_set.simps)

lemma zenone_box_den:
  assumes "den_real exact env c = Inr r" "has_val r v"
  shows "den_set exact env (zenone_box c c) [Fin x, Fin y] =
    Inr (between v (249 / 250 * v + 100) x \<and> between (19 / 200 * v - 150) (9 / 100 * v - 40) y)"
proof -
  have "has_val (dadd exact (dmul exact (Fin (249 / 250)) r) (Fin 100)) (249 / 250 * v + 100)"
    "has_val (dadd exact (dmul exact (Fin (19 / 200)) r) (dneg (Fin 150))) (19 / 200 * v + - 150)"
    "has_val (dadd exact (dmul exact (Fin (9 / 100)) r) (dneg (Fin 40))) (9 / 100 * v + - 40)"
    by (intro val_intros assms(2))+
  note bounds = in_bounds_has_val [OF has_val_Fin assms(2) this(1)] in_bounds_has_val [OF has_val_Fin this(2,3)]
  show ?thesis
    by (simp add: zenone_box_def rguard_def assms(1) bounds del: dneg.simps)
qed

text \<open>C16: In exact arithmetic, a receiver of the advertisement of the Zenone load emulator finds as belief about a request \<open>(p, q)\<close> the box of real powers between \<open>v\<close> and \<open>0.996 * v + 100\<close> and of reactive powers between \<open>0.095 * v - 150\<close> and \<open>0.09 * v - 40\<close>, where \<open>v\<close> is the request rounded as for a uniform discrete device: \<open>Pmin\<close> below \<open>Pmin\<close> plus the error, \<open>Pmax\<close> above \<open>Pmax\<close> plus the error, and otherwise a setpoint \<open>Pmin + k * step\<close> at most half a step from \<open>p\<close> minus the error. The references to \<open>v\<close> in the message are resolved by \<open>setAdv\<close>.\<close>

theorem zenone_meaning:
  assumes "0 < step"
  shows "\<exists>a t v. zenone_advertisement exact chk (Fin pmin) (Fin pmax) (Fin step) (Fin err) (Fin alpha) (Fin beta)
      Pimp Qimp empty_adv = Inr a \<and>
    received a (test_membership exact (150 + n) (get_belief_function a) [Fin x, Fin y] [''P'' \<mapsto> Fin p, ''Q'' \<mapsto> Fin q]) =
      Some (Inr (between v (249 / 250 * v + 100) x \<and> between (19 / 200 * v - 150) (9 / 100 * v - 40) y), t) \<and>
    (if p \<le> pmin + err then v = pmin else if pmax + err \<le> p then v = pmax
     else (\<exists>k. v = pmin + of_int k * step) \<and> \<bar>v - (p - err)\<bar> \<le> step / 2)"
proof -
  let ?env = "[''P'' \<mapsto> Fin p, ''Q'' \<mapsto> Fin q]"
  obtain cs where cs: "rounding_cases exact chk (Fin step) (Fin err) (Fin pmin) (Fin pmax) = Inr cs"
    by (simp add: rounding_cases_def build_real_expr_def expr_defs)
  let ?c = "RealExpr (Some ''x'') (CaseDistinction [''P''] cs)" and ?r = "RealExpr None (Reference ''x'')"
  note parts = rounding_cases_den [OF cs]
  obtain r v where r: "den_real exact ?env ?c = Inr r" "has_val r v"
      "if p \<le> pmin + err then v = pmin else if pmax + err \<le> p then v = pmax
       else (\<exists>k. v = pmin + of_int k * step) \<and> \<bar>v - (p - err)\<bar> \<le> step / 2"
    using parts(1) [of p q] round_value_near [OF assms, of err pmin p] has_val_Fin [of pmin] has_val_Fin [of pmax]
    by (fastforce split: if_splits)
  obtain e where e: "normalized_cost exact (Fin beta) (Fin alpha) = Inr e" "length (nodes_real e) = 1"
      "concat (map named_real (nodes_real e)) = []"
    using normalized_cost_den by blast
  let ?st = "zenone_box ?c ?r"
  let ?a = "set_impl_setpoint Pimp Qimp (empty_adv\<lparr>
     pQProfile := Some (set_of_body (Rectangle [(real_lit (Fin pmin), real_lit (Fin pmax)), (real_lit (Fin 0), real_lit (Fin 0))])),
     beliefFunction := Some ?st, costFunction := Some e\<rparr>)"
  have a: "zenone_advertisement exact chk (Fin pmin) (Fin pmax) (Fin step) (Fin err) (Fin alpha) (Fin beta) Pimp Qimp empty_adv = Inr ?a"
    by (simp add: zenone_advertisement_def discrete_device_def zenone_belief_box [OF cs] e)
  have names: "concat (map named_real (nodes_set ?st)) = [(''x'', ?c)]" and len: "length (nodes_set ?st) \<le> 60"
    using cs by (auto simp: zenone_box_def rounding_cases_def build_real_expr_def expr_defs add_case_def simp del: dneg.simps)
  have nodes: "length (profile_nodes ?a) \<le> 10000" "length (belief_nodes ?a) \<le> 10000" "length (cost_nodes ?a) \<le> 10000"
    using e len by (simp_all add: profile_nodes_def belief_nodes_def cost_nodes_def set_impl_setpoint_def)
  define rr where "rr = map_of (rev (concat (map named_real (adv_nodes ?a))))"
  define sr where "sr = map_of (rev (concat (map named_set (adv_nodes ?a))))"
  have refs: "rr ''x'' = Some ?c"
    by (simp add: rr_def e(3) names adv_nodes_def profile_nodes_def belief_nodes_def cost_nodes_def set_impl_setpoint_def)
  have free: "ref_free_real ?c" "calls_real ?c \<le> 30" using parts(2,3) by simp_all
  note inline = inline_zenone_box(1,2) [where rr = rr and c = ?c and sr = sr, OF refs free(1)]
    inline_zenone_box(3) [where rr = rr and c = ?c, OF refs free(1)]
  have "ref_free_set (inline_set rr sr 5 ?st)" using inline(1,3) by simp
  moreover have "ref_calls_set rr sr 5 ?st \<le> min (150 + n) 10000" using inline(2) free(2) by simp
  ultimately obtain t where "received ?a (test_membership exact (150 + n) ?st [Fin x, Fin y] ?env) =
      Some (den_set exact ?env (zenone_box ?c ?c) [Fin x, Fin y], t)"
    using received_inlined [OF nodes rr_def sr_def, of 5 ?st "150 + n" exact "[Fin x, Fin y]" ?env] inline(1) by auto
  moreover have "get_belief_function ?a = ?st" by (simp add: get_belief_function_def set_impl_setpoint_def)
  ultimately have run: "received ?a (test_membership exact (150 + n) (get_belief_function ?a) [Fin x, Fin y] ?env) =
      Some (Inr (between v (249 / 250 * v + 100) x \<and> between (19 / 200 * v - 150) (9 / 100 * v - 40) y), t)"
    using zenone_box_den [OF r(1,2), of x y] by (simp only:)
  show ?thesis by (intro exI conjI) (rule a, rule run, rule r(3))
qed

text \<open>A request of 4.5 on a grid of step 2 is rounded to 4.\<close>

theorem zenone_meaning_witness:
  "\<exists>a t. zenone_advertisement exact True (Fin 0) (Fin 10) (Fin 2) (Fin 0) (Fin 0) (Fin 0) (Fin 0) (Fin 0) empty_adv = Inr a \<and>
    received a (test_membership exact 150 (get_belief_function a) [Fin 50, Fin (- 100)] [''P'' \<mapsto> Fin (9 / 2), ''Q'' \<mapsto> Fin 0]) =
      Some (Inr True, t)"
proof -
  obtain a t v where v: "zenone_advertisement exact True (Fin 0) (Fin 10) (Fin 2) (Fin 0) (Fin 0) (Fin 0) (Fin 0) (Fin 0) empty_adv = Inr a"
    "received a (test_membership exact (150 + 0) (get_belief_function a) [Fin 50, Fin (- 100)] [''P'' \<mapsto> Fin (9 / 2), ''Q'' \<mapsto> Fin 0]) =
      Some (Inr (between v (249 / 250 * v + 100) 50 \<and> between (19 / 200 * v - 150) (9 / 100 * v - 40) (- 100)), t)"
    "\<bar>v - (9 / 2)\<bar> \<le> 1"
    using zenone_meaning [of 2 True 0 10 0 0 0 "Fin 0" "Fin 0" 0 50 "- 100" "9 / 2" 0] by auto
  then have "between v (249 / 250 * v + 100) 50 \<and> between (19 / 200 * v - 150) (9 / 100 * v - 40) (- 100)"
    by (auto simp: between_def)
  with v show ?thesis by auto
qed

end
