(* ===== verification/Daemon_Coroutines.thy ===== *)
theory Daemon_Coroutines imports Daemon_Relay Daemon_Main begin

text \<open>
  \<open>commelec-api/coroutine-exception.hpp\<close>: how an exception leaves a coroutine, on ARM and on the
  other architectures, and what becomes of the daemon then: on the others its process ends, on ARM
  only the listener ends in which the exception occurred.
\<close>

section \<open>Exceptions that leave a coroutine\<close>

text \<open>
  What can be thrown: the exception that destroys a coroutine, the exceptions of the development's
  errors, and pointers to either. A function returns, throws, or ends the process without a handler
  being run.
\<close>

datatype thrown = Forced_Unwind | Thrown error | Exception_Ptr thrown

datatype ending = Returned | Threw thrown | Killed error

definition ending_of :: "error \<Rightarrow> ending" where
  "ending_of e = (if is_exception e then Threw (Thrown e) else Killed e)"

text \<open>The object that Boost's pointer refers to is the standard library's pointer.\<close>

definition convertExceptionPtr :: "thrown \<Rightarrow> thrown" where
  "convertExceptionPtr ex = Exception_Ptr ex"

definition rethrow_boost_compatible_exception_pointer :: "thrown \<Rightarrow> ending" where
  "rethrow_boost_compatible_exception_pointer current = Threw (convertExceptionPtr current)"

fun spawn_coroutine :: "ending \<Rightarrow> ending" where
  "spawn_coroutine (Threw Forced_Unwind) = Threw Forced_Unwind"
| "spawn_coroutine (Threw ex) = rethrow_boost_compatible_exception_pointer ex"
| "spawn_coroutine r = r"

fun spawn_coroutine_arm :: "ending \<Rightarrow> ending" where
  "spawn_coroutine_arm (Threw Forced_Unwind) = Threw Forced_Unwind"
| "spawn_coroutine_arm (Threw ex) = Returned"
| "spawn_coroutine_arm r = r"

definition spawned :: "bool \<Rightarrow> ending \<Rightarrow> ending" where
  "spawned arm = (if arm then spawn_coroutine_arm else spawn_coroutine)"

section \<open>The process\<close>

text \<open>
  The coroutines that still exist and the state they share, or the end of the process. What an ended
  coroutine leaves in its part of the state is not read any more.
\<close>

datatype side = GA_Side | RA_Side

datatype 'ep process = Live "side set" "'ep daemon" | Exited int | Aborted

text \<open>The handlers around \<open>io_service.run()\<close> in \<open>main\<close>; the one for pointers does not exist on ARM.\<close>

fun main_catches :: "bool \<Rightarrow> thrown \<Rightarrow> 'ep process" where
  "main_catches arm (Thrown e) = (case startup_failure e :: unit startup of Exit n \<Rightarrow> Exited n | _ \<Rightarrow> Aborted)"
| "main_catches arm (Exception_Ptr (Thrown e)) =
     (if arm then Aborted else case coroutine_failure e :: unit startup of Exit n \<Rightarrow> Exited n | _ \<Rightarrow> Aborted)"
| "main_catches arm _ = Aborted"

text \<open>A coroutine ends; \<open>run()\<close> returns when none is left.\<close>

definition coroutine_ends :: "bool \<Rightarrow> side \<Rightarrow> ending \<Rightarrow> side set \<Rightarrow> 'ep daemon \<Rightarrow> 'ep process" where
  "coroutine_ends arm sd r alive s = (case r of
     Returned \<Rightarrow> (if alive - {sd} = {} then Exited 0 else Live (alive - {sd}) s)
   | Threw ex \<Rightarrow> main_catches arm ex
   | Killed e \<Rightarrow> Aborted)"

text \<open>The coroutine that an event belongs to.\<close>

fun event_of :: "'ep daemon \<Rightarrow> side \<Rightarrow> 'ep event \<Rightarrow> bool" where
  "event_of s sd (From_GA p) \<longleftrightarrow> sd = GA_Side"
| "event_of s sd (To_RA ep bs) \<longleftrightarrow> sd = GA_Side"
| "event_of s sd (From_RA p) \<longleftrightarrow> sd = RA_Side"
| "event_of s sd (To_GA ep bs) \<longleftrightarrow> sd = RA_Side"
| "event_of s sd Failed \<longleftrightarrow> (if sd = GA_Side then ga_task s else ra_task s) \<noteq> Receiving"

inductive process_step :: "bool \<Rightarrow> env \<Rightarrow> 'ep config \<Rightarrow> 'ep process \<Rightarrow> 'ep event \<Rightarrow> 'ep process \<Rightarrow> bool" for arm E cfg where
  goes_on: "sd \<in> alive \<Longrightarrow> event_of s sd ev \<Longrightarrow> daemon_step E cfg (Running s) ev (Running t) \<Longrightarrow>
    process_step arm E cfg (Live alive s) ev (Live alive t)"
| throws: "sd \<in> alive \<Longrightarrow> event_of s sd ev \<Longrightarrow> daemon_step E cfg (Running s) ev (Stopped e) \<Longrightarrow>
    process_step arm E cfg (Live alive s) ev (coroutine_ends arm sd (spawned arm (ending_of e)) alive s)"

inductive process_run :: "bool \<Rightarrow> env \<Rightarrow> 'ep config \<Rightarrow> 'ep process \<Rightarrow> 'ep event list \<Rightarrow> 'ep process \<Rightarrow> bool" for arm E cfg where
  no_event: "process_run arm E cfg c [] c"
| event: "process_run arm E cfg c evs c' \<Longrightarrow> process_step arm E cfg c' ev c'' \<Longrightarrow> process_run arm E cfg c (evs @ [ev]) c''"

inductive_cases process_stepE: "process_step arm E cfg (Live alive s) ev c"

lemma side_UNIV: "sd \<in> (UNIV :: side set)" "(UNIV :: side set) = {GA_Side, RA_Side}"
  using side.exhaust by auto

lemma ending_of_simps:
  "is_exception e \<Longrightarrow> spawned False (ending_of e) = Threw (Exception_Ptr (Thrown e))"
  "is_exception e \<Longrightarrow> spawned True (ending_of e) = Returned"
  "\<not> is_exception e \<Longrightarrow> spawned arm (ending_of e) = Killed e"
  by (simp_all add: ending_of_def spawned_def rethrow_boost_compatible_exception_pointer_def convertExceptionPtr_def)

section \<open>Other architectures than ARM\<close>

text \<open>The process stops with the first exception, and then returns 0.\<close>

lemma step_has_side: "daemon_step E cfg (Running s) ev c \<Longrightarrow> \<exists>sd. event_of s sd ev"
  by (cases rule: daemon_step.cases, assumption) (auto intro: exI [of _ GA_Side] exI [of _ RA_Side])

lemma ends_elsewhere:
  "coroutine_ends False sd (spawned False (ending_of e)) alive s = (if is_exception e then Exited 0 else Aborted)"
  by (simp add: coroutine_ends_def ending_of_simps coroutine_failure_def)

lemma process_elsewhere:
  "process_step False E cfg (Live UNIV s) ev c \<longleftrightarrow> (\<exists>d. daemon_step E cfg (Running s) ev d \<and>
     c = (case d of Running t \<Rightarrow> Live UNIV t | Stopped e \<Rightarrow> if is_exception e then Exited 0 else Aborted))"
proof
  assume "process_step False E cfg (Live UNIV s) ev c"
  then show "\<exists>d. daemon_step E cfg (Running s) ev d \<and>
     c = (case d of Running t \<Rightarrow> Live UNIV t | Stopped e \<Rightarrow> if is_exception e then Exited 0 else Aborted)"
    by (cases rule: process_stepE) (auto simp: ends_elsewhere intro: exI [of _ "Running _"] exI [of _ "Stopped _"])
next
  assume "\<exists>d. daemon_step E cfg (Running s) ev d \<and>
     c = (case d of Running t \<Rightarrow> Live UNIV t | Stopped e \<Rightarrow> if is_exception e then Exited 0 else Aborted)"
  then obtain d where d: "daemon_step E cfg (Running s) ev d"
      "c = (case d of Running t \<Rightarrow> Live UNIV t | Stopped e \<Rightarrow> if is_exception e then Exited 0 else Aborted)" by blast
  obtain sd where "event_of s sd ev" using step_has_side [OF d(1)] by blast
  with d show "process_step False E cfg (Live UNIV s) ev c"
    using goes_on [of sd UNIV s ev] throws [of sd UNIV s ev E cfg _ False] by (cases d) (auto simp: ends_elsewhere)
qed

section \<open>ARM\<close>

lemma arm_ends:
  "coroutine_ends True sd (spawned True (ending_of e)) alive s =
    (if is_exception e then if alive - {sd} = {} then Exited 0 else Live (alive - {sd}) s else Aborted)"
  by (simp add: coroutine_ends_def ending_of_simps)

text \<open>What a listener has done is not touched by the other one.\<close>

lemma event_side:
  "event_of s RA_Side ev \<Longrightarrow> from_GA [ev] = [] \<and> to_RA [ev] = []"
  "event_of s GA_Side ev \<Longrightarrow> from_RA [ev] = [] \<and> to_GA [ev] = []"
  by (cases ev; simp)+

lemma served_same_trace:
  "from_GA [ev] = [] \<Longrightarrow> to_RA [ev] = [] \<Longrightarrow> ga_served E cfg junk (evs @ [ev]) s = ga_served E cfg junk evs s"
  "from_RA [ev] = [] \<Longrightarrow> to_GA [ev] = [] \<Longrightarrow> ra_served E cfg (evs @ [ev]) s = ra_served E cfg evs s"
  by (simp_all add: ga_served_def ra_served_def del: from_GA.simps to_RA.simps from_RA.simps to_GA.simps)

definition alive_served :: "env \<Rightarrow> 'ep config \<Rightarrow> byte list \<Rightarrow> 'ep event list \<Rightarrow> side set \<Rightarrow> 'ep daemon \<Rightarrow> bool" where
  "alive_served E cfg junk evs alive s \<longleftrightarrow>
     (GA_Side \<in> alive \<longrightarrow> ga_served E cfg junk evs s) \<and> (RA_Side \<in> alive \<longrightarrow> ra_served E cfg evs s)"

lemma arm_step_serves:
  assumes "process_step True E cfg (Live alive s) ev (Live alive' t)" "alive_served E cfg junk evs alive s"
  shows "alive_served E cfg junk (evs @ [ev]) alive' t"
  using assms(1)
proof (cases rule: process_step.cases)
  case (goes_on sd)
  then show ?thesis using assms(2) by (auto simp: alive_served_def intro: ga_step_serves ra_step_serves)
next
  case (throws sd e)
  then have t: "alive' = alive - {sd}" "t = s" by (auto simp: arm_ends split: if_splits)
  have "ga_served E cfg junk (evs @ [ev]) s = ga_served E cfg junk evs s" if "sd = RA_Side"
    using event_side(1) [of s ev] throws that by (intro served_same_trace) auto
  moreover have "ra_served E cfg (evs @ [ev]) s = ra_served E cfg evs s" if "sd = GA_Side"
    using event_side(2) [of s ev] throws that by (intro served_same_trace) auto
  ultimately show ?thesis using assms(2) t by (cases sd) (auto simp: alive_served_def)
qed

lemma no_step_after_end:
  "\<not> process_step arm E cfg (Exited n) ev c" "\<not> process_step arm E cfg Aborted ev c"
  by (auto elim: process_step.cases)

lemma run_from_live:
  "process_run arm E cfg c evs c' \<Longrightarrow> process_step arm E cfg c' ev c'' \<Longrightarrow> \<exists>alive s. c' = Live alive s"
  by (cases c') (auto simp: no_step_after_end)

lemma arm_run_serves:
  "process_run True E cfg c evs c' \<Longrightarrow> c = Live UNIV (start_daemon junk) \<Longrightarrow> c' = Live alive s \<Longrightarrow>
    alive_served E cfg junk evs alive s"
proof (induction arbitrary: alive s rule: process_run.induct)
  case (no_event c)
  then show ?case by (auto simp: alive_served_def start_served)
next
  case (event c evs c' ev c'')
  from run_from_live [OF event(1,2)] obtain alive0 s0 where c': "c' = Live alive0 s0" by auto
  show ?case using arm_step_serves [OF event(2) [unfolded c' event.prems(2)] event.IH [OF event.prems(1) c']] .
qed

text \<open>An ended listener takes no further part.\<close>

definition silent :: "side set \<Rightarrow> 'ep event list \<Rightarrow> bool" where
  "silent alive evs \<longleftrightarrow> (GA_Side \<notin> alive \<longrightarrow> from_GA evs = [] \<and> to_RA evs = []) \<and>
     (RA_Side \<notin> alive \<longrightarrow> from_RA evs = [] \<and> to_GA evs = [])"

lemma arm_step_silent:
  assumes "process_step True E cfg (Live alive s) ev (Live alive' t)"
  shows "alive' \<subseteq> alive \<and> silent alive [ev]"
proof -
  from assms obtain sd where sd: "sd \<in> alive" "event_of s sd ev" and "alive' \<subseteq> alive"
    by (cases rule: process_stepE) (auto simp: arm_ends split: if_splits)
  moreover have "silent alive [ev]" using sd event_side [of s ev] by (cases sd) (auto simp: silent_def)
  ultimately show ?thesis by blast
qed

lemma silent_append: "silent alive evs \<Longrightarrow> silent alive evs' \<Longrightarrow> silent alive (evs @ evs')"
  by (auto simp: silent_def)

lemma silent_subset: "alive' \<subseteq> alive \<Longrightarrow> silent alive' evs \<Longrightarrow> silent alive evs"
  by (auto simp: silent_def)

lemma arm_run_silent:
  "process_run True E cfg c evs c' \<Longrightarrow> c = Live alive s \<Longrightarrow> c' = Live alive' t \<Longrightarrow> alive' \<subseteq> alive \<and> silent alive evs"
proof (induction arbitrary: alive' t rule: process_run.induct)
  case (no_event c)
  then show ?case by (auto simp: silent_def)
next
  case (event c evs c' ev c'')
  from run_from_live [OF event(1,2)] obtain alive0 s0 where c': "c' = Live alive0 s0" by auto
  have "alive0 \<subseteq> alive \<and> silent alive evs" by (rule event.IH [OF event.prems(1) c'])
  moreover have "alive' \<subseteq> alive0 \<and> silent alive0 [ev]" by (rule arm_step_silent [OF event(2) [unfolded c' event.prems(2)]])
  ultimately show ?case using silent_append [of alive evs "[ev]"] silent_subset [of alive0 alive "[ev]"] by auto
qed

text \<open>C20: On ARM the two listeners fail on their own. At any time, each listener that still exists has turned the packets of its side, in order, into payloads and sent them to all of its endpoints, whatever happened to the other one; but a listener in which an exception occurred never comes back: from then on the daemon neither receives a packet on that side nor forwards one, although its process goes on.\<close>

theorem arm_listener_ends_alone:
  assumes "process_run True E cfg (Live UNIV (start_daemon junk)) evs (Live alive s)"
    and "process_run True E cfg (Live alive s) evs' (Live alive' t)"
  shows "(GA_Side \<in> alive \<longrightarrow> (\<exists>requests. serve (ga_server E cfg) junk (from_GA evs) = Inr requests \<and>
      to_RA evs @ pending (ga_task s) = fan_out (req_endpoints cfg) requests)) \<and>
    (RA_Side \<in> alive \<longrightarrow> (\<exists>adverts. serve (ra_server E cfg) JNull (from_RA evs) = Inr adverts \<and>
      to_GA evs @ pending (ra_task s) = fan_out (adv_endpoints cfg) adverts)) \<and>
    alive' \<subseteq> alive \<and>
    (GA_Side \<notin> alive \<longrightarrow> from_GA evs' = [] \<and> to_RA evs' = []) \<and>
    (RA_Side \<notin> alive \<longrightarrow> from_RA evs' = [] \<and> to_GA evs' = [])"
  using arm_run_serves [OF assms(1) refl refl] arm_run_silent [OF assms(2) refl refl]
  by (auto simp: alive_served_def ga_served_def ra_served_def served_def silent_def)

text \<open>A packet of the resource agent that is no JSON text ends one listener; the other forwards a request.\<close>

abbreviation text_env :: env where
  "text_env \<equiv> one_message_env (Some \<lparr> agentId = 3, body = Request_Msg (Some \<lparr> setpoint = None \<rparr>) \<rparr>) None"

abbreviation battery_config :: "nat config" where
  "battery_config \<equiv> custom_config\<lparr>resource_type := Battery\<rparr>"

lemma deaf_run:
  "process_run True text_env battery_config (Live UNIV (start_daemon [0, 0])) [From_RA [5]] (Live {GA_Side} (start_daemon [0, 0]))"
  "process_run True text_env battery_config (Live {GA_Side} (start_daemon [0, 0])) [From_GA [1, 2]]
     (Live {GA_Side} ((start_daemon [0, 0])\<lparr>network_data := [1, 2], ga_task := Sending [9] None [1, 2]\<rparr>))"
proof -
  have "ra_payload text_env battery_config r JNull [5] = Some (Inl (Runtime_Error ''JSON object invalid''), JNull)" for r
    by (simp add: ra_payload_def one_message_env_def custom_config_def parse_into_def maxUDPsize_def Let_def)
  then have "daemon_step text_env battery_config (Running (start_daemon [0, 0])) (From_RA [5])
      (Stopped (Runtime_Error ''JSON object invalid''))"
    by (intro ra_throws) (simp_all add: start_daemon_def)
  from throws [OF _ _ this, of RA_Side UNIV True]
  have "process_step True text_env battery_config (Live UNIV (start_daemon [0, 0])) (From_RA [5]) (Live {GA_Side} (start_daemon [0, 0]))"
    by (simp add: arm_ends is_exception_def side_UNIV(2) insert_Diff_if)
  from event [OF no_event this] show "process_run True text_env battery_config (Live UNIV (start_daemon [0, 0])) [From_RA [5]]
      (Live {GA_Side} (start_daemon [0, 0]))" by simp
  have "ga_payload text_env battery_config b n = Inr [9]" for b n
    by (simp add: ga_payload_def one_message_env_def custom_config_def request_json_None)
  then have "daemon_step text_env battery_config (Running (start_daemon [0, 0])) (From_GA [1, 2])
      (Running ((start_daemon [0, 0])\<lparr>network_data := [1, 2], ga_task := sending [9] None (req_endpoints battery_config)\<rparr>))"
    by (intro ga_packet) (simp_all add: start_daemon_def receive_into_def overwrite_def)
  then have "process_step True text_env battery_config (Live {GA_Side} (start_daemon [0, 0])) (From_GA [1, 2])
      (Live {GA_Side} ((start_daemon [0, 0])\<lparr>network_data := [1, 2], ga_task := Sending [9] None [1, 2]\<rparr>))"
    by (intro goes_on [of GA_Side]) (simp_all add: sending_def custom_config_def)
  from event [OF no_event this] show "process_run True text_env battery_config (Live {GA_Side} (start_daemon [0, 0])) [From_GA [1, 2]]
      (Live {GA_Side} ((start_daemon [0, 0])\<lparr>network_data := [1, 2], ga_task := Sending [9] None [1, 2]\<rparr>))" by simp
qed

theorem arm_listener_ends_alone_witness:
  "process_run True text_env battery_config (Live UNIV (start_daemon [0, 0])) [From_RA [5]] (Live {GA_Side} (start_daemon [0, 0])) \<and>
   (\<exists>requests. serve (ga_server text_env battery_config) [0, 0] [] = Inr requests \<and> [] = fan_out [1 :: nat, 2] requests) \<and>
   from_RA [From_GA [1, 2] :: nat event] = [] \<and> to_GA [From_GA [1, 2] :: nat event] = []"
  using arm_listener_ends_alone [OF deaf_run] deaf_run(1) by (simp add: custom_config_def start_daemon_def)

end
