(* ===== verification/Daemon_Device.thy ===== *)
theory Daemon_Device imports Daemon_Relay begin

text \<open>
  From the packet of a resource agent to the interpreter of the grid agent: the parameters of a
  device pass through the JSON accessors, the builders, the packing policy and the socket, and mean
  to the receiver what they should.
\<close>

section \<open>A packet that becomes an advertisement\<close>

lemma ra_packet_sent:
  assumes "ra_task s = Receiving" "\<not> debug_mode cfg" "resource_type cfg \<noteq> Custom" "length p < 65536"
    and "json_parse (jlib E) (takeWhile (\<lambda>b. b \<noteq> 0) p) = Some d" "is_object d"
    and "ra_message (platf E) (cchecks E) (agent_id cfg) (resource_type cfg) d = Inr m"
    and "pol E = packed_policy lib" "packed_inverse lib m"
  shows "\<exists>bs. packed_reader lib bs = Some m \<and> daemon_step E cfg (Running s) (From_RA p)
    (Running (s\<lparr>document := d, ra_task := sending bs (Some (length bs)) (adv_endpoints cfg)\<rparr>))"
proof -
  obtain bs where bs: "packed_payload lib m = Inr (bs, length bs)" "packed_reader lib bs = Some m"
    using packed.payload_sized [OF assms(9)] by blast
  have "ra_payload E cfg (\<lambda>_ a _. a) (document s) p = Some (Inr (bs, Some (length bs)), d)"
    using assms bs(1)
    by (simp add: ra_payload_def Let_def maxUDPsize_def parse_into_def checked_payload_def debug_check_def packed_policy_def)
  from ra_packet [OF assms(1) this] bs(2) show ?thesis by blast
qed

lemma run_cons: "daemon_run E cfg c' evs c'' \<Longrightarrow> daemon_step E cfg c ev c' \<Longrightarrow> daemon_run E cfg c (ev # evs) c''"
proof (induction rule: daemon_run.induct)
  case (run_nil c')
  from run_snoc [OF daemon_run.run_nil run_nil] show ?case by simp
next
  case (run_snoc c' evs d ev' d')
  from daemon_run.run_snoc [OF run_snoc.IH [OF run_snoc.prems] run_snoc.hyps(2)] show ?case by simp
qed

lemma sends_all:
  "ra_task s = sending bs (Some (length bs)) eps \<Longrightarrow>
    daemon_run E cfg (Running s) (map (\<lambda>e. To_GA e bs) eps) (Running (s\<lparr>ra_task := Receiving\<rparr>))"
proof (induction eps arbitrary: s)
  case Nil
  then have "s\<lparr>ra_task := Receiving\<rparr> = s" by (simp add: sending_def)
  then show ?case by (simp add: run_nil)
next
  case (Cons e eps)
  let ?t = "s\<lparr>ra_task := sending bs (Some (length bs)) eps\<rparr>"
  have "daemon_step E cfg (Running s) (To_GA e bs) (Running ?t)"
    using Cons.prems by (intro ra_send [of _ _ _ _ _ "length bs"]) (auto simp: sending_def)
  moreover have "daemon_run E cfg (Running ?t) (map (\<lambda>e. To_GA e bs) eps) (Running (?t\<lparr>ra_task := Receiving\<rparr>))"
    by (rule Cons.IH) simp
  ultimately show ?case using run_cons by fastforce
qed

lemma packet_relayed:
  assumes "ra_task s = Receiving" "\<not> debug_mode cfg" "resource_type cfg \<noteq> Custom" "length p < 65536"
    and "json_parse (jlib E) (takeWhile (\<lambda>b. b \<noteq> 0) p) = Some d" "is_object d"
    and "ra_message (platf E) (cchecks E) (agent_id cfg) (resource_type cfg) d = Inr m"
    and "pol E = packed_policy lib" "packed_inverse lib m"
  shows "\<exists>bs. packed_reader lib bs = Some m \<and>
    daemon_run E cfg (Running s) (From_RA p # map (\<lambda>e. To_GA e bs) (adv_endpoints cfg)) (Running (s\<lparr>document := d\<rparr>))"
proof -
  obtain bs where bs: "packed_reader lib bs = Some m" "daemon_step E cfg (Running s) (From_RA p)
      (Running (s\<lparr>document := d, ra_task := sending bs (Some (length bs)) (adv_endpoints cfg)\<rparr>))"
    using ra_packet_sent [OF assms] by blast
  have "s\<lparr>document := d, ra_task := Receiving\<rparr> = s\<lparr>document := d\<rparr>" using assms(1) by simp
  with sends_all [of "s\<lparr>document := d, ra_task := sending bs (Some (length bs)) (adv_endpoints cfg)\<rparr>" bs "adv_endpoints cfg" E cfg]
  have "daemon_run E cfg (Running (s\<lparr>document := d, ra_task := sending bs (Some (length bs)) (adv_endpoints cfg)\<rparr>))
      (map (\<lambda>e. To_GA e bs) (adv_endpoints cfg)) (Running (s\<lparr>document := d\<rparr>))" by simp
  from run_cons [OF this bs(2)] bs(1) show ?thesis by blast
qed

section \<open>Batteries\<close>

text \<open>A JSON object with the parameters of a battery.\<close>

definition battery_document :: "json \<Rightarrow> real list \<Rightarrow> bool" where
  "battery_document d vs \<longleftrightarrow> is_object d \<and>
     map (getDouble exact d) [''Pmin'', ''Pmax'', ''Srated'', ''coeffP'', ''coeffPsquared'', ''Pimp'', ''Qimp''] =
     map (\<lambda>v. Inr (Fin v)) vs"

lemma battery_message:
  assumes "battery_document d [pmin, pmax, S, c1, c2, pimp, qimp]"
    and "battery_advertisement exact (Fin pmin) (Fin pmax) (Fin S) (Fin c1) (Fin c2) (Fin pimp) (Fin qimp) empty_adv = Inr a"
  shows "ra_message exact chk agent Battery d = Inr (adv_message agent a)"
  using assms by (simp add: battery_document_def ra_message_def create_adv_def create_batt_adv_def adv_message_def)

text \<open>C12: From the agent of a battery to the grid agent, in exact arithmetic: when the daemon of a battery, waiting for a packet, receives the JSON text of the battery's parameters, it can send one datagram to each of its advertisement endpoints and wait again; and from that datagram every receiver with the same message library reads a message with the daemon's agent id and an advertisement with the given implemented setpoint, whose PQ profile contains exactly the points of the disk of radius \<open>Srated\<close> with real power between \<open>Pmin\<close> and \<open>Pmax\<close> and whose cost is \<open>P^2/2 + coeffP/(2*coeffPsquared)*P\<close>, or 0 when the quadratic coefficient is at most \<open>10^-6\<close> in absolute value. This is the cost of the code, normalised by a Lipschitz constant; the comments of \<open>hlapi.h\<close> promise \<open>coeffPcubed*P^3 + coeffPsquared*P^2 + coeffP*P\<close> instead, which no receiver finds. Assumed are a message library whose reader inverts its writer on the message, a JSON library that parses the text, and no debug mode.\<close>

theorem battery_packet_meaning:
  assumes "ra_task s = Receiving" and "\<not> debug_mode cfg" and "resource_type cfg = Battery" and "length packet < 65536"
    and "platf E = exact" and "pol E = packed_policy lib"
    and "json_parse (jlib E) (takeWhile (\<lambda>b. b \<noteq> 0) packet) = Some d"
    and "battery_document d [pmin, pmax, S, c1, c2, pimp, qimp]"
    and "\<And>a. battery_advertisement exact (Fin pmin) (Fin pmax) (Fin S) (Fin c1) (Fin c2) (Fin pimp) (Fin qimp) empty_adv = Inr a \<Longrightarrow>
      packed_inverse lib (adv_message (agent_id cfg) a)"
  shows "\<exists>bs a.
    daemon_run E cfg (Running s) (From_RA packet # map (\<lambda>e. To_GA e bs) (adv_endpoints cfg)) (Running (s\<lparr>document := d\<rparr>)) \<and>
    packed_reader lib bs = Some \<lparr> agentId = agent_id cfg, body = Advertisement_Msg (Some a) \<rparr> \<and>
    implementedSetpoint a = [Fin pimp, Fin qimp] \<and>
    (\<forall>p q. \<exists>t r u.
      received a (test_membership exact (12 + n) (get_pq_profile a) [Fin p, Fin q] Map.empty) =
        Some (Inr (p\<^sup>2 + q\<^sup>2 \<le> S\<^sup>2 \<and> pmin \<le> p \<and> p \<le> pmax), t) \<and>
      received a (evaluate exact (1 + n) (get_cost_function a) [''P'' \<mapsto> Fin p, ''Q'' \<mapsto> Fin q]) = Some (Inr r, u) \<and>
      is_finite r \<and> val r = (if \<bar>c2\<bar> > 1 / 1000000 then p\<^sup>2 / 2 + c1 / (2 * c2) * p else 0))"
proof -
  obtain a where a: "battery_advertisement exact (Fin pmin) (Fin pmax) (Fin S) (Fin c1) (Fin c2) (Fin pimp) (Fin qimp) empty_adv = Inr a"
      "implementedSetpoint a = [Fin pimp, Fin qimp]"
    using battery_succeeds by blast
  have "is_object d" using assms(8) by (simp add: battery_document_def)
  moreover have "ra_message (platf E) (cchecks E) (agent_id cfg) (resource_type cfg) d = Inr (adv_message (agent_id cfg) a)"
    using battery_message [OF assms(8) a(1)] assms(3,5) by simp
  ultimately obtain bs where bs: "packed_reader lib bs = Some (adv_message (agent_id cfg) a)"
      "daemon_run E cfg (Running s) (From_RA packet # map (\<lambda>e. To_GA e bs) (adv_endpoints cfg)) (Running (s\<lparr>document := d\<rparr>))"
    using packet_relayed [OF assms(1,2) _ assms(4,7) _ _ assms(6) assms(9) [OF a(1)]] assms(3) by auto
  have "\<exists>t r u.
      received a (test_membership exact (12 + n) (get_pq_profile a) [Fin p, Fin q] Map.empty) =
        Some (Inr (p\<^sup>2 + q\<^sup>2 \<le> S\<^sup>2 \<and> pmin \<le> p \<and> p \<le> pmax), t) \<and>
      received a (evaluate exact (1 + n) (get_cost_function a) [''P'' \<mapsto> Fin p, ''Q'' \<mapsto> Fin q]) = Some (Inr r, u) \<and>
      is_finite r \<and> val r = (if \<bar>c2\<bar> > 1 / 1000000 then p\<^sup>2 / 2 + c1 / (2 * c2) * p else 0)" for p q
    using battery_advertisement_meaning [of pmin pmax S c1 c2 "Fin pimp" "Fin qimp" n p q] a(1) by (auto simp del: test_membership_def)
  with bs a(2) show ?thesis unfolding adv_message_def by blast
qed

text \<open>The battery whose parameters are all 1, with a library that carries its message.\<close>

theorem battery_packet_meaning_witness:
  "\<exists>m E bs a t. packed_policy (example_lib m) = pol E \<and>
    daemon_run E (custom_config\<lparr>resource_type := Battery\<rparr>) (Running (start_daemon [0])) [From_RA [9], To_GA 3 bs]
      (Running ((start_daemon [0])\<lparr>document := battery_params\<rparr>)) \<and>
    packed_reader (example_lib m) bs = Some \<lparr> agentId = 7, body = Advertisement_Msg (Some a) \<rparr> \<and>
    received a (test_membership exact 12 (get_pq_profile a) [Fin 1, Fin 0] Map.empty) = Some (Inr True, t)"
proof -
  obtain a where a: "battery_advertisement exact (Fin 1) (Fin 1) (Fin 1) (Fin 1) (Fin 1) (Fin 1) (Fin 1) empty_adv = Inr a"
    using battery_succeeds by blast
  let ?m = "adv_message 7 a" and ?cfg = "custom_config\<lparr>resource_type := Battery\<rparr>"
  let ?E = "(one_message_env None (Some battery_params))\<lparr>pol := packed_policy (example_lib ?m)\<rparr>"
  have doc: "battery_document battery_params [1, 1, 1, 1, 1, 1, 1]"
    by (simp add: battery_document_def battery_params_def json_get_defs)
  have inv: "packed_inverse (example_lib ?m) ?m"
    using example_lib_facts [of ?m] by (simp add: packed_inverse_def) (simp add: example_lib_def)
  obtain bs a' where run: "daemon_run ?E ?cfg (Running (start_daemon [0])) (From_RA [9] # map (\<lambda>e. To_GA e bs) (adv_endpoints ?cfg))
      (Running ((start_daemon [0])\<lparr>document := battery_params\<rparr>))"
    and reader: "packed_reader (example_lib ?m) bs = Some \<lparr> agentId = agent_id ?cfg, body = Advertisement_Msg (Some a') \<rparr>"
    and meaning: "\<forall>p q. \<exists>t r u. received a' (test_membership exact (12 + 0) (get_pq_profile a') [Fin p, Fin q] Map.empty) =
        Some (Inr (p\<^sup>2 + q\<^sup>2 \<le> 1\<^sup>2 \<and> 1 \<le> p \<and> p \<le> 1), t) \<and>
      received a' (evaluate exact (1 + 0) (get_cost_function a') [''P'' \<mapsto> Fin p, ''Q'' \<mapsto> Fin q]) = Some (Inr r, u) \<and>
      is_finite r \<and> val r = (if \<bar>1\<bar> > (1 / 1000000 :: real) then p\<^sup>2 / 2 + 1 / (2 * 1) * p else 0)"
    using battery_packet_meaning [of "start_daemon [0]" ?cfg "[9]" ?E "example_lib ?m" battery_params 1 1 1 1 1 1 1 0] doc inv a
    by (auto simp: start_daemon_def one_message_env_def custom_config_def)
  obtain t where "received a' (test_membership exact (12 + 0) (get_pq_profile a') [Fin 1, Fin 0] Map.empty) =
      Some (Inr ((1 :: real)\<^sup>2 + 0\<^sup>2 \<le> 1\<^sup>2 \<and> (1 :: real) \<le> 1 \<and> (1 :: real) \<le> 1), t)"
    using meaning by blast
  with run reader show ?thesis
    by (intro exI [of _ ?m] exI [of _ ?E] exI [of _ bs] exI [of _ a'] exI [of _ t]) (simp add: custom_config_def)
qed

end
