(* ===== verification/Proj_Ball.thy ===== *)
theory Proj_Ball imports Seidel_Exact Rect_Hull_Props begin

text \<open>
  Projection onto a ball, in exact arithmetic: a point outside is moved to the sphere along the line
  to the centre, which is the nearest point of the ball. The contract is that of the locale
  \<open>projection\<close>, interpreted here on balls.
\<close>

section \<open>Lists as vectors\<close>

lemma cauchy_schwarz_scaled:
  assumes "length u = length v" "inner v v \<le> r\<^sup>2" "inner u u = k\<^sup>2" "0 < k" "0 \<le> r"
  shows "inner u v \<le> r * k"
proof (cases "r = 0")
  case True
  have "inner v v = 0" using assms(2) True inner_self_nonneg [of v] by simp
  moreover have "inner v v = sq_dist_real v (map (\<lambda>_. 0) v)"
    by (induction v) (simp_all add: inner_def sq_dist_real_def power2_eq_square)
  ultimately have zero: "v = map (\<lambda>_. 0) v" using sq_dist_zero [of v "map (\<lambda>_. 0) v"] by simp
  have "inner u (map (\<lambda>_. 0) v) = 0"
    using assms(1) by (induction u v rule: list_induct2) (simp_all add: inner_def)
  then have "inner u v = 0" using zero by metis
  with True show ?thesis by simp
next
  case False
  have "(\<Sum>(a, b)\<leftarrow>zip u v. (r * a - k * b)\<^sup>2) = r\<^sup>2 * inner u u - 2 * r * k * inner u v + k\<^sup>2 * inner v v"
    using assms(1) by (induction u v rule: list_induct2) (simp_all add: inner_def power2_eq_square algebra_simps)
  moreover have "0 \<le> (\<Sum>(a, b)\<leftarrow>zip u v. (r * a - k * b)\<^sup>2)" by (intro sum_list_nonneg) auto
  moreover have "k\<^sup>2 * inner v v \<le> k\<^sup>2 * r\<^sup>2" using assms(2) by (intro mult_left_mono) simp_all
  ultimately have "2 * r * k * inner u v \<le> 2 * r * k * (r * k)"
    using assms(3) by (simp add: power2_eq_square algebra_simps)
  then show ?thesis using False assms(4,5) by simp
qed

section \<open>Balls\<close>

definition ball_mem :: "real list \<Rightarrow> real \<Rightarrow> real list \<Rightarrow> bool" where
  "ball_mem c r x \<longleftrightarrow> sq_dist_real c x \<le> r\<^sup>2"

definition ball_prj :: "real list \<Rightarrow> real \<Rightarrow> real list \<Rightarrow> real list" where
  "ball_prj c r x = (if ball_mem c r x then x
     else map2 (\<lambda>t u. t + r / sqrt (sq_dist_real c x) * u) c (map2 (-) x c))"

lemma sq_dist_sym: "length x = length y \<Longrightarrow> sq_dist_real x y = sq_dist_real y x"
  by (induction x y rule: list_induct2) (simp_all add: sq_dist_real_def power2_commute)

lemma inner_diff_self: "length x = length c \<Longrightarrow> inner (map2 (-) x c) (map2 (-) x c) = sq_dist_real c x"
  by (induction x c rule: list_induct2) (simp_all add: sq_dist_real_def inner_def power2_eq_square algebra_simps)

text \<open>The distances of the moved point, for a factor \<open>f\<close>.\<close>

lemma ball_step:
  assumes "length x = length c"
  shows "sq_dist_real c (map2 (\<lambda>t u. t + f * u) c (map2 (-) x c)) = f\<^sup>2 * sq_dist_real c x"
    and "length y = length c \<Longrightarrow> inner (map2 (-) x (map2 (\<lambda>t u. t + f * u) c (map2 (-) x c))) (map2 (-) (map2 (\<lambda>t u. t + f * u) c (map2 (-) x c)) y) =
      (1 - f) * (f * sq_dist_real c x - inner (map2 (-) x c) (map2 (-) y c))"
proof -
  show "sq_dist_real c (map2 (\<lambda>t u. t + f * u) c (map2 (-) x c)) = f\<^sup>2 * sq_dist_real c x"
    using assms by (induction x c rule: list_induct2) (simp_all add: sq_dist_real_def power2_eq_square algebra_simps)
  assume "length y = length c"
  then have "length c = length y" by simp
  with assms show "inner (map2 (-) x (map2 (\<lambda>t u. t + f * u) c (map2 (-) x c))) (map2 (-) (map2 (\<lambda>t u. t + f * u) c (map2 (-) x c)) y) =
      (1 - f) * (f * sq_dist_real c x - inner (map2 (-) x c) (map2 (-) y c))"
    by (induction x c y rule: list_induct3) (simp_all add: inner_def sq_dist_real_def power2_eq_square algebra_simps)
qed

lemma ball_prj_mem:
  assumes "length x = length c" "0 \<le> r"
  shows "ball_mem c r (ball_prj c r x)"
proof (cases "ball_mem c r x")
  case False
  then have pos: "0 < sq_dist_real c x" using zero_le_power2 [of r] unfolding ball_mem_def by linarith
  then have "(r / sqrt (sq_dist_real c x))\<^sup>2 * sq_dist_real c x = r\<^sup>2" by (simp add: power_divide)
  then have "ball_mem c r (map2 (\<lambda>t u. t + r / sqrt (sq_dist_real c x) * u) c (map2 (-) x c))"
    unfolding ball_mem_def ball_step(1) [OF assms(1)] by (rule eq_refl)
  with False show ?thesis unfolding ball_prj_def by (simp only: if_False)
qed (simp add: ball_prj_def)

lemma ball_prj_nearest:
  assumes len: "length x = length c" "length y = length c" and r: "0 \<le> r" and y: "ball_mem c r y"
  shows "sq_dist_real x (ball_prj c r x) \<le> sq_dist_real x y"
proof (cases "ball_mem c r x")
  case True
  have "sq_dist_real x x = 0" using sq_dist_zero [of x x] by simp
  with True show ?thesis by (simp add: ball_prj_def sq_dist_nonneg)
next
  case False
  define k where "k = sqrt (sq_dist_real c x)"
  have k2: "sq_dist_real c x = k\<^sup>2" using sq_dist_nonneg [of c x] by (simp add: k_def)
  have "r\<^sup>2 < k\<^sup>2" "0 \<le> k" using False by (simp_all add: ball_mem_def k2 [symmetric]) (simp add: k_def sq_dist_nonneg)
  then have rk: "r < k" by (rule power2_less_imp_less)
  define p where "p = map2 (\<lambda>t u. t + r / k * u) c (map2 (-) x c)"
  have "inner (map2 (-) x c) (map2 (-) y c) \<le> r * k"
    using len rk r y by (intro cauchy_schwarz_scaled) (simp_all add: inner_diff_self k2 ball_mem_def)
  moreover have "r / k * k\<^sup>2 = r * k" using rk r by (simp add: power2_eq_square)
  ultimately have "0 \<le> (1 - r / k) * (r / k * k\<^sup>2 - inner (map2 (-) x c) (map2 (-) y c))"
    using rk r by (intro mult_nonneg_nonneg) simp_all
  then have "0 \<le> inner (map2 (-) x p) (map2 (-) p y)"
    unfolding p_def ball_step(2) [OF len(1) len(2)] k2 .
  moreover have "sq_dist_real x y = sq_dist_real x p + sq_dist_real p y + 2 * inner (map2 (-) x p) (map2 (-) p y)"
    by (rule sq_dist_via) (use len in \<open>simp_all add: p_def\<close>)
  ultimately have "sq_dist_real x p \<le> sq_dist_real x y"
    using sq_dist_nonneg [of p y] by linarith
  with False show ?thesis by (simp add: ball_prj_def p_def k_def)
qed

interpretation ball: projection "ball_mem c r" "ball_prj c r" sq_dist_real
  "\<lambda>x. length x = length c \<and> 0 \<le> r" for c r
  by unfold_locales
    (auto simp: ball_prj_mem sq_dist_nonneg sq_dist_zero intro: ball_prj_nearest, auto simp: ball_prj_def)

section \<open>Normalised vectors\<close>

lemma has_vals_normalized:
  assumes "has_vals r v"
  shows "has_vals (e_normalized exact r) (if 0 < inner v v then map (\<lambda>x. x / sqrt (inner v v)) v else v)"
proof -
  let ?B = "base_platform Fin"
  have same: "rnd ?B = Fin" by (simp add: base_platform_def)
  have ops: "dmul ?B = dmul exact" "ddiv ?B = ddiv exact" "dsqrt ?B d = dsqrt exact d" for d
    by (simp_all add: fun_eq_iff dmul_def ddiv_def same exact_rnd) (cases d; simp add: same exact_rnd)
  have "has_vals (map (\<lambda>x. dmul exact x x) r) (map (\<lambda>x. x * x) v)"
    using assms by (auto simp: list_all2_conv_all_nth intro: has_val_mul)
  moreover have "sum_list (map (\<lambda>x. x * x) v) = inner v v" by (induction v) (simp_all add: inner_def)
  ultimately have z: "has_val (sq_left ?B r) (inner v v)"
    using has_val_e_sum by (fastforce simp: sq_left_def ops e_sum_exact)
  have norm: "e_normalized exact r = normalized_left ?B r" by (simp add: exact_def std_platform_def Let_def)
  have pos: "dlt (Fin 0) (sq_left ?B r) \<longleftrightarrow> 0 < inner v v" using dlt_has_val [OF has_val_Fin z] by simp
  show ?thesis
  proof (cases "0 < inner v v")
    case True
    then have "has_val (dsqrt exact (sq_left ?B r)) (sqrt (inner v v))" using z by (intro has_val_sqrt) auto
    then have "has_vals (map (\<lambda>x. ddiv exact x (dsqrt exact (sq_left ?B r))) r) (map (\<lambda>x. x / sqrt (inner v v)) v)"
      using assms True by (auto simp: list_all2_conv_all_nth intro!: has_val_div)
    with True pos norm show ?thesis by (simp add: normalized_left_def Let_def ops)
  next
    case False
    with norm pos assms show ?thesis by (simp add: normalized_left_def Let_def)
  qed
qed

section \<open>Projection onto a ball\<close>

lemma refines_from_result: "refines env k (from_result r) r"
  by (cases r) (use refines_ret refines_raise in \<open>simp_all add: ret_def raise_def from_result_def\<close>)

lemma ball_verdict:
  assumes "length x = length c"
  shows "dle (sq_dist exact (map Fin c) (map Fin x)) (dmul exact (Fin r) (Fin r)) \<longleftrightarrow> ball_mem c r x"
proof -
  have "has_val (dmul exact (Fin r) (Fin r)) (r\<^sup>2)"
    using has_val_mul [OF has_val_Fin has_val_Fin] by (simp add: power2_eq_square)
  from dle_has_val [OF has_val_sq_dist this] assms show ?thesis by (simp add: ball_mem_def)
qed

text \<open>The vector the code computes for a point outside.\<close>

lemma moved_to_sphere:
  assumes "length x = length c" "\<not> ball_mem c r x"
  shows "\<exists>ds. rbind (vec_op (dsub exact) (map Fin x) (map Fin c)) (\<lambda>d.
      vec_op (\<lambda>c u. dadd exact c (dmul exact (Fin r) u)) (map Fin c) (e_normalized exact d)) = Inr ds \<and> has_vals ds (ball_prj c r x)"
proof -
  let ?d = "map2 (dsub exact) (map Fin x) (map Fin c)" and ?v = "map2 (-) x c"
  have d: "has_vals ?d ?v" using assms(1) by (auto simp: list_all2_conv_all_nth has_val_sub has_val_Fin)
  have pos: "0 < inner ?v ?v"
    using assms zero_le_power2 [of r] unfolding inner_diff_self [OF assms(1)] ball_mem_def by linarith
  from has_vals_normalized [OF d] pos have n: "has_vals (e_normalized exact ?d) (map (\<lambda>u. u / sqrt (sq_dist_real c x)) ?v)"
    by (simp add: inner_diff_self [OF assms(1)])
  then have len: "length (e_normalized exact ?d) = length c" using assms(1) by (auto dest: list_all2_lengthD)
  have "has_vals (map2 (\<lambda>c u. dadd exact c (dmul exact (Fin r) u)) (map Fin c) (e_normalized exact ?d))
      (map2 (\<lambda>t u. t + r * u) c (map (\<lambda>u. u / sqrt (sq_dist_real c x)) ?v))"
    using n len assms(1) by (auto simp: list_all2_conv_all_nth simp del: times_divide_eq_right intro!: has_val_add has_val_mul has_val_Fin)
  moreover have "map2 (\<lambda>t u. t + r * u) c (map (\<lambda>u. u / sqrt (sq_dist_real c x)) ?v) = ball_prj c r x"
    using assms by (intro nth_equalityI) (auto simp: ball_prj_def)
  ultimately show ?thesis using len assms(1) by (simp add: vec_op_def)
qed

lemma refines_proj_ball:
  assumes "length x = length c" "Suc (length c) \<le> n"
  shows "\<exists>ds. refines env (2 * (length c + 1)) (proj_ball exact (eval exact n) (map (\<lambda>x. real_lit (Fin x)) c) (real_lit (Fin r)) (map Fin x))
    (Inr ds) \<and> has_vals ds (ball_prj c r x) \<and> (ball_mem c r x \<longrightarrow> ds = map Fin x)"
proof -
  let ?ev = "eval exact n" and ?c = "map (\<lambda>x. real_lit (Fin x)) c"
  obtain m where n: "n = Suc m" using assms(2) by (cases n) auto
  have vec: "refines env (length c) (eval_to_vector ?ev ?c) (Inr (map Fin c))"
    using refines_vector [OF interpreter_implements, of ?c n env exact] assms(2) unfolding calls_literals rmap_literals by auto
  have rad: "refines env 1 (?ev (real_lit (Fin r))) (Inr (Fin r))" unfolding n by (rule refines_literal)
  have "refines env (length c + (1 + 0)) (mem_ball exact ?ev ?c (real_lit (Fin r)) (map Fin x))
      (rbind (Inr ()) (\<lambda>_. rbind (Inr (map Fin c)) (\<lambda>cent. rbind (Inr (Fin r)) (\<lambda>r. Inr (dle (sq_dist exact cent (map Fin x)) (dmul exact r r))))))"
    unfolding mem_ball_def using assms(1)
    by (intro refines_bnd [where k = 0, simplified] refines_bnd vec rad refines_ret) (simp add: guard_comp_def refines_ret)
  then have mem: "refines env (length c + 1) (mem_ball exact ?ev ?c (real_lit (Fin r)) (map Fin x)) (Inr (ball_mem c r x))"
    by (simp add: ball_verdict [OF assms(1)])
  show ?thesis
  proof (cases "ball_mem c r x")
    case True
    have "refines env (length c + 1) (proj_ball exact ?ev ?c (real_lit (Fin r)) (map Fin x)) (Inr (map Fin x))"
      unfolding proj_ball_def using mem True by (intro refines_if_member) simp
    then have "refines env (2 * (length c + 1)) (proj_ball exact ?ev ?c (real_lit (Fin r)) (map Fin x)) (Inr (map Fin x))"
      by (rule refines_weaken) simp
    with True show ?thesis by (intro exI [of _ "map Fin x"]) (simp add: ball_prj_def list_all2_conv_all_nth has_val_Fin)
  next
    case False
    let ?move = "\<lambda>cent r. rbind (vec_op (dsub exact) (map Fin x) cent) (\<lambda>d.
        vec_op (\<lambda>c u. dadd exact c (dmul exact r u)) cent (e_normalized exact d))"
    obtain ds where ds: "?move (map Fin c) (Fin r) = Inr ds" "has_vals ds (ball_prj c r x)"
      using moved_to_sphere [OF assms(1) False] by blast
    have "refines env (length c + (1 + 0)) (bnd (eval_to_vector ?ev ?c) (\<lambda>cent. bnd (?ev (real_lit (Fin r))) (\<lambda>r. from_result (?move cent r))))
        (rbind (Inr (map Fin c)) (\<lambda>cent. rbind (Inr (Fin r)) (\<lambda>r. ?move cent r)))"
      by (intro refines_bnd vec rad refines_from_result [where k = 0])
    then have "refines env (length c + 1 + (length c + (1 + 0))) (proj_ball exact ?ev ?c (real_lit (Fin r)) (map Fin x))
        (rbind (Inr (ball_mem c r x)) (\<lambda>_. rbind (Inr (map Fin c)) (\<lambda>cent. rbind (Inr (Fin r)) (\<lambda>r. ?move cent r))))"
      unfolding proj_ball_def using False by (intro refines_bnd [OF mem]) simp
    with ds False show ?thesis by (intro exI [of _ ds]) (simp add: mult_2)
  qed
qed

text \<open>C23: In exact arithmetic, \<open>project\<close> onto a ball of literal centre and radius not negative returns a point of the ball that no other point of the ball is nearer to the given point, and returns a point of the ball unchanged.\<close>

theorem project_ball:
  assumes "adv_valid s" and "length x = length c" and "0 \<le> r" and "2 * length c + 3 \<le> 10000"
  shows "\<exists>ds q t. project exact (length c + 2 + n) (literal_ball c r) (map Fin x) env s = Some (Inr ds, t) \<and>
    has_vals ds q \<and> ball_mem c r q \<and> (ball_mem c r x \<longrightarrow> ds = map Fin x) \<and>
    (\<forall>y. length y = length c \<and> ball_mem c r y \<longrightarrow> sq_dist_real x q \<le> sq_dist_real x y)"
proof -
  have fuel: "length c + 2 + n = Suc (Suc (length c + n))" by simp
  obtain ds where ds: "refines env (2 * (length c + 1)) (proj_ball exact (eval exact (Suc (length c + n)))
        (map (\<lambda>x. real_lit (Fin x)) c) (real_lit (Fin r)) (map Fin x)) (Inr ds)"
      "has_vals ds (ball_prj c r x)" "ball_mem c r x \<longrightarrow> ds = map Fin x"
    using refines_proj_ball [OF assms(2), of "Suc (length c + n)" env r] by auto
  have "refines env (Suc (2 * (length c + 1))) (proj exact (length c + 2 + n) (literal_ball c r) (map Fin x)) (Inr ds)"
    using refines_enter_set [OF ds(1)] unfolding fuel by (simp add: literal_ball_def)
  from refines_run [OF this _, of s] assms(4) obtain d where
    "proj exact (length c + 2 + n) (literal_ball c r) (map Fin x) (s\<lparr>bound_vars := env, nesting_depth := 0\<rparr>) =
      Some (Inr ds, s\<lparr>bound_vars := env, nesting_depth := d\<rparr>)" by auto
  moreover have "length ds = length x" using ds(2) assms(2) by (auto simp: ball_prj_def dest: list_all2_lengthD)
  ultimately have "\<exists>t. project exact (length c + 2 + n) (literal_ball c r) (map Fin x) env s = Some (Inr ds, t)"
    using assms(1) by (simp add: project_def run_simps start_call_run)
  then show ?thesis
    using ds(2,3) ball.prj_mem [of x c r] ball.nearest [of x c r] assms(2,3) by blast
qed

theorem project_ball_witness:
  "\<exists>ds q t. project exact (length [0::real, 0] + 2 + 0) (literal_ball [0, 0] 5) (map Fin [6, 8]) Map.empty (new_advfunc\<lparr>adv_valid := True\<rparr>) =
      Some (Inr ds, t) \<and> has_vals ds q \<and> ball_mem [0, 0] 5 q \<and> sq_dist_real [6, 8] q \<le> 25"
proof -
  have "ball_mem [0, 0] 5 [3, 4]" "sq_dist_real [6, 8] [3, 4] = 25" by (simp_all add: ball_mem_def sq_dist_real_def)
  moreover obtain ds q t where "project exact (length [0::real, 0] + 2 + 0) (literal_ball [0, 0] 5) (map Fin [6, 8]) Map.empty
      (new_advfunc\<lparr>adv_valid := True\<rparr>) = Some (Inr ds, t)" "has_vals ds q" "ball_mem [0, 0] 5 q"
      "\<forall>y. length y = length [0 :: real, 0] \<and> ball_mem [0, 0] 5 y \<longrightarrow> sq_dist_real [6, 8] q \<le> sq_dist_real [6, 8] y"
    using project_ball [of "new_advfunc\<lparr>adv_valid := True\<rparr>" "[6, 8]" "[0, 0]" 5 0 Map.empty] by auto
  ultimately show ?thesis by (metis length_Cons)
qed

end
