(* ===== verification/Repo_Tests.thy ===== *)
theory Repo_Tests imports Hlapi_Discrete Adv_Deriv_Props Expr_Build begin

text \<open>
  The unit tests of the repository, \<open>tests/interpreter.cpp\<close>, as statements about the model, in exact
  arithmetic: the definitions give the values that the tests expect of the program.
\<close>

section \<open>Evaluation of a RealExpr\<close>

definition test_expression :: real_expr where
  "test_expression = RealExpr None (BinaryOperation OpSum (RealExpr None (BinaryOperation OpProd (real_lit (Fin 3)) (var_ref ''X'')))
     (RealExpr None (UnaryOperation OpSin (var_ref ''Y''))))"

lemma test_evaluation:
  "\<exists>t r. build_real_expr exact chk (e_plus (e_times (EReal (Fin 3)) (EVar ''X'')) (e_sin (EVar ''Y''))) = Inr test_expression \<and>
    received (empty_adv\<lparr>costFunction := Some test_expression\<rparr>)
      (evaluate exact 10 test_expression [''X'' \<mapsto> Fin 6, ''Y'' \<mapsto> Fin (24 / 10)]) = Some (Inr r, t) \<and>
    is_finite r \<and> \<bar>val r - (3 * 6 + sin (24 / 10))\<bar> < 1 / 10 ^ 8"
proof -
  let ?env = "[''X'' \<mapsto> Fin 6, ''Y'' \<mapsto> Fin (24 / 10)]"
  have "has_val (dadd exact (dmul exact (Fin 3) (Fin 6)) (m_sin exact (Fin (24 / 10)))) (3 * 6 + sin (24 / 10))"
    by (intro val_intros)
  moreover have "den_real exact ?env test_expression = Inr (dadd exact (dmul exact (Fin 3) (Fin 6)) (m_sin exact (Fin (24 / 10))))"
    by (simp add: test_expression_def lookup_or_def)
  moreover have "\<exists>t. received (empty_adv\<lparr>costFunction := Some test_expression\<rparr>) (evaluate exact 10 test_expression ?env) =
      Some (den_real exact ?env test_expression, t)"
    by (intro received_evaluate)
      (simp_all add: test_expression_def profile_nodes_def belief_nodes_def cost_nodes_def empty_adv_def)
  ultimately show ?thesis
    by (auto simp: has_val_def build_real_expr_def expr_defs test_expression_def)
qed

section \<open>Rounding\<close>

lemma test_rounding:
  "\<exists>a b t. uniform_discrete_device exact chk (Fin (- 8000)) (Fin 0) (Fin 1000) (Fin 600) (Fin 0) (Fin 0) (Fin 0) (Fin 0) empty_adv = Inr a \<and>
    received a (rectangular_hull exact lp rs 32 (get_belief_function a) [''P'' \<mapsto> Fin (- 500), ''Q'' \<mapsto> Fin 0]) = Some (Inr b, t) \<and>
    is_finite (box_min b ! 0) \<and> val (box_min b ! 0) = - 1000"
proof -
  obtain cs where cs: "rounding_cases exact chk (Fin 1000) (Fin 600) (Fin (- 8000)) (Fin 0) = Inr cs"
    by (simp add: rounding_cases_def build_real_expr_def expr_defs)
  note parts = rounding_cases_den [OF cs]
  have belief: "round_belief exact chk (Fin 1000) (Fin 600) (Fin (- 8000)) (Fin 0) =
      Inr (set_of_body (Singleton [RealExpr None (CaseDistinction [''P''] cs), var_ref ''Q'']))"
    by (simp add: round_belief_def cs)
  obtain v k where v: "has_val (round_value (Fin 1000) (Fin 600) (dfmod (Fin (- 8000)) (Fin 1000)) (Fin (- 500))) v"
      "v = - 8000 + of_int k * 1000" "\<bar>v - (- 500 - 600)\<bar> \<le> 1000 / 2"
    using round_value_near [of 1000 600 "- 8000" "- 500"] by auto
  then have "64 / 10 \<le> real_of_int k" "real_of_int k \<le> 74 / 10" by auto
  then have "k = 7" by linarith
  with v(1,2) have "has_val (round_value (Fin 1000) (Fin 600) (dfmod (Fin (- 8000)) (Fin 1000)) (Fin (- 500))) (- 1000)" by simp
  moreover have "Suc (30 + 1 + 0) = 32" by simp
  ultimately show ?thesis
    using discrete_device_parts [OF belief parts(2-4) _ parts(1), of "- 8000" 0 0 0 "Fin 0" "Fin 0" lp rs 0 "- 500" 0]
    by (fastforce simp: uniform_discrete_device_def has_val_def simp del: rectangular_hull_def)
qed

section \<open>Polynomials\<close>

definition test_poly :: monomial_sum where
  "test_poly = mono_plus (var_power ''P'' 2) (mono_scale exact (Fin 3) (mono_concat (monomial_of_var ''P'') (var_power ''Q'' 3)))"

lemma test_poly_facts:
  "sum_variables test_poly = [''P'', ''Q'']" "encodable test_poly"
  "list_all (\<lambda>m. is_finite (coeff m)) test_poly"
proof -
  show vars: "sum_variables test_poly = [''P'', ''Q'']"
    by (simp add: test_poly_def sum_variables_def poly_build_defs mono_concat_def less_eq_list_code)
  show "encodable test_poly"
    unfolding encodable_def vars
    by (simp add: test_poly_def well_formed_def poly_build_defs mono_concat_def sum_maxVarDegree_def mono_maxVarDegree_def)
  show "list_all (\<lambda>m. is_finite (coeff m)) test_poly"
    by (simp add: test_poly_def poly_build_defs mono_concat_def dmul_def)
qed

lemma test_poly_values:
  "poly_partial (- 1) test_poly [''P'', ''Q''] [3, 5] = 1134" "poly_partial 0 test_poly [''P'', ''Q''] [2, 3] = 85"
  by (simp_all add: test_poly_def poly_build_defs mono_concat_def dmul_def poly_partial_def exponent_def exact_rnd
      factor_def lessThan_Suc)

lemma test_polynomial:
  "\<exists>p r d t u. build_polynomial exact test_poly = Inr p \<and>
    evaluate exact (Suc n) (RealExpr None (Polynomial p)) [''P'' \<mapsto> Fin 3, ''Q'' \<mapsto> Fin 5] (new_advfunc\<lparr>adv_valid := True\<rparr>) = Some (Inr r, t) \<and>
    eval_partial_derivative exact (Suc n) (RealExpr None (Polynomial p)) ''P'' [''P'' \<mapsto> Fin 2, ''Q'' \<mapsto> Fin 3] (new_advfunc\<lparr>adv_valid := True\<rparr>) =
      Some (Inr d, u) \<and>
    is_finite r \<and> val r = 1134 \<and> is_finite d \<and> val d = 85"
proof -
  obtain p r where r: "build_polynomial exact test_poly = Inr p" "poly_variables p = [''P'', ''Q'']"
      "eval_polynomial exact (- 1) p [''P'' \<mapsto> Fin 3, ''Q'' \<mapsto> Fin 5] = Inr r" "has_val r 1134"
    using eval_built_polynomial [OF test_poly_facts(2,3), of "[''P'' \<mapsto> Fin 3, ''Q'' \<mapsto> Fin 5]" "[3, 5]" "- 1"]
    by (auto simp: test_poly_facts test_poly_values)
  obtain d where d: "eval_polynomial exact 0 p [''P'' \<mapsto> Fin 2, ''Q'' \<mapsto> Fin 3] = Inr d" "has_val d 85"
    using eval_built_polynomial [OF test_poly_facts(2,3), of "[''P'' \<mapsto> Fin 2, ''Q'' \<mapsto> Fin 3]" "[2, 3]" 0] r(1)
    by (auto simp: test_poly_facts test_poly_values)
  from r d show ?thesis
    by (auto simp: evaluate_def eval_partial_derivative_def run_simps start_call_run eval_poly_def deriv_poly_def
        from_result_def has_val_def new_advfunc_def)
qed

text \<open>The same polynomial as a generic expression.\<close>

definition test_generic :: expr where
  "test_generic = e_plus (e_pow (EVar ''P'') (EReal (Fin 2)))
     (e_times (e_times (EReal (Fin 3)) (EVar ''P'')) (e_pow (EVar ''Q'') (EReal (Fin 3))))"

lemma test_generic_expression:
  "\<exists>e r d t u. build_real_expr exact chk test_generic = Inr e \<and>
    evaluate exact 50 e (env_of [''P'', ''Q''] (\<lambda>v. if v = ''P'' then 3 else 5)) (new_advfunc\<lparr>adv_valid := True\<rparr>) = Some (Inr r, t) \<and>
    eval_partial_derivative exact 50 e ''P'' (env_of [''P'', ''Q''] (\<lambda>v. if v = ''P'' then 2 else 3)) (new_advfunc\<lparr>adv_valid := True\<rparr>) =
      Some (Inr d, u) \<and>
    is_finite r \<and> val r = 1134 \<and> is_finite d \<and> val d = 85"
proof -
  let ?pow = "\<lambda>v n. RealExpr None (BinaryOperation OpPow (var_ref v) (real_lit (Fin n)))"
  let ?e = "RealExpr None (BinaryOperation OpSum (?pow ''P'' 2) (RealExpr None (BinaryOperation OpProd
      (RealExpr None (BinaryOperation OpProd (real_lit (Fin 3)) (var_ref ''P''))) (?pow ''Q'' 3))))"
  let ?x = "\<lambda>v. if v = ''P'' then 3 else 5 :: real" and ?y = "\<lambda>v. if v = ''P'' then 2 else 3 :: real" and ?s = "new_advfunc\<lparr>adv_valid := True\<rparr>"
  have built: "build_real_expr exact chk test_generic = Inr ?e" by (simp add: test_generic_def build_real_expr_def expr_defs)
  have smooth: "smooth [''P'', ''Q''] ?x ?e" "smooth [''P'', ''Q''] ?y ?e" by simp_all
  obtain r where r: "den_real exact (env_of [''P'', ''Q''] ?x) ?e = Inr r" "has_val r (rval ?x ?e)"
    using smooth_agrees [OF smooth(1)] by (auto simp: values_agree_def)
  obtain d where d: "den_deriv exact (env_of [''P'', ''Q''] ?y) ''P'' ?e = Inr d" "is_finite d"
      "((\<lambda>t. rval (?y(''P'' := t)) ?e) has_real_derivative val d) (at (?y ''P''))"
    using smooth_agrees [OF smooth(2), of "''P''"] by (auto simp: slopes_agree_def)
  have "((\<lambda>t. t powr 2 + 3 * t * 3 powr 3) has_real_derivative 85) (at 2)"
    by (auto intro!: derivative_eq_intros)
  with d(3) have "val d = 85" by (auto dest: DERIV_unique)
  moreover have "rval ?x ?e = 1134" by simp
  moreover have plain: "adv_valid ?s" "ref_free_real ?e" "calls_real ?e \<le> 10000" "calls_real ?e \<le> 50" "case_free ?e" "dcalls ?e \<le> min 50 10000"
    by (simp_all add: new_advfunc_def)
  have "\<exists>t. evaluate exact 50 ?e (env_of [''P'', ''Q''] ?x) ?s = Some (Inr r, t)"
    using evaluate_denotes_lemma [OF plain(1-4), of exact "env_of [''P'', ''Q''] ?x"] unfolding r(1) by blast
  moreover have "\<exists>u. eval_partial_derivative exact 50 ?e ''P'' (env_of [''P'', ''Q''] ?y) ?s = Some (Inr d, u)"
    using eval_partial_derivative_lemma [OF plain(1,2,5,6), of exact "''P''" "env_of [''P'', ''Q''] ?y"] unfolding d(1) by blast
  ultimately show ?thesis using built r(2) d(2) unfolding has_val_def by metis
qed

end
