(* ===== verification/Typing.thy ===== *)
theory Typing imports Adv_Deriv Interp_Inline begin

text \<open>
  A type system for the expressions of a message, and its soundness for the interpreter: a
  well-typed expression is evaluated, differentiated and tested for membership without a failed
  assertion, an unresolved name, a \<open>throw\<close> without an exception or undefined behaviour, and
  the call returns. The code has no such check; the types say what it relies on.
\<close>

section \<open>Types\<close>

text \<open>
  A context gives the variables that are bound, a level to each name of a real expression, and a
  dimension and a level to each name of a set. An expression of level \<open>l\<close> refers to names of
  lower levels only, so that references are not cyclic. A set has the dimension of the points
  it is compared with.
\<close>

record typing =
  ctx_vars :: "string set"
  real_level :: "string \<Rightarrow> nat option"
  set_type :: "string \<Rightarrow> (nat \<times> nat) option"

text \<open>The digits of the packed exponents of a polynomial must fit a 32-bit \<open>int\<close>.\<close>

definition wt_polynomial :: "typing \<Rightarrow> polynomial \<Rightarrow> bool" where
  "wt_polynomial G p \<longleftrightarrow> set (poly_variables p) \<subseteq> ctx_vars G \<and>
     (uint (maxVarDegree p) + 1) ^ length (poly_variables p) \<le> 2 ^ 31"

function wt_real :: "typing \<Rightarrow> nat \<Rightarrow> real_expr \<Rightarrow> bool"
  and wt_real_body :: "typing \<Rightarrow> nat \<Rightarrow> real_body \<Rightarrow> bool"
  and wt_set :: "typing \<Rightarrow> nat \<Rightarrow> nat \<Rightarrow> set_expr \<Rightarrow> bool"
  and wt_set_body :: "typing \<Rightarrow> nat \<Rightarrow> nat \<Rightarrow> set_body \<Rightarrow> bool" where
  "wt_real G l (RealExpr nm b) = wt_real_body G l b"
| "wt_real_body G l (Real x) = True"
| "wt_real_body G l (Polynomial p) = wt_polynomial G p"
| "wt_real_body G l (UnaryOperation op a) = wt_real G l a"
| "wt_real_body G l (BinaryOperation op a b) = (wt_real G l a \<and> wt_real G l b)"
| "wt_real_body G l (ListOperation op es) = (\<forall>e \<in> set es. wt_real G l e)"
| "wt_real_body G l (CaseDistinction vs cs) =
     (set vs \<subseteq> ctx_vars G \<and> (\<forall>(st, e) \<in> set cs. wt_set G l (length vs) st \<and> wt_real G l e))"
| "wt_real_body G l (Reference r) = (\<exists>k \<in> set_option (real_level G r). k < l)"
| "wt_real_body G l (Variable v) = (v \<in> ctx_vars G)"
| "wt_set G l d (SetExpr nm b) = wt_set_body G l d b"
| "wt_set_body G l d (Singleton es) = (length es = d \<and> (\<forall>e \<in> set es. wt_real G l e))"
| "wt_set_body G l d (Ball cs r) = (length cs = d \<and> (\<forall>e \<in> set cs. wt_real G l e) \<and> wt_real G l r)"
| "wt_set_body G l d (Rectangle bs) = (length bs = d \<and> (\<forall>(a, b) \<in> set bs. wt_real G l a \<and> wt_real G l b))"
| "wt_set_body G l d (ConvexPolytope mx b) = (rectangular mx d \<and> length mx = length b \<and>
     (\<forall>row \<in> set mx. \<forall>e \<in> set row. wt_real G l e) \<and> (\<forall>e \<in> set b. wt_real G l e))"
| "wt_set_body G l d (Intersection ss) = (\<forall>st \<in> set ss. wt_set G l d st)"
| "wt_set_body G l d (SetCaseDistinction vs cs) = False"
| "wt_set_body G l d (SetReference r) = (\<exists>(d', k) \<in> set_option (set_type G r). d' = d \<and> k < l)"
  by pat_completeness auto
termination by lexicographic_order

text \<open>The reference maps of the interpreter hold what the context says, and the variables are bound.\<close>

definition wt_refs :: "typing \<Rightarrow> (string \<Rightarrow> real_expr option) \<Rightarrow> (string \<Rightarrow> set_expr option) \<Rightarrow> bool" where
  "wt_refs G rr sr \<longleftrightarrow>
     (\<forall>r k. real_level G r = Some k \<longrightarrow> (\<exists>e. rr r = Some e \<and> wt_real G k e)) \<and>
     (\<forall>r d k. set_type G r = Some (d, k) \<longrightarrow> (\<exists>st. sr r = Some st \<and> wt_set G k d st))"

section \<open>Outcomes that are not faults\<close>

text \<open>A value with \<open>Q\<close>, or one of the exceptions in \<open>E\<close>, which the interpreter throws on purpose.\<close>

fun outcome :: "error set \<Rightarrow> ('a \<Rightarrow> bool) \<Rightarrow> 'a result \<Rightarrow> bool" where
  "outcome E Q (Inr x) = Q x"
| "outcome E Q (Inl e) = (e \<in> E)"

abbreviation no_fault :: "'a result \<Rightarrow> bool" where
  "no_fault \<equiv> outcome {Evaluation_Error} (\<lambda>_. True)"

lemma outcome_mono: "outcome E Q r \<Longrightarrow> E \<subseteq> F \<Longrightarrow> (\<And>x. Q x \<Longrightarrow> R x) \<Longrightarrow> outcome F R r"
  by (cases r) auto

text \<open>
  \<open>right_in E I c Q\<close>: from a state in \<open>I\<close>, \<open>c\<close> returns, to a state in \<open>I\<close>, with an outcome of
  \<open>E\<close> and \<open>Q\<close>. \<open>I\<close> does not depend on the call counter, as in the locale of the refinement relation.
\<close>

definition right_in :: "error set \<Rightarrow> (advfunc \<Rightarrow> bool) \<Rightarrow> 'a interp \<Rightarrow> ('a \<Rightarrow> bool) \<Rightarrow> bool" where
  "right_in E I c Q \<longleftrightarrow> (\<forall>s. I s \<longrightarrow> (\<exists>r t. c s = Some (r, t) \<and> I t \<and> outcome E Q r))"

abbreviation right :: "(advfunc \<Rightarrow> bool) \<Rightarrow> 'a interp \<Rightarrow> ('a \<Rightarrow> bool) \<Rightarrow> bool" where
  "right \<equiv> right_in {Evaluation_Error}"

abbreviation fine :: "(advfunc \<Rightarrow> bool) \<Rightarrow> 'a interp \<Rightarrow> bool" where
  "fine I c \<equiv> right I c (\<lambda>_. True)"

lemma rightD:
  assumes "right_in E I c Q" "I s"
  obtains r t where "c s = Some (r, t)" "I t" "outcome E Q r"
  using assms unfolding right_in_def by blast

named_theorems right_intros \<open>rules for computations that return without a fault\<close>

lemma right_ret [right_intros]: "Q x \<Longrightarrow> right_in E I (ret x) Q"
  by (simp add: right_in_def run_simps)

lemma right_raise [right_intros]: "e \<in> E \<Longrightarrow> right_in E I (raise e) Q"
  by (simp add: right_in_def run_simps)

lemma right_result [right_intros]: "outcome E Q r \<Longrightarrow> right_in E I (from_result r) Q"
  by (simp add: right_in_def run_simps)

lemma right_weaken: "right_in E I c Q \<Longrightarrow> E \<subseteq> F \<Longrightarrow> (\<And>x. Q x \<Longrightarrow> R x) \<Longrightarrow> right_in F I c R"
  unfolding right_in_def by (meson outcome_mono)

lemma right_bnd [right_intros]:
  assumes "right_in E I c Q" "\<And>x. Q x \<Longrightarrow> right_in E I (f x) R"
  shows "right_in E I (bnd c f) R"
  unfolding right_in_def
proof (intro allI impI)
  fix s assume "I s"
  with assms(1) obtain r t where c: "c s = Some (r, t)" "I t" "outcome E Q r" by (rule rightD)
  show "\<exists>r t. bnd c f s = Some (r, t) \<and> I t \<and> outcome E R r"
  proof (cases r)
    case (Inr x)
    with c assms(2) have "right_in E I (f x) R" by simp
    then obtain r' t' where "f x t = Some (r', t')" "I t'" "outcome E R r'"
      using c(2) by (rule rightD)
    with c Inr show ?thesis by (simp add: run_simps)
  qed (use c in \<open>simp add: run_simps\<close>)
qed

lemma right_state: "(\<And>s. I s \<Longrightarrow> right_in E I (f s) Q) \<Longrightarrow> right_in E I (bnd get_st f) Q"
  by (auto simp: right_in_def run_simps)

lemma right_guard: "b \<Longrightarrow> right_in E I c Q \<Longrightarrow> right_in E I (bnd (guard_comp b e) (\<lambda>_. c)) Q"
  by (simp add: right_in_def run_simps)

lemma right_mapC:
  "(\<And>x. x \<in> set xs \<Longrightarrow> right_in E I (f x) Q) \<Longrightarrow>
    right_in E I (mapC f xs) (\<lambda>ys. length ys = length xs \<and> (\<forall>y \<in> set ys. Q y))"
proof (induction xs)
  case (Cons x xs)
  have "right_in E I (bnd (f x) (\<lambda>y. bnd (mapC f xs) (\<lambda>ys. ret (y # ys))))
      (\<lambda>ys. length ys = length (x # xs) \<and> (\<forall>y \<in> set ys. Q y))"
    by (rule right_bnd [OF Cons.prems right_bnd [OF Cons.IH right_ret]]) (use Cons.prems in auto)
  then show ?case by simp
qed (simp add: right_ret)

lemma right_foldC:
  "(\<And>x a. x \<in> set xs \<Longrightarrow> fine I (f x a)) \<Longrightarrow> fine I (foldC f xs acc)"
  by (induction xs arbitrary: acc) (auto intro!: right_intros)

lemma right_allC: "(\<And>x. x \<in> set xs \<Longrightarrow> fine I (f x)) \<Longrightarrow> fine I (allC f xs)"
  by (induction xs) (auto intro!: right_intros)

lemma right_select:
  "(\<And>st e. (st, e) \<in> set cs \<Longrightarrow> fine I (mem st pt) \<and> fine I (ev e)) \<Longrightarrow> fine I (select_case mem ev pt cs)"
proof (induction cs)
  case (Cons c cs)
  obtain st e where c: "c = (st, e)" by (cases c)
  have "fine I (bnd (mem st pt) (\<lambda>b. if b then ev e else select_case mem ev pt cs))"
    by (rule right_bnd [where Q = "\<lambda>_. True"]) (use Cons c in auto)
  with c show ?case by simp
qed (simp add: right_raise)

lemma right_deref:
  "(\<And>s. I s \<Longrightarrow> \<exists>x. look s = Some x \<and> right_in E I (f x) Q) \<Longrightarrow>
    right_in E I (bnd get_st (\<lambda>s. case look s of Some x \<Rightarrow> f x | None \<Rightarrow> g s)) Q"
  by (rule right_state) fastforce

section \<open>Polynomials\<close>

lemma eval_monomial_returns:
  assumes "\<And>k. k < length xs \<Longrightarrow> \<exists>r. poly_digit M d off (i + k) = Inr r"
  shows "\<exists>x. eval_monomial M d off dVar i xs monom = Inr x"
  using assms
proof (induction xs arbitrary: i monom)
  case (Cons x xs)
  obtain r where "poly_digit M d off i = Inr r" using Cons.prems [of 0] by auto
  moreover have "\<exists>x. eval_monomial M d off dVar (Suc i) xs m = Inr x" for m
    by (rule Cons.IH) (use Cons.prems [of "Suc _"] in auto)
  ultimately show ?case by (cases "dVar = int i") auto
qed simp

lemma eval_coeffs_returns:
  assumes "\<And>off k. k < length xs \<Longrightarrow> \<exists>r. poly_digit M d off k = Inr r"
  shows "\<exists>x. eval_coeffs M d dVar xs cs acc = Inr x"
proof (induction cs arbitrary: acc)
  case (Cons c cs)
  obtain m where "eval_monomial M d (sint (offset c)) dVar 0 xs (Fin 1) = Inr m"
    using eval_monomial_returns [of xs M d _ 0] assms by fastforce
  with Cons show ?case by simp
qed simp

lemma eval_polynomial_returns:
  assumes "platform_laws M" "wt_polynomial G p" "ctx_vars G \<subseteq> dom env"
  shows "\<exists>x. eval_polynomial M k p env = Inr x"
proof -
  have "at_var env v = Inr (the (env v))" if "v \<in> set (poly_variables p)" for v
    using that assms(2,3) by (auto simp: wt_polynomial_def at_var_def)
  then have pts: "rmap (at_var env) (poly_variables p) = Inr (map (\<lambda>v. the (env v)) (poly_variables p))"
    by (rule rmap_Inr)
  define d where "d = uint (maxVarDegree p) + 1"
  have d: "1 \<le> d" "d ^ length (poly_variables p) \<le> 2 ^ 31"
    using assms(2) by (simp_all add: d_def wt_polynomial_def)
  have "\<exists>r. poly_digit M d off j = Inr r" if "j < length (poly_variables p)" for off j
    using pow_half_to_int [OF assms(1) d that] d(1) by (auto simp: poly_digit_def)
  then show ?thesis
    unfolding eval_polynomial_def pts rbind.simps d_def by (intro eval_coeffs_returns) simp
qed

section \<open>One node\<close>

text \<open>A node is evaluated without a fault when its parts are.\<close>

lemma right_variable:
  "(\<And>s. I s \<Longrightarrow> ctx_vars G \<subseteq> dom (bound_vars s)) \<Longrightarrow> v \<in> ctx_vars G \<Longrightarrow>
    fine I (bnd get_st (\<lambda>s. case bound_vars s v of Some x \<Rightarrow> ret (f x) | None \<Rightarrow> raise e))"
  by (rule right_deref) (blast intro: right_ret)

lemma right_eval_poly:
  assumes "platform_laws M" "\<And>s. I s \<Longrightarrow> ctx_vars G \<subseteq> dom (bound_vars s)" "wt_polynomial G p"
  shows "fine I (eval_poly M k p)"
  unfolding eval_poly_def
proof (rule right_state, rule right_result)
  fix s assume "I s"
  with eval_polynomial_returns [OF assms(1,3) assms(2)] obtain x where "eval_polynomial M k p (bound_vars s) = Inr x" by blast
  then show "no_fault (eval_polynomial M k p (bound_vars s))" by simp
qed

lemma right_point:
  assumes "\<And>s. I s \<Longrightarrow> ctx_vars G \<subseteq> dom (bound_vars s)" "set vs \<subseteq> ctx_vars G"
  shows "right I (mapC case_var vs) (\<lambda>pt. length pt = length vs)"
proof -
  have "fine I (case_var v)" if "v \<in> set vs" for v
    unfolding case_var_def using right_variable [where f = "\<lambda>x. x", OF assms(1)] assms(2) that by auto
  then show ?thesis by (rule right_weaken [OF right_mapC subset_refl]) auto
qed

lemma right_case:
  assumes "\<And>s. I s \<Longrightarrow> ctx_vars G \<subseteq> dom (bound_vars s)" "set vs \<subseteq> ctx_vars G"
    and "\<And>st e pt. (st, e) \<in> set cs \<Longrightarrow> length pt = length vs \<Longrightarrow> fine I (mem st pt) \<and> fine I (ev e)"
  shows "fine I (bnd (mapC case_var vs) (\<lambda>pt. select_case mem ev pt cs))"
  by (rule right_bnd [OF right_point [OF assms(1,2)] right_select]) (use assms(3) in auto)

lemma right_eval_body:
  assumes "platform_laws M" "\<And>s. I s \<Longrightarrow> ctx_vars G \<subseteq> dom (bound_vars s)" "wt_real_body G l b"
    and ev: "\<And>e. e \<in> set (real_parts b) \<Longrightarrow> fine I (ev e)"
    and mem: "\<And>st pt vs cs. b = CaseDistinction vs cs \<Longrightarrow> st \<in> set (set_parts b) \<Longrightarrow> length pt = length vs \<Longrightarrow> fine I (mem st pt)"
    and ref: "\<And>r s. b = Reference r \<Longrightarrow> I s \<Longrightarrow> \<exists>e. real_refs s r = Some e \<and> fine I (ev e)"
  shows "fine I (eval_body M ev mem b)"
proof (cases b)
  case (Variable v)
  with assms(3) show ?thesis
    using right_variable [where f = "\<lambda>x. x", OF assms(2)] by (simp add: eval_var_def)
next
  case (Reference r)
  then show ?thesis using ref by (simp add: eval_ref_def right_deref)
next
  case (CaseDistinction vs cs)
  have "fine I (eval_case mem ev vs cs)"
    unfolding eval_case_def
  proof (rule right_case)
    show "ctx_vars G \<subseteq> dom (bound_vars s)" if "I s" for s by (rule assms(2) [OF that])
    show "set vs \<subseteq> ctx_vars G" using assms(3) CaseDistinction by simp
    fix st e and pt :: "double list" assume "(st, e) \<in> set cs" "length pt = length vs"
    then show "fine I (mem st pt) \<and> fine I (ev e)"
      using ev [of e] mem [OF CaseDistinction, of st pt] CaseDistinction by force
  qed
  with CaseDistinction show ?thesis by simp
next
  case (Polynomial p)
  then show ?thesis using right_eval_poly [OF assms(1,2)] assms(3) by simp
next
  case (ListOperation op es)
  have "fine I (bnd (ev e) (\<lambda>x. ret (list_step M op acc x)))" if "e \<in> set es" for e acc
    by (rule right_bnd [OF ev right_ret]) (use ListOperation that in auto)
  then show ?thesis unfolding ListOperation eval_body.simps eval_list_def by (rule right_foldC)
next
  case (UnaryOperation op a)
  then have "fine I (ev a)" using ev by simp
  then have "fine I (bnd (ev a) (\<lambda>x. ret (unary_value M op x)))" by (rule right_bnd) (simp add: right_ret)
  with UnaryOperation show ?thesis by (simp add: eval_unary_def)
next
  case (BinaryOperation op a c)
  then have "fine I (ev a)" "fine I (ev c)" using ev by simp_all
  then have "fine I (bnd (ev a) (\<lambda>x. bnd (ev c) (\<lambda>y. ret (binary_value M op x y))))"
    by (intro right_bnd right_ret) auto
  with BinaryOperation show ?thesis by (simp add: eval_binary_def)
qed (simp add: right_ret)

lemma right_vector:
  "(\<And>e. e \<in> set es \<Longrightarrow> fine I (ev e)) \<Longrightarrow> right I (eval_to_vector ev es) (\<lambda>xs. length xs = length es)"
  unfolding eval_to_vector_def by (rule right_weaken [OF right_mapC subset_refl]) auto

lemma right_matrix:
  assumes "rectangular mx d" "\<And>row e. row \<in> set mx \<Longrightarrow> e \<in> set row \<Longrightarrow> fine I (ev e)"
  shows "right I (eval_to_matrix ev mx) (\<lambda>mat. length mat = length mx \<and> (\<forall>row \<in> set mat. length row = d))"
proof -
  have "right I (mapC ev row) (\<lambda>xs. length xs = d)" if "row \<in> set mx" for row
    using assms that by (intro right_weaken [OF right_mapC subset_refl]) (auto simp: rectangular_def)
  then have "right I (mapC (mapC ev) mx) (\<lambda>mat. length mat = length mx \<and> (\<forall>row \<in> set mat. length row = d))"
    by (rule right_mapC)
  then show ?thesis by (simp add: eval_to_matrix_def check_capnp_matrix_ok [OF assms(1)])
qed

lemma right_membership_body:
  assumes "wt_set_body G l d b" "length pt = d"
    and ev: "\<And>e. e \<in> set (real_sparts b) \<Longrightarrow> fine I (ev e)"
    and mem: "\<And>st. st \<in> set (set_sparts b) \<Longrightarrow> fine I (mem st pt)"
    and ref: "\<And>r s. b = SetReference r \<Longrightarrow> I s \<Longrightarrow> \<exists>st. set_refs s r = Some st \<and> fine I (mem st pt)"
  shows "fine I (membership_body M ev mem b pt)"
proof (cases b)
  case (Singleton es)
  then have "right I (eval_to_vector ev es) (\<lambda>xs. length xs = length es)" using ev by (intro right_vector) simp
  then show ?thesis
    using Singleton assms(1,2) by (simp add: mem_singleton_def right_guard right_bnd right_ret)
next
  case (Ball cs r)
  then have "right I (eval_to_vector ev cs) (\<lambda>xs. length xs = length cs)" "fine I (ev r)"
    using ev by (auto intro: right_vector)
  then have "fine I (bnd (eval_to_vector ev cs) (\<lambda>cent. bnd (ev r) (\<lambda>rad. ret (dle (sq_dist M cent pt) (dmul M rad rad)))))"
    by (intro right_bnd right_ret) auto
  then show ?thesis using Ball assms(1,2) by (simp add: mem_ball_def right_guard)
next
  case (Rectangle bs)
  have part: "fine I (ev a) \<and> fine I (ev c)" if "(a, c) \<in> set bs" for a c
    using ev Rectangle that by force
  have "fine I (bnd (ev a) (\<lambda>x. bnd (ev c) (\<lambda>y. ret (in_bounds z x y))))" if "((a, c), z) \<in> set (zip bs pt)" for a c z
    by (rule right_bnd, rule part [THEN conjunct1], rule set_zip_leftD [OF that], rule right_bnd,
        rule part [THEN conjunct2], rule set_zip_leftD [OF that]) (simp add: right_ret)
  then have "fine I (allC (\<lambda>((a, c), z). bnd (ev a) (\<lambda>x. bnd (ev c) (\<lambda>y. ret (in_bounds z x y)))) (zip bs pt))"
    by (intro right_allC) auto
  then show ?thesis using Rectangle assms(1,2) by (simp add: mem_rectangle_def right_guard)
next
  case (ConvexPolytope mx c)
  have mat: "right I (eval_to_matrix ev mx) (\<lambda>mat. length mat = length mx \<and> (\<forall>row \<in> set mat. length row = d))"
    by (rule right_matrix) (use assms(1) ev ConvexPolytope in auto)
  have rhs: "right I (eval_to_vector ev c) (\<lambda>xs. length xs = length c)"
    by (rule right_vector) (use ev ConvexPolytope in auto)
  show ?thesis
    unfolding ConvexPolytope membership_body.simps mem_polytope_def
    by (rule right_bnd [OF mat], rule right_bnd [OF rhs], rule right_guard)
      (use assms(1,2) ConvexPolytope in \<open>auto intro: right_ret\<close>)
next
  case (Intersection ss)
  then show ?thesis using mem by (simp add: mem_intersection_def right_allC)
next
  case (SetReference r)
  have "right I (set_ref r) (\<lambda>st. fine I (mem st pt))"
    unfolding set_ref_def by (rule right_deref) (use ref [OF SetReference] in \<open>blast intro: right_ret\<close>)
  then show ?thesis unfolding SetReference membership_body.simps by (rule right_bnd)
qed (use assms(1) in simp)

text \<open>The same for a node of the partial derivative, whose parts are evaluated and differentiated.\<close>

lemma right_bnd_fine: "fine I c \<Longrightarrow> (\<And>x. right I (f x) Q) \<Longrightarrow> right I (bnd c f) Q"
  by (rule right_bnd)

lemma right_deriv_unary:
  "fine I (ev a) \<Longrightarrow> fine I (dv a) \<Longrightarrow> fine I (deriv_unary M ev dv op a)"
  by (cases op) (simp_all add: deriv_unary_def right_bnd_fine right_ret)

lemma right_deriv_binary:
  assumes "fine I (ev a)" "fine I (ev b)" "fine I (dv a)" "fine I (dv b)"
  shows "fine I (deriv_binary M ev dv op a b)"
  using assms by (cases op) (simp_all add: deriv_binary_def right_bnd_fine right_ret)

lemma right_deriv_list:
  assumes ev: "\<And>e. e \<in> set es \<Longrightarrow> fine I (ev e)" and dv: "\<And>e. e \<in> set es \<Longrightarrow> fine I (dv e)"
  shows "fine I (deriv_list M ev dv op es)"
proof (cases op)
  case ListSum
  have "fine I (foldC (\<lambda>arg acc. bnd (dv arg) (\<lambda>d. ret (dadd M acc d))) es (Fin 0))"
    by (rule right_foldC) (simp add: dv right_bnd_fine right_ret)
  with ListSum show ?thesis by (simp add: deriv_list_def)
next
  case ListProd
  have arg: "fine I (dv (snd x))" if "x \<in> set (enumerate 0 es)" for x
    using that by (intro dv) (cases x, auto simp: enumerate_eq_zip dest: set_zip_rightD)
  have "fine I (foldC (\<lambda>(i, arg) acc. bnd (dv arg) (\<lambda>d. ret (dadd M acc (mult_others M i 0 xs d)))) (enumerate 0 es) (Fin 0))" for xs
    by (rule right_foldC) (simp add: arg split_def right_bnd_fine right_ret)
  then have "fine I (bnd (eval_to_vector ev es) (\<lambda>xs. foldC (\<lambda>(i, arg) acc. bnd (dv arg)
      (\<lambda>d. ret (dadd M acc (mult_others M i 0 xs d)))) (enumerate 0 es) (Fin 0)))"
    by (intro right_bnd [OF right_vector [OF ev]])
  with ListProd show ?thesis by (simp add: deriv_list_def)
qed

lemma right_deriv_body:
  assumes "platform_laws M" "\<And>s. I s \<Longrightarrow> ctx_vars G \<subseteq> dom (bound_vars s)" "wt_real_body G l b"
    and parts: "\<And>e. e \<in> set (real_parts b) \<Longrightarrow> fine I (ev e) \<and> fine I (dv e)"
    and mem: "\<And>st pt vs cs. b = CaseDistinction vs cs \<Longrightarrow> st \<in> set (set_parts b) \<Longrightarrow> length pt = length vs \<Longrightarrow> fine I (mem st pt)"
    and ref: "\<And>r s. b = Reference r \<Longrightarrow> I s \<Longrightarrow> \<exists>e. real_refs s r = Some e \<and> fine I (dv e)"
  shows "fine I (deriv_body M ev mem dv v b)"
proof (cases b)
  case (Variable x)
  with assms(3) show ?thesis
    using right_variable [where f = "\<lambda>_. if x = v then Fin 1 else Fin 0", OF assms(2)] by (simp add: deriv_var_def)
next
  case (Reference r)
  then show ?thesis using ref by (simp add: deriv_ref_def right_deref)
next
  case (CaseDistinction vs cs)
  have "fine I (deriv_case mem dv vs cs)"
    unfolding deriv_case_def
  proof (rule right_case)
    show "ctx_vars G \<subseteq> dom (bound_vars s)" if "I s" for s by (rule assms(2) [OF that])
    show "set vs \<subseteq> ctx_vars G" using assms(3) CaseDistinction by simp
    fix st e and pt :: "double list" assume "(st, e) \<in> set cs" "length pt = length vs"
    then show "fine I (mem st pt) \<and> fine I (dv e)"
      using parts [of e] mem [OF CaseDistinction, of st pt] CaseDistinction by force
  qed
  with CaseDistinction show ?thesis by simp
next
  case (Polynomial p)
  then show ?thesis
    using right_eval_poly [OF assms(1,2)] assms(3) by (simp add: deriv_poly_def right_ret split: option.split)
qed (use parts in \<open>simp_all add: right_ret right_deriv_unary right_deriv_binary right_deriv_list\<close>)

section \<open>Well-typed expressions\<close>

text \<open>The states of a call: the maps of references do not change, and the variables are bound.\<close>

definition call_state :: "typing \<Rightarrow> (string \<Rightarrow> real_expr option) \<Rightarrow> (string \<Rightarrow> set_expr option) \<Rightarrow> advfunc \<Rightarrow> bool" where
  "call_state G rr sr s \<longleftrightarrow> ctx_vars G \<subseteq> dom (bound_vars s) \<and> real_refs s = rr \<and> set_refs s = sr"

interpretation typed: refinement "call_state G rr sr" for G rr sr
  by unfold_locales (simp add: call_state_def)

context refinement begin

lemma right_enter:
  assumes "right I c Q"
  shows "right I (bnd enter_real (\<lambda>_. c)) Q" and "right I (bnd enter_set (\<lambda>_. c)) Q"
proof -
  have "right I enter_real (\<lambda>_. True)" "right I enter_set (\<lambda>_. True)"
    by (auto simp: right_in_def run_simps counter_free)
  then show "right I (bnd enter_real (\<lambda>_. c)) Q" "right I (bnd enter_set (\<lambda>_. c)) Q"
    using assms by (auto intro: right_bnd)
qed

end

lemma common_bound:
  "(\<And>x. x \<in> set xs \<Longrightarrow> \<exists>N. \<forall>n \<ge> N. P n x) \<Longrightarrow> \<exists>N. \<forall>n \<ge> N. \<forall>x \<in> set xs. P n x" for P :: "nat \<Rightarrow> 'a \<Rightarrow> bool"
proof (induction xs)
  case (Cons x xs)
  then obtain N1 N2 where "\<forall>n \<ge> N1. \<forall>x \<in> set xs. P n x" "\<forall>n \<ge> N2. P n x" by (metis list.set_intros)
  then show ?case by (intro exI [of _ "max N1 N2"]) auto
qed simp

lemma part_sizes:
  "e \<in> set (real_parts b) \<Longrightarrow> size e < size b" "st \<in> set (set_parts b) \<Longrightarrow> size st < size b"
  "e \<in> set (real_sparts sb) \<Longrightarrow> size e < size sb" "st \<in> set (set_sparts sb) \<Longrightarrow> size st < size sb"
proof -
  show "e \<in> set (real_parts b) \<Longrightarrow> size e < size b" "st \<in> set (set_parts b) \<Longrightarrow> size st < size b"
    by (cases b; auto simp: less_Suc_eq_le intro: size_elem size_elem_pair trans_le_add1 trans_le_add2)+
  show "e \<in> set (real_sparts sb) \<Longrightarrow> size e < size sb" "st \<in> set (set_sparts sb) \<Longrightarrow> size st < size sb"
    by (cases sb; auto simp: less_Suc_eq_le intro: size_elem size_elem_pair size_elem_elem trans_le_add1 trans_le_add2)+
qed

lemma wt_parts:
  "wt_real_body G l b \<Longrightarrow> e \<in> set (real_parts b) \<Longrightarrow> wt_real G l e"
  "wt_real_body G l (CaseDistinction vs cs) \<Longrightarrow> st \<in> set (set_parts (CaseDistinction vs cs)) \<Longrightarrow> wt_set G l (length vs) st"
  "wt_set_body G l d sb \<Longrightarrow> e \<in> set (real_sparts sb) \<Longrightarrow> wt_real G l e"
  "wt_set_body G l d sb \<Longrightarrow> st \<in> set (set_sparts sb) \<Longrightarrow> wt_set G l d st"
proof -
  show "wt_real_body G l b \<Longrightarrow> e \<in> set (real_parts b) \<Longrightarrow> wt_real G l e" by (cases b) force+
  show "wt_set_body G l d sb \<Longrightarrow> e \<in> set (real_sparts sb) \<Longrightarrow> wt_real G l e" by (cases sb) force+
  show "wt_set_body G l d sb \<Longrightarrow> st \<in> set (set_sparts sb) \<Longrightarrow> wt_set G l d st" by (cases sb) force+
qed force

definition settled_real :: "platform \<Rightarrow> (advfunc \<Rightarrow> bool) \<Rightarrow> real_expr \<Rightarrow> bool" where
  "settled_real M I e \<longleftrightarrow> (\<exists>N. \<forall>n \<ge> N. fine I (eval M n e) \<and> (\<forall>v. fine I (deriv M n v e)))"

definition settled_set :: "platform \<Rightarrow> (advfunc \<Rightarrow> bool) \<Rightarrow> nat \<Rightarrow> set_expr \<Rightarrow> bool" where
  "settled_set M I d st \<longleftrightarrow> (\<exists>N. \<forall>n \<ge> N. \<forall>pt. length pt = d \<longrightarrow> fine I (membership M n st pt))"

lemma settled_real_node:
  assumes M: "platform_laws M" and wt: "wt_real_body G l b" and I: "I = call_state G rr sr"
    and parts: "\<And>e. e \<in> set (real_parts b) \<Longrightarrow> settled_real M I e"
    and mem: "\<And>vs cs st. b = CaseDistinction vs cs \<Longrightarrow> st \<in> set (set_parts b) \<Longrightarrow> settled_set M I (length vs) st"
    and ref: "\<And>r. b = Reference r \<Longrightarrow> \<exists>e. rr r = Some e \<and> settled_real M I e"
  shows "settled_real M I (RealExpr nm b)"
proof -
  have bound: "\<And>s. I s \<Longrightarrow> ctx_vars G \<subseteq> dom (bound_vars s)" by (simp add: I call_state_def)
  have "\<exists>N. \<forall>n \<ge> N. \<forall>e \<in> set (real_parts b). fine I (eval M n e) \<and> (\<forall>v. fine I (deriv M n v e))"
    by (rule common_bound) (use parts in \<open>simp add: settled_real_def\<close>)
  then obtain N1 where N1: "\<And>n e. N1 \<le> n \<Longrightarrow> e \<in> set (real_parts b) \<Longrightarrow> fine I (eval M n e) \<and> (\<forall>v. fine I (deriv M n v e))"
    by blast
  have "\<exists>N. \<forall>n \<ge> N. \<forall>st \<in> set (set_parts b). \<forall>vs cs pt. b = CaseDistinction vs cs \<longrightarrow> length pt = length vs \<longrightarrow>
      fine I (membership M n st pt)"
  proof (rule common_bound)
    fix st assume st: "st \<in> set (set_parts b)"
    then obtain vs cs where b: "b = CaseDistinction vs cs" by (cases b) auto
    from mem [OF b st] show "\<exists>N. \<forall>n \<ge> N. \<forall>vs cs pt. b = CaseDistinction vs cs \<longrightarrow> length pt = length vs \<longrightarrow>
        fine I (membership M n st pt)"
      by (simp add: settled_set_def b)
  qed
  then obtain N2 where N2: "\<And>n st vs cs pt. N2 \<le> n \<Longrightarrow> st \<in> set (set_parts b) \<Longrightarrow> b = CaseDistinction vs cs \<Longrightarrow>
      length pt = length vs \<Longrightarrow> fine I (membership M n st pt)"
    by blast
  have "\<exists>N. \<forall>n \<ge> N. \<forall>r. b = Reference r \<longrightarrow>
      (\<exists>e. rr r = Some e \<and> fine I (eval M n e) \<and> (\<forall>v. fine I (deriv M n v e)))"
  proof (cases "\<exists>r. b = Reference r")
    case True
    then obtain r e where "b = Reference r" "rr r = Some e" "settled_real M I e" using ref by blast
    then show ?thesis by (simp add: settled_real_def)
  qed simp
  then obtain N3 where N3: "\<And>n r. N3 \<le> n \<Longrightarrow> b = Reference r \<Longrightarrow>
      \<exists>e. rr r = Some e \<and> fine I (eval M n e) \<and> (\<forall>v. fine I (deriv M n v e))"
    by blast
  have "fine I (eval M (Suc n) (RealExpr nm b)) \<and> fine I (deriv M (Suc n) v (RealExpr nm b))" if "max N1 (max N2 N3) \<le> n" for n v
  proof -
    have n: "N1 \<le> n" "N2 \<le> n" "N3 \<le> n" using that by auto
    have ref: "\<exists>e. real_refs s r = Some e \<and> fine I (eval M n e) \<and> fine I (deriv M n v e)" if "b = Reference r" "I s" for r s
      using N3 [OF n(3) that(1)] that(2) by (auto simp: I call_state_def)
    have "fine I (eval_body M (eval M n) (membership M n) b)"
      using N1 [OF n(1)] N2 [OF n(2)] ref by (intro right_eval_body [OF M bound wt]) blast+
    moreover have "fine I (deriv_body M (eval M n) (membership M n) (deriv M n v) v b)"
      using N1 [OF n(1)] N2 [OF n(2)] ref by (intro right_deriv_body [OF M bound wt]) blast+
    ultimately show ?thesis by (simp add: I typed.right_enter)
  qed
  then show ?thesis
    unfolding settled_real_def by (intro exI [of _ "Suc (max N1 (max N2 N3))"]) (metis Suc_le_D Suc_le_mono)
qed

lemma settled_set_node:
  assumes wt: "wt_set_body G l d b" and I: "I = call_state G rr sr"
    and parts: "\<And>e. e \<in> set (real_sparts b) \<Longrightarrow> settled_real M I e"
    and mem: "\<And>st. st \<in> set (set_sparts b) \<Longrightarrow> settled_set M I d st"
    and ref: "\<And>r. b = SetReference r \<Longrightarrow> \<exists>st. sr r = Some st \<and> settled_set M I d st"
  shows "settled_set M I d (SetExpr nm b)"
proof -
  have "\<exists>N. \<forall>n \<ge> N. \<forall>e \<in> set (real_sparts b). fine I (eval M n e)"
    by (rule common_bound) (use parts in \<open>unfold settled_real_def, blast\<close>)
  then obtain N1 where N1: "\<And>n e. N1 \<le> n \<Longrightarrow> e \<in> set (real_sparts b) \<Longrightarrow> fine I (eval M n e)" by blast
  have "\<exists>N. \<forall>n \<ge> N. \<forall>st \<in> set (set_sparts b). \<forall>pt. length pt = d \<longrightarrow> fine I (membership M n st pt)"
    by (rule common_bound) (use mem in \<open>simp add: settled_set_def\<close>)
  then obtain N2 where N2: "\<And>n st pt. N2 \<le> n \<Longrightarrow> st \<in> set (set_sparts b) \<Longrightarrow> length pt = d \<Longrightarrow> fine I (membership M n st pt)"
    by blast
  have "\<exists>N. \<forall>n \<ge> N. \<forall>r. b = SetReference r \<longrightarrow> (\<exists>st. sr r = Some st \<and> (\<forall>pt. length pt = d \<longrightarrow> fine I (membership M n st pt)))"
  proof (cases "\<exists>r. b = SetReference r")
    case True
    then obtain r st where "b = SetReference r" "sr r = Some st" "settled_set M I d st" using ref by blast
    then show ?thesis by (simp add: settled_set_def)
  qed simp
  then obtain N3 where N3: "\<And>n r. N3 \<le> n \<Longrightarrow> b = SetReference r \<Longrightarrow>
      \<exists>st. sr r = Some st \<and> (\<forall>pt. length pt = d \<longrightarrow> fine I (membership M n st pt))"
    by blast
  have "fine I (membership M (Suc n) (SetExpr nm b) pt)" if "max N1 (max N2 N3) \<le> n" and pt: "length pt = d" for n pt
  proof -
    have n: "N1 \<le> n" "N2 \<le> n" "N3 \<le> n" using that by auto
    have ref: "\<exists>st. set_refs s r = Some st \<and> fine I (membership M n st pt)" if "b = SetReference r" "I s" for r s
      using N3 [OF n(3) that(1)] that(2) pt by (auto simp: I call_state_def)
    have "fine I (membership_body M (eval M n) (membership M n) b pt)"
      using N1 [OF n(1)] N2 [OF n(2) _ pt] ref by (intro right_membership_body [OF wt pt]) blast+
    then show ?thesis by (simp add: I typed.right_enter)
  qed
  then show ?thesis
    unfolding settled_set_def by (intro exI [of _ "Suc (max N1 (max N2 N3))"]) (metis Suc_le_D Suc_le_mono)
qed

text \<open>All expressions of a level, when those of the lower levels are settled.\<close>

lemma settled_level:
  assumes M: "platform_laws M" and I: "I = call_state G rr sr"
    and real: "\<And>r k. real_level G r = Some k \<Longrightarrow> k < l \<Longrightarrow> \<exists>e. rr r = Some e \<and> settled_real M I e"
    and set: "\<And>r d k. set_type G r = Some (d, k) \<Longrightarrow> k < l \<Longrightarrow> \<exists>st. sr r = Some st \<and> settled_set M I d st"
  shows "(\<forall>e. size e \<le> m \<longrightarrow> wt_real G l e \<longrightarrow> settled_real M I e) \<and>
    (\<forall>st d. size st \<le> m \<longrightarrow> wt_set G l d st \<longrightarrow> settled_set M I d st)"
proof (induction m)
  case 0
  have "0 < size e" "0 < size st" for e :: real_expr and st :: set_expr by (cases e, simp) (cases st, simp)
  then show ?case by (metis not_le)
next
  case (Suc m)
  have "settled_real M I e" if "size e \<le> Suc m" "wt_real G l e" for e
  proof (cases e)
    case (RealExpr nm b)
    with that have b: "size b \<le> m" "wt_real_body G l b" by simp_all
    show ?thesis
      unfolding RealExpr
    proof (rule settled_real_node [OF M b(2) I])
      fix e assume "e \<in> set (real_parts b)"
      then show "settled_real M I e" using part_sizes(1) wt_parts(1) [OF b(2)] b(1) Suc.IH by (meson less_imp_le order_trans)
    next
      fix vs cs st assume c: "b = CaseDistinction vs cs" "st \<in> set (set_parts b)"
      then have "wt_set G l (length vs) st" "size st \<le> m"
        using wt_parts(2) b part_sizes(2) [OF c(2)] by auto
      then show "settled_set M I (length vs) st" using Suc.IH by blast
    next
      fix r assume "b = Reference r"
      with b(2) real show "\<exists>e. rr r = Some e \<and> settled_real M I e" by auto
    qed
  qed
  moreover have "settled_set M I d st" if "size st \<le> Suc m" "wt_set G l d st" for st d
  proof (cases st)
    case (SetExpr nm b)
    with that have b: "size b \<le> m" "wt_set_body G l d b" by simp_all
    show ?thesis
      unfolding SetExpr
    proof (rule settled_set_node [OF b(2) I])
      fix e assume "e \<in> set (real_sparts b)"
      then show "settled_real M I e" using part_sizes(3) wt_parts(3) [OF b(2)] b(1) Suc.IH by (meson less_imp_le order_trans)
    next
      fix st assume "st \<in> set (set_sparts b)"
      then show "settled_set M I d st" using part_sizes(4) wt_parts(4) [OF b(2)] b(1) Suc.IH by (meson less_imp_le order_trans)
    next
      fix r assume "b = SetReference r"
      with b(2) set show "\<exists>st. sr r = Some st \<and> settled_set M I d st" by auto
    qed
  qed
  ultimately show ?case by blast
qed

lemma typed_settled:
  assumes "platform_laws M" "wt_refs G rr sr" "I = call_state G rr sr"
  shows "(wt_real G l e \<longrightarrow> settled_real M I e) \<and> (wt_set G l d st \<longrightarrow> settled_set M I d st)"
proof (induction l arbitrary: e st d rule: less_induct)
  case (less l)
  have "\<exists>e. rr r = Some e \<and> settled_real M I e" if "real_level G r = Some k" "k < l" for r k
    using assms(2) that less [of k] unfolding wt_refs_def by blast
  moreover have "\<exists>st. sr r = Some st \<and> settled_set M I d st" if "set_type G r = Some (d, k)" "k < l" for r d k
    using assms(2) that less [of k] unfolding wt_refs_def by blast
  ultimately show ?case
    using settled_level [OF assms(1,3), of l "max (size e) (size st)"] by (metis max.cobounded1 max.cobounded2)
qed

section \<open>Soundness\<close>

lemma fine_call:
  assumes "fine (call_state G (real_refs s) (set_refs s)) c" and "adv_valid s" "ctx_vars G \<subseteq> dom env"
  shows "\<exists>r t. bnd (start_call env) (\<lambda>_. c) s = Some (r, t) \<and> no_fault r"
proof -
  have "call_state G (real_refs s) (set_refs s) (s\<lparr>bound_vars := env, nesting_depth := 0\<rparr>)"
    using assms(3) by (simp add: call_state_def)
  with assms(1) obtain r t where "c (s\<lparr>bound_vars := env, nesting_depth := 0\<rparr>) = Some (r, t)"
      "call_state G (real_refs s) (set_refs s) t" "no_fault r"
    by (rule rightD)
  then show ?thesis using assms(2) by (simp add: run_simps start_call_run)
qed

lemma typed_calls:
  assumes M: "platform_laws M" and s: "adv_valid s" "wt_refs G (real_refs s) (set_refs s)" and env: "ctx_vars G \<subseteq> dom env"
  shows "wt_real G l e \<Longrightarrow> \<exists>N. \<forall>n \<ge> N. (\<exists>r t. evaluate M n e env s = Some (r, t) \<and> no_fault r) \<and>
      (\<exists>r t. eval_partial_derivative M n e v env s = Some (r, t) \<and> no_fault r)"
    and "wt_set G l (length pt) st \<Longrightarrow> \<exists>N. \<forall>n \<ge> N. \<exists>r t. test_membership M n st pt env s = Some (r, t) \<and> no_fault r"
proof -
  let ?I = "call_state G (real_refs s) (set_refs s)"
  note settled = typed_settled [OF M s(2) refl, of l e "length pt" st]
  show "\<exists>N. \<forall>n \<ge> N. (\<exists>r t. evaluate M n e env s = Some (r, t) \<and> no_fault r) \<and>
      (\<exists>r t. eval_partial_derivative M n e v env s = Some (r, t) \<and> no_fault r)" if "wt_real G l e"
  proof -
    have "settled_real M ?I e" using settled that by simp
    then obtain N where "\<forall>n \<ge> N. fine ?I (eval M n e) \<and> (\<forall>v. fine ?I (deriv M n v e))"
      unfolding settled_real_def by (rule exE)
    then show ?thesis
      unfolding evaluate_def eval_partial_derivative_def by (intro exI [of _ N] allI impI conjI fine_call [OF _ s(1) env]) simp_all
  qed
  show "\<exists>N. \<forall>n \<ge> N. \<exists>r t. test_membership M n st pt env s = Some (r, t) \<and> no_fault r" if "wt_set G l (length pt) st"
  proof -
    have "settled_set M ?I (length pt) st" using settled that by simp
    then obtain N where "\<forall>n \<ge> N. \<forall>p. length p = length pt \<longrightarrow> fine ?I (membership M n st p)"
      unfolding settled_set_def by (rule exE)
    then show ?thesis
      unfolding test_membership_def by (intro exI [of _ N] allI impI fine_call [OF _ s(1) env]) simp
  qed
qed

text \<open>C3: Type soundness. When the variables of the context are bound and the reference maps hold expressions of the declared types, then with enough fuel \<open>evaluate\<close> and \<open>evalPartialDerivative\<close> on a well-typed expression and \<open>testMembership\<close> on a well-typed set, at a point of its dimension, all return, with a value or with the interpreter's own \<open>EvaluationError\<close>: never a failed assertion, an unresolved name, a \<open>throw\<close> with no exception or undefined behaviour. References are allowed, to names of lower levels.\<close>

theorem well_typed_calls_return:
  assumes "platform_laws M" and "adv_valid s" and "wt_refs G (real_refs s) (set_refs s)" and "ctx_vars G \<subseteq> dom env"
    and "wt_real G l e" and "wt_set G k (length pt) st"
  shows "\<exists>N. \<forall>n \<ge> N. (\<exists>r t. evaluate M n e env s = Some (r, t) \<and> no_fault r) \<and>
    (\<exists>r t. eval_partial_derivative M n e v env s = Some (r, t) \<and> no_fault r) \<and>
    (\<exists>r t. test_membership M n st pt env s = Some (r, t) \<and> no_fault r)"
proof -
  obtain N1 where N1: "\<forall>n \<ge> N1. (\<exists>r t. evaluate M n e env s = Some (r, t) \<and> no_fault r) \<and>
      (\<exists>r t. eval_partial_derivative M n e v env s = Some (r, t) \<and> no_fault r)"
    using typed_calls(1) [OF assms(1-5)] by (rule exE)
  obtain N2 where N2: "\<forall>n \<ge> N2. \<exists>r t. test_membership M n st pt env s = Some (r, t) \<and> no_fault r"
    using typed_calls(2) [OF assms(1-4,6)] by (rule exE)
  show ?thesis using N1 N2 by (intro exI [of _ "max N1 N2"]) simp
qed

text \<open>A cost that is 1 inside a named set, whose bound is a named expression, at a request that is not a number.\<close>

definition example_ctx :: typing where
  "example_ctx = \<lparr> ctx_vars = {''P''}, real_level = [''x'' \<mapsto> 0], set_type = [''box'' \<mapsto> (1, 1)] \<rparr>"

definition example_box :: set_expr where
  "example_box = SetExpr (Some ''box'') (Rectangle [(real_lit (Fin 0), RealExpr None (Reference ''x''))])"

definition example_cost :: real_expr where
  "example_cost = RealExpr None (CaseDistinction [''P''] [(set_of_body (SetReference ''box''), real_lit (Fin 1))])"

definition example_state :: advfunc where
  "example_state = new_advfunc\<lparr>adv_valid := True,
     real_refs := [''x'' \<mapsto> RealExpr (Some ''x'') (UnaryOperation OpAbs (var_ref ''P''))], set_refs := [''box'' \<mapsto> example_box]\<rparr>"

theorem well_typed_calls_return_witness:
  "\<exists>n r t q u. evaluate ieee64 n example_cost [''P'' \<mapsto> Nan] example_state = Some (r, t) \<and> no_fault r \<and>
    test_membership ieee64 n example_box [Fin 2] [''P'' \<mapsto> Nan] example_state = Some (q, u) \<and> no_fault q"
proof -
  have wt: "wt_refs example_ctx (real_refs example_state) (set_refs example_state)"
    by (simp add: wt_refs_def example_ctx_def example_state_def example_box_def)
  have e: "wt_real example_ctx 2 example_cost" "wt_set example_ctx 1 (length [Fin 2]) example_box"
    by (simp_all add: example_ctx_def example_cost_def example_box_def)
  have s: "adv_valid example_state" "ctx_vars example_ctx \<subseteq> dom [''P'' \<mapsto> Nan]"
    by (simp_all add: example_state_def example_ctx_def)
  show ?thesis
    using well_typed_calls_return [OF ieee64_p.platform_laws_axioms s(1) wt s(2) e, of "''P''"] by blast
qed

end
