(* ===== verification/Typing_Devices.thy ===== *)
theory Typing_Devices imports Typing Hlapi_Zenone begin

text \<open>
  Every advertisement that \<open>hlapi.cpp\<close> and \<open>hlapi-internal.hpp\<close> build is well typed, whatever
  the numbers it is built from (infinities and NaNs included) and whatever the platform's
  rounding; by the soundness of the types, a receiver can use its three expressions without a fault.
\<close>

section \<open>Typing what the builders write\<close>

fun expr_typed :: "typing \<Rightarrow> nat \<Rightarrow> expr \<Rightarrow> bool" where
  "expr_typed G l (ERef r) = (\<exists>k \<in> set_option (real_level G r). k < l)"
| "expr_typed G l (EVar v) = (v \<in> ctx_vars G)"
| "expr_typed G l (EName n e) = expr_typed G l e"
| "expr_typed G l (EReal x) = True"
| "expr_typed G l (EPoly m) = True"
| "expr_typed G l (EUnary op a) = expr_typed G l a"
| "expr_typed G l (EBinary op a b) = (expr_typed G l a \<and> expr_typed G l b)"

lemma build_typed: "build_expr M chk nm e = Inr x \<Longrightarrow> expr_typed G l e \<Longrightarrow> wt_real G l x"
  by (induction e arbitrary: nm x) (auto simp: rbind_Inr_iff split: if_splits)

lemma build_real_typed: "build_real_expr M chk e = Inr x \<Longrightarrow> expr_typed G l e \<Longrightarrow> wt_real G l x"
  unfolding build_real_expr_def by (rule build_typed)

lemma built_polynomial_typed:
  assumes "build_polynomial M ms = Inr p" "set (sum_variables ms) \<subseteq> ctx_vars G" "0 \<le> sum_maxVarDegree ms" "sum_maxVarDegree ms \<le> 255"
    and "(sum_maxVarDegree ms + 1) ^ length (sum_variables ms) \<le> 2 ^ 31"
  shows "wt_real G l (RealExpr nm (Polynomial p))"
  using assms by (auto simp: build_polynomial_def rbind_Inr_iff Let_def wt_polynomial_def uint_word_of_int)

lemma polytope_typed:
  assumes "build_convex_polytope A c = Inr b" "rectangular A d"
  shows "wt_set G l d (set_of_body b)"
  using assms rectangular_init_matrix [OF assms(2)]
  by (auto simp: build_convex_polytope_def init_matrix_def init_vector_def split: if_splits)

lemma lit_typed: "wt_real G l (real_lit x)"
  by simp

lemma disk_typed: "wt_set G l 2 (set_of_body (disk_at_origin r))"
  by (simp add: disk_at_origin_def)

section \<open>Well-typed advertisements\<close>

text \<open>
  The context of an advertisement: the profile is used without bound variables, the belief and
  the cost at a request \<open>P\<close>, \<open>Q\<close>. The names are those that \<open>setAdv\<close> finds.
\<close>

definition empty_ctx :: typing where
  "empty_ctx = \<lparr> ctx_vars = {}, real_level = Map.empty, set_type = Map.empty \<rparr>"

definition pq_ctx :: "(string \<Rightarrow> nat option) \<Rightarrow> typing" where
  "pq_ctx levels = \<lparr> ctx_vars = {''P'', ''Q''}, real_level = levels, set_type = Map.empty \<rparr>"

definition wt_advertisement :: "(string \<Rightarrow> nat option) \<Rightarrow> advertisement \<Rightarrow> bool" where
  "wt_advertisement levels a \<longleftrightarrow>
     wt_refs (pq_ctx levels) (map_of (rev (concat (map named_real (adv_nodes a))))) (map_of (rev (concat (map named_set (adv_nodes a))))) \<and>
     wt_set empty_ctx 0 2 (get_pq_profile a) \<and> wt_set (pq_ctx levels) 1 2 (get_belief_function a) \<and>
     wt_real (pq_ctx levels) 1 (get_cost_function a)"

lemma set_adv_outcome:
  "(\<exists>t. set_adv a new_advfunc = Some (Inl Evaluation_Error, t)) \<or>
   length (profile_nodes a) \<le> 10000 \<and> length (belief_nodes a) \<le> 10000 \<and> length (cost_nodes a) \<le> 10000"
proof -
  let ?s = "new_advfunc\<lparr>adv := a, adv_valid := True\<rparr>"
  have long_set: "\<exists>t. (case z of None \<Rightarrow> ret () | Some st \<Rightarrow> bnd (find_refs_set st) (\<lambda>_. put_st (\<lambda>s. s\<lparr>nesting_depth := 0\<rparr>))) s =
      Some (Inl Evaluation_Error, t)"
    if d: "nesting_depth s = 0" "\<not> length (case z of None \<Rightarrow> [] | Some st \<Rightarrow> nodes_set st) \<le> 10000" for z s
  proof (cases z)
    case (Some st)
    then obtain t where "forC visit (nodes_set st) s = Some (Inl Evaluation_Error, t)"
      using d walk_too_long [of s "nodes_set st"] by (auto simp: MAX_NESTING_DEPTH_def)
    with Some show ?thesis by (simp add: run_simps find_refs_walk)
  qed (use d in simp)
  have long_real: "\<exists>t. (case z of None \<Rightarrow> ret () | Some e \<Rightarrow> bnd (find_refs_real e) (\<lambda>_. put_st (\<lambda>s. s\<lparr>nesting_depth := 0\<rparr>))) s =
      Some (Inl Evaluation_Error, t)"
    if d: "nesting_depth s = 0" "\<not> length (case z of None \<Rightarrow> [] | Some e \<Rightarrow> nodes_real e) \<le> 10000" for z s
  proof (cases z)
    case (Some e)
    then obtain t where "forC visit (nodes_real e) s = Some (Inl Evaluation_Error, t)"
      using d walk_too_long [of s "nodes_real e"] by (auto simp: MAX_NESTING_DEPTH_def)
    with Some show ?thesis by (simp add: run_simps find_refs_walk)
  qed (use d in simp)
  have split: "set_adv a new_advfunc = find_references ?s" by (simp add: set_adv_def run_simps)
  show ?thesis
  proof (cases "length (profile_nodes a) \<le> 10000")
    case False
    then show ?thesis using long_set [of "?s\<lparr>nesting_depth := 0\<rparr>" "pQProfile a"]
      by (auto simp: split find_references_def run_simps profile_nodes_def)
  next
    case profile: True
    have one: "(case pQProfile a of None \<Rightarrow> ret () | Some st \<Rightarrow> bnd (find_refs_set st) (\<lambda>_. put_st (\<lambda>s. s\<lparr>nesting_depth := 0\<rparr>)))
        (?s\<lparr>nesting_depth := 0\<rparr>) = Some (Inr (), record_all (profile_nodes a) (?s\<lparr>nesting_depth := 0\<rparr>))"
      using walk_part_set [of "?s\<lparr>nesting_depth := 0\<rparr>" "pQProfile a"] profile by (simp add: profile_nodes_def)
    show ?thesis
    proof (cases "length (belief_nodes a) \<le> 10000")
      case False
      then show ?thesis using one long_set [of "record_all (profile_nodes a) (?s\<lparr>nesting_depth := 0\<rparr>)" "beliefFunction a"]
        by (auto simp: split find_references_def run_simps belief_nodes_def record_all_depth)
    next
      case belief: True
      have two: "(case beliefFunction a of None \<Rightarrow> ret () | Some st \<Rightarrow> bnd (find_refs_set st) (\<lambda>_. put_st (\<lambda>s. s\<lparr>nesting_depth := 0\<rparr>)))
          (record_all (profile_nodes a) (?s\<lparr>nesting_depth := 0\<rparr>)) =
          Some (Inr (), record_all (belief_nodes a) (record_all (profile_nodes a) (?s\<lparr>nesting_depth := 0\<rparr>)))"
        using walk_part_set [of "record_all (profile_nodes a) (?s\<lparr>nesting_depth := 0\<rparr>)" "beliefFunction a"] belief
        by (simp add: belief_nodes_def record_all_depth)
      show ?thesis
        using profile belief one two
          long_real [of "record_all (belief_nodes a) (record_all (profile_nodes a) (?s\<lparr>nesting_depth := 0\<rparr>))" "costFunction a"]
        by (cases "length (cost_nodes a) \<le> 10000")
          (auto simp: split find_references_def run_simps cost_nodes_def record_all_depth)
    qed
  qed
qed

lemma wt_refs_empty: "wt_refs empty_ctx rr sr"
  by (simp add: wt_refs_def empty_ctx_def)

definition at_request :: "double \<Rightarrow> double \<Rightarrow> value_map" where
  "at_request p q = [''P'' \<mapsto> p, ''Q'' \<mapsto> q]"

lemma receiver_sound:
  assumes "platform_laws M" "wt_advertisement levels a"
  shows "\<exists>N. \<forall>n \<ge> N.
    (\<exists>r t. received a (evaluate M n (get_cost_function a) (at_request p q)) = Some (r, t) \<and> no_fault r) \<and>
    (\<exists>r t. received a (eval_partial_derivative M n (get_cost_function a) v (at_request p q)) = Some (r, t) \<and> no_fault r) \<and>
    (\<exists>r t. received a (test_membership M n (get_belief_function a) [x, y] (at_request p q)) = Some (r, t) \<and> no_fault r) \<and>
    (\<exists>r t. received a (test_membership M n (get_pq_profile a) [x, y] Map.empty) = Some (r, t) \<and> no_fault r)"
  (is "\<exists>N. \<forall>n \<ge> N. ?all n")
proof (cases "\<exists>t. set_adv a new_advfunc = Some (Inl Evaluation_Error, t)")
  case True
  then show ?thesis by (auto simp: received_def run_simps)
next
  case False
  with set_adv_outcome have "length (profile_nodes a) \<le> 10000" "length (belief_nodes a) \<le> 10000" "length (cost_nodes a) \<le> 10000"
    by blast+
  from set_adv_run [OF this] obtain s where s: "set_adv a new_advfunc = Some (Inr (), s)" "adv_valid s"
      "wt_refs (pq_ctx levels) (real_refs s) (set_refs s)"
    using assms(2) by (simp add: wt_advertisement_def)
  have wt: "wt_set empty_ctx 0 2 (get_pq_profile a)" "wt_set (pq_ctx levels) 1 2 (get_belief_function a)"
    "wt_real (pq_ctx levels) 1 (get_cost_function a)" using assms(2) unfolding wt_advertisement_def by blast+
  have two: "length [x, y] = 2" by simp
  have env: "ctx_vars (pq_ctx levels) \<subseteq> dom (at_request p q)" "ctx_vars empty_ctx \<subseteq> dom Map.empty"
    by (auto simp: pq_ctx_def at_request_def empty_ctx_def)
  obtain N1 where N1: "\<forall>n \<ge> N1. (\<exists>r t. evaluate M n (get_cost_function a) (at_request p q) s = Some (r, t) \<and> no_fault r) \<and>
      (\<exists>r t. eval_partial_derivative M n (get_cost_function a) v (at_request p q) s = Some (r, t) \<and> no_fault r)"
    using typed_calls(1) [OF assms(1) s(2,3) env(1) wt(3)] by (rule exE)
  obtain N2 where N2: "\<forall>n \<ge> N2. \<exists>r t. test_membership M n (get_belief_function a) [x, y] (at_request p q) s = Some (r, t) \<and> no_fault r"
    using typed_calls(2) [OF assms(1) s(2,3) env(1) wt(2) [folded two]] by (rule exE)
  obtain N3 where N3: "\<forall>n \<ge> N3. \<exists>r t. test_membership M n (get_pq_profile a) [x, y] Map.empty s = Some (r, t) \<and> no_fault r"
    using typed_calls(2) [OF assms(1) s(2) wt_refs_empty env(2) wt(1) [folded two]] by (rule exE)
  show ?thesis
    using N1 N2 N3 s(1) by (intro exI [of _ "max N1 (max N2 N3)"]) (simp add: received_def run_simps)
qed

section \<open>The devices\<close>

lemma pq_vars [simp]: "ctx_vars (pq_ctx levels) = {''P'', ''Q''}" "real_level (pq_ctx levels) = levels"
  by (simp_all add: pq_ctx_def)

lemma wt_refs_unnamed: "wt_refs (pq_ctx Map.empty) rr sr"
  by (simp add: wt_refs_def pq_ctx_def)

lemma wt_refs_one: "rr r = Some e \<Longrightarrow> wt_real (pq_ctx [r \<mapsto> 0]) 0 e \<Longrightarrow> wt_refs (pq_ctx [r \<mapsto> 0]) rr sr"
  by (simp add: wt_refs_def pq_ctx_def)

lemma normalized_cost_typed:
  assumes "normalized_cost M lin quad = Inr e"
  shows "wt_real (pq_ctx levels) l e" and "concat (map named_real (nodes_real e)) = []"
proof -
  let ?m = "mono_plus (mono_scale M (Fin (1 / 2)) (var_power ''P'' 2))
      (mono_scale M (ddiv M lin (dmul M (Fin 2) quad)) (monomial_of_var ''P''))"
  have m: "sum_variables ?m = [''P'']" "sum_maxVarDegree ?m = 2"
    by (simp_all add: sum_variables_def sum_maxVarDegree_def mono_maxVarDegree_def poly_build_defs)
  have typed: "wt_real (pq_ctx levels) l (RealExpr None (Polynomial p))" if "build_polynomial M ?m = Inr p" for p
    by (rule built_polynomial_typed [OF that]) (simp_all only: m, simp_all)
  show "wt_real (pq_ctx levels) l e"
    using assms typed unfolding normalized_cost_def by (auto simp: rbind_Inr_iff split: if_splits)
  show "concat (map named_real (nodes_real e)) = []"
    using assms by (auto simp: normalized_cost_def rbind_Inr_iff split: if_splits)
qed

lemma pv_cost_typed:
  assumes "pv_cost M a b = Inr e"
  shows "wt_real (pq_ctx levels) l e" and "concat (map named_real (nodes_real e)) = []"
proof -
  let ?m = "mono_plus (mono_scale M (dneg a) (monomial_of_var ''P'')) (mono_scale M b (var_power ''Q'' 2))"
  have m: "sum_variables ?m = [''P'', ''Q'']" "sum_maxVarDegree ?m = 2"
    by (simp_all add: sum_variables_def sum_maxVarDegree_def mono_maxVarDegree_def poly_build_defs less_eq_list_code)
  obtain p where p: "build_polynomial M ?m = Inr p" "e = RealExpr None (Polynomial p)"
    using assms by (auto simp: pv_cost_def rbind_Inr_iff)
  show "wt_real (pq_ctx levels) l e"
    unfolding p(2) by (rule built_polynomial_typed [OF p(1)]) (simp_all only: m, simp_all)
  show "concat (map named_real (nodes_real e)) = []" by (simp add: p(2))
qed

text \<open>The polynomials of the cost functions can always be encoded, so that the builders do not fail on them.\<close>

lemma normalized_cost_built:
  assumes "platform_laws M"
  shows "\<exists>e. normalized_cost M lin quad = Inr e"
proof -
  let ?m = "mono_plus (mono_scale M (Fin (1 / 2)) (var_power ''P'' 2))
      (mono_scale M (ddiv M lin (dmul M (Fin 2) quad)) (monomial_of_var ''P''))"
  have v: "sum_variables ?m = [''P'']" by (simp add: sum_variables_def poly_build_defs)
  have "encodable ?m"
    unfolding encodable_def v by (simp add: well_formed_def poly_build_defs sum_maxVarDegree_def mono_maxVarDegree_def)
  from build_polynomial_run [OF assms this] show ?thesis by (simp add: normalized_cost_def)
qed

lemma pv_cost_built:
  assumes "platform_laws M"
  shows "\<exists>e. pv_cost M a b = Inr e"
proof -
  let ?m = "mono_plus (mono_scale M (dneg a) (monomial_of_var ''P'')) (mono_scale M b (var_power ''Q'' 2))"
  have v: "sum_variables ?m = [''P'', ''Q'']"
    by (simp add: sum_variables_def poly_build_defs less_eq_list_code)
  have "encodable ?m"
    unfolding encodable_def v by (simp add: well_formed_def poly_build_defs sum_maxVarDegree_def mono_maxVarDegree_def)
  from build_polynomial_run [OF assms this] show ?thesis by (simp add: pv_cost_def)
qed

lemma battery_typed:
  assumes "battery_advertisement M Pmin Pmax S c1 c2 Pimp Qimp empty_adv = Inr a"
  shows "wt_advertisement Map.empty a"
proof -
  obtain st e b where st: "battery_profile Pmin Pmax S = Inr st" and e: "normalized_cost M c1 c2 = Inr e"
    and a: "a = (set_impl_setpoint Pimp Qimp empty_adv)\<lparr>pQProfile := Some st,
      beliefFunction := Some (set_of_body (Singleton [var_ref ''P'', var_ref ''Q''])), costFunction := Some e\<rparr>"
    using assms by (auto simp: battery_advertisement_def rbind_Inr_iff)
  have "wt_set empty_ctx 0 2 st"
    using st disk_typed polytope_typed [where d = 2 and A = "[[Fin 1, Fin 0], [Fin (- 1), Fin 0]]"]
    by (auto simp: battery_profile_def rbind_Inr_iff rectangular_def)
  with a show ?thesis
    using normalized_cost_typed(1) [OF e]
    by (simp add: wt_advertisement_def wt_refs_unnamed get_pq_profile_def get_belief_function_def get_cost_function_def)
qed

lemma uncontrollable_typed:
  assumes "uncontrollable_resource M chk Pexp Qexp S dPup dPdown dQup dQdown Pimp Qimp ty Pgap empty_adv = Inr a"
  shows "wt_advertisement Map.empty a"
proof -
  obtain st where st: "uncontrollable_belief M chk S dPup dPdown dQup dQdown ty Pgap = Inr st"
    and a: "a = (set_impl_setpoint Pimp Qimp empty_adv)\<lparr>pQProfile := Some (set_of_body (Singleton [real_lit Pexp, real_lit Qexp])),
        beliefFunction := Some st, costFunction := Some (real_lit (Fin 0))\<rparr>"
    using assms by (auto simp: uncontrollable_resource_def rbind_Inr_iff)
  have "wt_set (pq_ctx Map.empty) 1 2 st"
    using st disk_typed
      polytope_typed [where d = 2 and A = "[[if ty = LoadResource then Fin 1 else Fin (- 1), Fin 0]]" and l = 1 and G = "pq_ctx Map.empty"]
    by (auto simp: uncontrollable_belief_def rbind_Inr_iff rectangular_def Let_def expr_defs dest!: build_real_typed split: if_splits)
  with a show ?thesis
    by (simp add: wt_advertisement_def wt_refs_unnamed get_pq_profile_def get_belief_function_def get_cost_function_def)
qed

text \<open>The named bound of the PV belief is the only name of that advertisement.\<close>

definition pv_bound :: "double \<Rightarrow> real_expr" where
  "pv_bound Pdelta = RealExpr (Some ''a'') (BinaryOperation OpMax (real_lit (Fin 0))
     (RealExpr None (BinaryOperation OpSum (var_ref ''P'') (real_lit (dneg Pdelta)))))"

lemma pv_typed:
  assumes "pv_advertisement M chk S Pmax Pdelta tn a_pv b_pv Pimp Qimp empty_adv = Inr a"
  shows "wt_advertisement [''a'' \<mapsto> 0] a"
proof -
  obtain pr st e where pr: "pv_profile S Pmax tn = Inr pr" and st: "pv_belief M chk Pdelta tn = Inr st" and e: "pv_cost M a_pv b_pv = Inr e"
    and a: "a = (set_impl_setpoint Pimp Qimp empty_adv)\<lparr>pQProfile := Some pr, beliefFunction := Some st, costFunction := Some e\<rparr>"
    using assms by (auto simp: pv_advertisement_def rbind_Inr_iff)
  have profile: "wt_set empty_ctx 0 2 pr" "concat (map named_real (nodes_set pr)) = []"
    using pr disk_typed polytope_typed [where d = 2 and A = "[[Fin 1, Fin 0], [dneg tn, Fin 1], [dneg tn, Fin (- 1)]]"]
    by (auto simp: pv_profile_def rbind_Inr_iff rectangular_def build_convex_polytope_def init_matrix_def init_vector_def disk_at_origin_def)
  have belief: "wt_set (pq_ctx [''a'' \<mapsto> 0]) 1 2 st" "concat (map named_real (nodes_set st)) = [(''a'', pv_bound Pdelta)]"
    using st by (auto simp: pv_belief_def Let_def build_real_expr_def expr_defs pv_bound_def)
  have "wt_refs (pq_ctx [''a'' \<mapsto> 0]) (map_of (rev (concat (map named_real (adv_nodes a))))) sr" for sr
    by (rule wt_refs_one [where e = "pv_bound Pdelta"])
      (simp_all add: a adv_nodes_def profile_nodes_def belief_nodes_def cost_nodes_def set_impl_setpoint_def profile(2)
        belief(2) pv_cost_typed(2) [OF e] pv_bound_def)
  with a profile(1) belief(1) show ?thesis
    using pv_cost_typed(1) [OF e]
    by (simp add: wt_advertisement_def get_pq_profile_def get_belief_function_def get_cost_function_def)
qed

text \<open>The devices with a finite set of setpoints differ in their belief functions.\<close>

lemma discrete_device_typed:
  assumes "discrete_device M belief Pmin Pmax alpha beta Pimp Qimp empty_adv = Inr a"
    and "\<And>st. belief = Inr st \<Longrightarrow> wt_set (pq_ctx levels) 1 2 st"
    and "\<And>st rr sr. belief = Inr st \<Longrightarrow> rr = map_of (rev (concat (map named_real (nodes_set st)))) \<Longrightarrow> wt_refs (pq_ctx levels) rr sr"
  shows "wt_advertisement levels a"
proof -
  obtain st e where st: "belief = Inr st" and e: "normalized_cost M beta alpha = Inr e"
    and a: "a = set_impl_setpoint Pimp Qimp (empty_adv\<lparr>
       pQProfile := Some (set_of_body (Rectangle [(real_lit Pmin, real_lit Pmax), (real_lit (Fin 0), real_lit (Fin 0))])),
       beliefFunction := Some st, costFunction := Some e\<rparr>)"
    using assms(1) by (auto simp: discrete_device_def rbind_Inr_iff)
  have "concat (map named_real (adv_nodes a)) = concat (map named_real (nodes_set st))"
    by (simp add: a adv_nodes_def profile_nodes_def belief_nodes_def cost_nodes_def set_impl_setpoint_def normalized_cost_typed(2) [OF e])
  with a assms(2) [OF st] assms(3) [OF st refl] show ?thesis
    using normalized_cost_typed(1) [OF e]
    by (simp add: wt_advertisement_def get_pq_profile_def get_belief_function_def get_cost_function_def set_impl_setpoint_def)
qed

lemma proj_cases_typed: "(st, e) \<in> set (proj_cases M err xs) \<Longrightarrow> wt_set G l (Suc 0) st \<and> wt_real G l e"
  by (induction M err xs rule: proj_cases.induct) (auto simp: add_case_def)

lemma real_discrete_typed:
  assumes "real_discrete_device M Pmin Pmax points err alpha beta Pimp Qimp empty_adv = Inr a"
  shows "wt_advertisement Map.empty a"
  using assms unfolding real_discrete_device_def
  by (rule discrete_device_typed) (auto simp: proj_belief_def wt_refs_unnamed dest: proj_cases_typed split: if_splits)

lemma rounding_cases_typed:
  assumes "rounding_cases M chk step err Pmin Pmax = Inr cs" "(st, e) \<in> set cs"
  shows "wt_set (pq_ctx levels) l (Suc 0) st \<and> wt_real (pq_ctx levels) l e"
  using assms by (auto simp: rounding_cases_def Let_def rbind_Inr_iff add_case_def expr_defs dest!: build_real_typed)

lemma uniform_discrete_typed:
  assumes "uniform_discrete_device M chk Pmin Pmax step err alpha beta Pimp Qimp empty_adv = Inr a"
  shows "wt_advertisement Map.empty a"
  using assms unfolding uniform_discrete_device_def
  by (rule discrete_device_typed) (auto simp: round_belief_def rbind_Inr_iff wt_refs_unnamed dest: rounding_cases_typed)

lemma rounding_cases_names:
  "rounding_cases M chk step err Pmin Pmax = Inr cs \<Longrightarrow>
    concat (map named_real (nodes_real (RealExpr nm (CaseDistinction vs cs)))) = (case nm of None \<Rightarrow> [] | Some r \<Rightarrow> [(r, RealExpr nm (CaseDistinction vs cs))])"
  by (auto simp: rounding_cases_def Let_def build_real_expr_def expr_defs add_case_def split: option.split)

lemma zenone_typed:
  assumes "zenone_advertisement M chk Pmin Pmax step err alpha beta Pimp Qimp empty_adv = Inr a"
  shows "wt_advertisement [''x'' \<mapsto> 0] a"
  using assms unfolding zenone_advertisement_def
proof (rule discrete_device_typed)
  fix st assume "zenone_belief M chk step err Pmin Pmax = Inr st"
  then obtain cs pub qlb qub where cs: "rounding_cases M chk step err Pmin Pmax = Inr cs"
    and pub: "build_real_expr M chk (e_plus (e_times (EReal (ddiv M (Fin 249) (Fin 250))) (ERef ''x'')) (EReal (Fin 100))) = Inr pub"
    and qlb: "build_real_expr M chk (e_minus (e_times (EReal (rnd M (95 / 1000))) (ERef ''x'')) (EReal (Fin 150))) = Inr qlb"
    and qub: "build_real_expr M chk (e_minus (e_times (EReal (rnd M (9 / 100))) (ERef ''x'')) (EReal (Fin 40))) = Inr qub"
    and st: "st = set_of_body (Rectangle [(RealExpr (Some ''x'') (CaseDistinction [''P''] cs), pub), (qlb, qub)])"
    by (auto simp: zenone_belief_def Let_def rbind_Inr_iff)
  have c: "wt_real (pq_ctx [''x'' \<mapsto> 0]) l (RealExpr (Some ''x'') (CaseDistinction [''P''] cs))" for l
    using rounding_cases_typed [OF cs] by auto
  show "wt_set (pq_ctx [''x'' \<mapsto> 0]) 1 2 st"
    using c [of 1] build_real_typed [OF pub] build_real_typed [OF qlb] build_real_typed [OF qub] by (simp add: st expr_defs)
  have "concat (map named_real (nodes_real pub)) = []" "concat (map named_real (nodes_real qlb)) = []"
    "concat (map named_real (nodes_real qub)) = []"
    using pub qlb qub by (auto simp: build_real_expr_def expr_defs)
  then have names: "concat (map named_real (nodes_set st)) = [(''x'', RealExpr (Some ''x'') (CaseDistinction [''P''] cs))]"
    using rounding_cases_names [OF cs, of "Some ''x''" "[''P'']"] by (simp add: st del: nodes_real.simps)
  show "wt_refs (pq_ctx [''x'' \<mapsto> 0]) rr sr" if "rr = map_of (rev (concat (map named_real (nodes_set st))))" for rr sr
    by (rule wt_refs_one [OF _ c [of 0]]) (simp add: that names)
qed

section \<open>Soundness for the devices\<close>

text \<open>An advertisement of one of the devices of the high-level interface.\<close>

inductive device_advertisement :: "platform \<Rightarrow> bool \<Rightarrow> advertisement \<Rightarrow> bool" for M chk where
  battery: "battery_advertisement M Pmin Pmax S c1 c2 Pimp Qimp empty_adv = Inr a \<Longrightarrow> device_advertisement M chk a"
| pv: "pv_advertisement M chk S Pmax Pdelta tn a_pv b_pv Pimp Qimp empty_adv = Inr a \<Longrightarrow> device_advertisement M chk a"
| uncontrollable: "uncontrollable_resource M chk Pexp Qexp S dPup dPdown dQup dQdown Pimp Qimp ty Pgap empty_adv = Inr a \<Longrightarrow>
    device_advertisement M chk a"
| discrete: "real_discrete_device M Pmin Pmax points err alpha beta Pimp Qimp empty_adv = Inr a \<Longrightarrow> device_advertisement M chk a"
| uniform: "uniform_discrete_device M chk Pmin Pmax step err alpha beta Pimp Qimp empty_adv = Inr a \<Longrightarrow> device_advertisement M chk a"
| zenone: "zenone_advertisement M chk Pmin Pmax step err alpha beta Pimp Qimp empty_adv = Inr a \<Longrightarrow> device_advertisement M chk a"

lemma device_typed: "device_advertisement M chk a \<Longrightarrow> \<exists>levels. wt_advertisement levels a"
  by (induction rule: device_advertisement.induct)
    (blast intro: battery_typed pv_typed uncontrollable_typed real_discrete_typed uniform_discrete_typed zenone_typed)+

text \<open>C11: Whatever numbers (infinities and NaNs included) a battery, a PV plant, a load or generator, a discrete device or the Zenone emulator is advertised with, a receiver of the advertisement can evaluate the cost function and its partial derivatives and test the belief function at any request, and test the PQ profile at any point: every call returns, with a value or with the interpreter's own \<open>EvaluationError\<close>; no assertion fails, no name is unresolved, nothing undefined is done. The platform's rounding and mathematical functions are arbitrary, within the laws of \<open>platform_laws\<close>.\<close>

theorem device_advertisements_safe:
  assumes "platform_laws M" and "device_advertisement M chk a"
  shows "\<exists>N. \<forall>n \<ge> N.
    (\<exists>r t. received a (evaluate M n (get_cost_function a) [''P'' \<mapsto> p, ''Q'' \<mapsto> q]) = Some (r, t) \<and> no_fault r) \<and>
    (\<exists>r t. received a (eval_partial_derivative M n (get_cost_function a) v [''P'' \<mapsto> p, ''Q'' \<mapsto> q]) = Some (r, t) \<and> no_fault r) \<and>
    (\<exists>r t. received a (test_membership M n (get_belief_function a) [x, y] [''P'' \<mapsto> p, ''Q'' \<mapsto> q]) = Some (r, t) \<and> no_fault r) \<and>
    (\<exists>r t. received a (test_membership M n (get_pq_profile a) [x, y] Map.empty) = Some (r, t) \<and> no_fault r)"
proof -
  obtain levels where "wt_advertisement levels a" using device_typed [OF assms(2)] by blast
  from receiver_sound [OF assms(1) this] show ?thesis by (simp add: at_request_def)
qed

text \<open>The PV advertisement, at a request that is not a number.\<close>

theorem device_advertisements_safe_witness:
  "\<exists>a n r t. pv_advertisement ieee64 True (Fin 10) (Fin 8) (Fin 1) (Fin 1) (Fin 1) (Fin 1) (Fin 0) (Fin 0) empty_adv = Inr a \<and>
    received a (test_membership ieee64 n (get_belief_function a) [Fin 1, Fin 0] [''P'' \<mapsto> Nan, ''Q'' \<mapsto> Fin 0]) = Some (r, t) \<and> no_fault r"
proof -
  obtain a where a: "pv_advertisement ieee64 True (Fin 10) (Fin 8) (Fin 1) (Fin 1) (Fin 1) (Fin 1) (Fin 0) (Fin 0) empty_adv = Inr a"
    using pv_cost_built [OF ieee64_p.platform_laws_axioms, of "Fin 1" "Fin 1"]
    by (auto simp: pv_advertisement_def pv_profile_def build_convex_polytope_def pv_belief_def Let_def build_real_expr_def expr_defs)
  from device_advertisements_safe [OF ieee64_p.platform_laws_axioms device_advertisement.pv [OF a], of Nan "Fin 0" "''P''" "Fin 1" "Fin 0"] a
  show ?thesis by blast
qed

end
