(* ===== verification/Typing_Proj.thy ===== *)
theory Typing_Proj imports Typing_Devices Proj begin

text \<open>
  Type soundness of the projection: on a well-typed set \<open>project\<close> returns a point of the same
  dimension, an \<open>EvaluationError\<close> or \<open>NoConvergence\<close>; the iterations of Dykstra's algorithm never
  meet vectors of different sizes. Projection is not defined on references to sets.
\<close>

section \<open>The algorithm of Dykstra\<close>

abbreviation proj_errors :: "error set" where
  "proj_errors \<equiv> {Evaluation_Error, No_Convergence}"

abbreviation keeps_dim :: "(advfunc \<Rightarrow> bool) \<Rightarrow> nat \<Rightarrow> double list interp \<Rightarrow> bool" where
  "keeps_dim I d c \<equiv> right_in proj_errors I c (\<lambda>x. length x = d)"

lemma outcome_vec_op: "length a = d \<Longrightarrow> length b = d \<Longrightarrow> outcome E (\<lambda>x. length x = d) (vec_op f a b)"
  by (simp add: vec_op_def)

lemma dykstra_round_dim:
  assumes "\<And>s z. s \<in> set ss \<Longrightarrow> length z = d \<Longrightarrow> keeps_dim I d (prj s z)"
    and "length x = d" "length ys = length ss" "\<forall>y \<in> set ys. length y = d"
  shows "right_in proj_errors I (dykstra_round M prj ss x ys)
    (\<lambda>(xm, ys'). length xm = d \<and> length ys' = length ss \<and> (\<forall>y \<in> set ys'. length y = d))"
  using assms
proof (induction ss arbitrary: x ys)
  case (Cons s ss)
  obtain y zs where ys: "ys = y # zs" "length zs = length ss" "length y = d" "\<forall>y \<in> set zs. length y = d"
    using Cons.prems by (cases ys) auto
  have rest: "right_in proj_errors I (dykstra_round M prj ss x' zs)
      (\<lambda>(xm, ys'). length xm = d \<and> length ys' = length ss \<and> (\<forall>y \<in> set ys'. length y = d))" if "length x' = d" for x'
    using Cons.prems(1) that ys by (intro Cons.IH) auto
  show ?case
    unfolding ys(1) dykstra_round.simps
  proof (rule right_bnd [OF right_result [OF outcome_vec_op [OF Cons.prems(2) ys(3)]]])
    fix z :: "double list" assume z: "length z = d"
    show "right_in proj_errors I (bnd (prj s z) (\<lambda>x'. bnd (from_result (vec_op (dsub M) z x')) (\<lambda>y'.
        bnd (dykstra_round M prj ss x' zs) (\<lambda>(xm, ys'). ret (xm, y' # ys')))))
      (\<lambda>(xm, ys'). length xm = d \<and> length ys' = length (s # ss) \<and> (\<forall>y \<in> set ys'. length y = d))"
    proof (rule right_bnd [OF Cons.prems(1) [OF _ z]])
      fix x' :: "double list" assume x': "length x' = d"
      show "right_in proj_errors I (bnd (from_result (vec_op (dsub M) z x')) (\<lambda>y'.
          bnd (dykstra_round M prj ss x' zs) (\<lambda>(xm, ys'). ret (xm, y' # ys'))))
        (\<lambda>(xm, ys'). length xm = d \<and> length ys' = length (s # ss) \<and> (\<forall>y \<in> set ys'. length y = d))"
        by (rule right_bnd [OF right_result [OF outcome_vec_op [OF z x']]], rule right_bnd [OF rest [OF x']]) (auto intro!: right_ret)
    qed simp
  qed
qed (simp add: right_ret)

lemma dykstra_loop_dim:
  assumes prj: "\<And>s z. s \<in> set ss \<Longrightarrow> length z = d \<Longrightarrow> keeps_dim I d (prj s z)"
  shows "length x = d \<Longrightarrow> length ys = length ss \<Longrightarrow> \<forall>y \<in> set ys. length y = d \<Longrightarrow> length res = d \<Longrightarrow>
    right_in proj_errors I (dykstra_loop M prj ss thr k x ys res) (\<lambda>(b, r). length r = d)"
proof (induction k arbitrary: x ys res)
  case (Suc k)
  show ?case
    unfolding dykstra_loop.simps
  proof (rule right_bnd [OF dykstra_round_dim [OF prj Suc.prems(1-3)]], simp_all only:)
    fix r :: "double list \<times> double list list" assume r: "case r of (xm, ys') \<Rightarrow> length xm = d \<and> length ys' = length ss \<and> (\<forall>y \<in> set ys'. length y = d)"
    obtain xm ys' where eq: "r = (xm, ys')" by (cases r)
    have dist: "outcome proj_errors (\<lambda>_. True) (vec_dist M xm res)"
      using r eq Suc.prems(4) by (simp add: vec_dist_def vec_op_def)
    show "right_in proj_errors I (case r of (xm, ys') \<Rightarrow> bnd (from_result (vec_dist M xm res)) (\<lambda>d.
        if dlt d thr then ret (True, res) else dykstra_loop M prj ss thr k xm ys' xm)) (\<lambda>(b, r). length r = d)"
      unfolding eq prod.case
      by (rule right_bnd [OF right_result [OF dist]]) (use r eq Suc in \<open>auto intro: right_ret\<close>)
  qed
qed (simp add: right_ret)

lemma dykstra_dim:
  assumes "\<And>s z. s \<in> set ss \<Longrightarrow> length z = length pt \<Longrightarrow> keeps_dim I (length pt) (prj s z)"
  shows "keeps_dim I (length pt) (dykstra_or_throw M prj ss pt)"
proof -
  have "right_in proj_errors I (dykstra M prj ss pt) (\<lambda>(b, r). length r = length pt)"
    unfolding dykstra_def using assms by (intro dykstra_loop_dim) auto
  then show ?thesis unfolding dykstra_or_throw_def by (rule right_bnd) (auto intro: right_ret right_raise)
qed

section \<open>One node\<close>

lemma right_soft: "right I c Q \<Longrightarrow> right_in proj_errors I c Q"
  by (rule right_weaken) auto

lemma right_bnd_soft: "right I c Q \<Longrightarrow> (\<And>x. Q x \<Longrightarrow> right_in proj_errors I (f x) R) \<Longrightarrow> right_in proj_errors I (bnd c f) R"
  by (rule right_bnd [OF right_soft])

lemma proj_ball_dim:
  assumes norm: "\<And>v. length (e_normalized M v) = length v" and "length cs = length pt"
    and "fine I (mem_ball M ev cs r pt)" "\<And>e. e \<in> set cs \<Longrightarrow> fine I (ev e)" "fine I (ev r)"
  shows "keeps_dim I (length pt) (proj_ball M ev cs r pt)"
proof -
  have step: "right_in proj_errors I (from_result (rbind (vec_op (dsub M) pt cent) (\<lambda>d.
      vec_op (\<lambda>c u. dadd M c (dmul M rad u)) cent (e_normalized M d)))) (\<lambda>x. length x = length pt)"
    if "length cent = length cs" for cent rad
    by (rule right_result) (use that assms(2) norm in \<open>simp add: vec_op_def\<close>)
  have "keeps_dim I (length pt) (bnd (eval_to_vector ev cs) (\<lambda>cent. bnd (ev r) (\<lambda>rad.
      from_result (rbind (vec_op (dsub M) pt cent) (\<lambda>d. vec_op (\<lambda>c u. dadd M c (dmul M rad u)) cent (e_normalized M d))))))"
    by (rule right_bnd_soft [OF right_vector [OF assms(4)]], assumption, rule right_bnd_soft [OF assms(5)], rule step)
  then show ?thesis
    unfolding proj_ball_def by (intro right_bnd_soft [OF assms(3)]) (simp add: right_ret)
qed

lemma proj_rectangle_dim:
  assumes "length bs = length pt" "\<And>a b. (a, b) \<in> set bs \<Longrightarrow> fine I (ev a) \<and> fine I (ev b)"
  shows "keeps_dim I (length pt) (proj_rectangle ev bs pt)"
  using assms
proof (induction bs pt rule: list_induct2)
  case (Cons ab bs x xs)
  obtain a b where ab: "ab = (a, b)" by (cases ab)
  have "fine I (ev a)" "fine I (ev b)" "keeps_dim I (length xs) (proj_rectangle ev bs xs)"
    using Cons by (auto simp: ab)
  then show ?case
    unfolding ab proj_rectangle.simps
    by (elim right_bnd_soft right_bnd) (auto intro!: right_ret)
qed (simp add: right_ret)

lemma proj_half_dim:
  "length (hs_a hs) = length pt \<Longrightarrow> keeps_dim I (length pt) (from_result (proj_half M hs pt))"
  by (rule right_result) (simp add: proj_half_def mem_half_def vec_op_def Let_def)

lemma proj_polytope_dim:
  assumes "rectangular mx (length pt)" "fine I (mem_polytope M ev mx b pt)"
    and "\<And>row e. row \<in> set mx \<Longrightarrow> e \<in> set row \<Longrightarrow> fine I (ev e)" "\<And>e. e \<in> set b \<Longrightarrow> fine I (ev e)"
  shows "keeps_dim I (length pt) (proj_polytope M ev mx b pt)"
proof -
  have half: "right I (bnd (eval_to_vector ev row) (\<lambda>a. bnd (ev c) (\<lambda>r. ret \<lparr>hs_a = a, hs_b = r\<rparr>))) (\<lambda>hs. length (hs_a hs) = length pt)"
    if "(row, c) \<in> set (zip mx b)" for row c
  proof (rule right_bnd [OF right_vector])
    show "fine I (ev e)" if "e \<in> set row" for e
      using assms(3) that set_zip_leftD [OF \<open>(row, c) \<in> set (zip mx b)\<close>] by blast
    fix a :: "double list" assume a: "length a = length row"
    have "fine I (ev c)" using assms(4) set_zip_rightD [OF that] by blast
    moreover have "length row = length pt" using assms(1) set_zip_leftD [OF that] by (simp add: rectangular_def)
    ultimately show "right I (bnd (ev c) (\<lambda>r. ret \<lparr>hs_a = a, hs_b = r\<rparr>)) (\<lambda>hs. length (hs_a hs) = length pt)"
      by (elim right_bnd) (simp add: a right_ret)
  qed
  have halves: "right I (mapC (\<lambda>(row, c). bnd (eval_to_vector ev row) (\<lambda>a. bnd (ev c) (\<lambda>r. ret \<lparr>hs_a = a, hs_b = r\<rparr>))) (zip mx b))
      (\<lambda>hs. length hs = length (zip mx b) \<and> (\<forall>h \<in> set hs. length (hs_a h) = length pt))"
    by (rule right_mapC) (use half in auto)
  show ?thesis
    unfolding proj_polytope_def
  proof (rule right_bnd_soft [OF assms(2)])
    fix inside
    have "keeps_dim I (length pt) (dykstra_or_throw M (\<lambda>hs z. from_result (proj_half M hs z)) hs pt)"
      if "\<forall>h \<in> set hs. length (hs_a h) = length pt" for hs
      by (rule dykstra_dim) (use that proj_half_dim in metis)
    then have "keeps_dim I (length pt) (bnd (mapC (\<lambda>(row, c). bnd (eval_to_vector ev row) (\<lambda>a. bnd (ev c) (\<lambda>r. ret \<lparr>hs_a = a, hs_b = r\<rparr>))) (zip mx b))
        (\<lambda>halves. dykstra_or_throw M (\<lambda>hs z. from_result (proj_half M hs z)) halves pt))"
      by (intro right_bnd_soft [OF halves]) blast
    then show "keeps_dim I (length pt) (if inside then ret pt else bnd (mapC (\<lambda>(row, c). bnd (eval_to_vector ev row) (\<lambda>a. bnd (ev c) (\<lambda>r.
        ret \<lparr>hs_a = a, hs_b = r\<rparr>))) (zip mx b)) (\<lambda>halves. dykstra_or_throw M (\<lambda>hs z. from_result (proj_half M hs z)) halves pt))"
      by (simp add: right_ret)
  qed
qed

text \<open>Sets that are projected on are given in full, not by reference; the sets of a case distinction have no type.\<close>

fun direct :: "set_expr \<Rightarrow> bool" where
  "direct (SetExpr nm b) = (case b of Intersection ss \<Rightarrow> (\<forall>st \<in> set ss. direct st) | SetReference r \<Rightarrow> False | _ \<Rightarrow> True)"

lemma right_proj_body:
  assumes norm: "\<And>v. length (e_normalized M v) = length v"
    and wt: "wt_set_body G l (length pt) b" and dir: "\<And>r. b \<noteq> SetReference r"
    and ev: "\<And>e. e \<in> set (real_sparts b) \<Longrightarrow> fine I (ev e)"
    and mem: "\<And>st. st \<in> set (set_sparts b) \<Longrightarrow> fine I (mem st pt)"
    and prj: "\<And>st z. st \<in> set (set_sparts b) \<Longrightarrow> length z = length pt \<Longrightarrow> keeps_dim I (length pt) (prj st z)"
  shows "keeps_dim I (length pt) (proj_body M ev mem prj b pt)"
proof -
  have test: "fine I (membership_body M ev mem b pt)"
    using right_membership_body [OF wt refl, where ev = ev and mem = mem] ev mem dir by blast
  show ?thesis
  proof (cases b)
    case (Singleton es)
    have "right I (eval_to_vector ev es) (\<lambda>xs. length xs = length es)"
      by (rule right_vector) (use ev Singleton in simp)
    then show ?thesis using right_soft wt Singleton by simp
  next
    case (Ball cs r)
    then show ?thesis using wt test ev by (simp add: proj_ball_dim [OF norm])
  next
    case (Rectangle bs)
    have "fine I (ev a) \<and> fine I (ev c)" if "(a, c) \<in> set bs" for a c
      using ev Rectangle that by force
    then show ?thesis using Rectangle wt by (simp add: proj_rectangle_dim)
  next
    case (ConvexPolytope mx c)
    have "keeps_dim I (length pt) (proj_polytope M ev mx c pt)"
      by (rule proj_polytope_dim) (use ConvexPolytope wt test ev in auto)
    with ConvexPolytope show ?thesis by simp
  next
    case (Intersection ss)
    have "keeps_dim I (length pt) (dykstra_or_throw M prj ss pt)"
      by (rule dykstra_dim) (use prj Intersection in simp)
    moreover have "fine I (mem_intersection mem ss pt)" using test Intersection by simp
    ultimately have "keeps_dim I (length pt) (bnd (mem_intersection mem ss pt) (\<lambda>inside. if inside then ret pt else dykstra_or_throw M prj ss pt))"
      by (intro right_bnd_soft) (auto simp: right_ret)
    with Intersection show ?thesis by (simp add: proj_intersection_def)
  qed (use wt dir in auto)
qed

section \<open>Soundness\<close>

lemma settled_projection:
  assumes M: "platform_laws M" and norm: "\<And>v. length (e_normalized M v) = length v"
    and refs: "wt_refs G rr sr" and I: "I = call_state G rr sr"
  shows "size st \<le> m \<Longrightarrow> wt_set G l d st \<Longrightarrow> direct st \<Longrightarrow> \<exists>N. \<forall>n \<ge> N. \<forall>pt. length pt = d \<longrightarrow> keeps_dim I d (proj M n st pt)"
proof (induction m arbitrary: st)
  case 0
  then show ?case by (cases st) simp
next
  case (Suc m)
  obtain nm b where st: "st = SetExpr nm b" by (cases st)
  with Suc.prems have b: "size b \<le> m" "wt_set_body G l d b" "\<And>r. b \<noteq> SetReference r" by auto
  note settled = typed_settled [OF M refs I, THEN conjunct1] typed_settled [OF M refs I, THEN conjunct2]
  have "\<exists>N. \<forall>n \<ge> N. \<forall>e \<in> set (real_sparts b). fine I (eval M n e)"
    by (rule common_bound) (use settled(1) wt_parts(3) [OF b(2)] in \<open>unfold settled_real_def, blast\<close>)
  then obtain N1 where N1: "\<And>n e. N1 \<le> n \<Longrightarrow> e \<in> set (real_sparts b) \<Longrightarrow> fine I (eval M n e)" by blast
  have "\<exists>N. \<forall>n \<ge> N. \<forall>st \<in> set (set_sparts b). \<forall>pt. length pt = d \<longrightarrow> fine I (membership M n st pt)"
    by (rule common_bound) (use settled(2) wt_parts(4) [OF b(2)] in \<open>unfold settled_set_def, blast\<close>)
  then obtain N2 where N2: "\<And>n st pt. N2 \<le> n \<Longrightarrow> st \<in> set (set_sparts b) \<Longrightarrow> length pt = d \<Longrightarrow> fine I (membership M n st pt)"
    by blast
  have "\<exists>N. \<forall>n \<ge> N. \<forall>st \<in> set (set_sparts b). \<forall>pt. length pt = d \<longrightarrow> keeps_dim I d (proj M n st pt)"
  proof (rule common_bound)
    fix st' assume p: "st' \<in> set (set_sparts b)"
    then have "direct st'" using Suc.prems(3) st by (cases b) auto
    moreover have "size st' \<le> m" using part_sizes(4) [OF p] b(1) by simp
    ultimately show "\<exists>N. \<forall>n \<ge> N. \<forall>pt. length pt = d \<longrightarrow> keeps_dim I d (proj M n st' pt)"
      using Suc.IH wt_parts(4) [OF b(2) p] by blast
  qed
  then obtain N3 where N3: "\<And>n st pt. N3 \<le> n \<Longrightarrow> st \<in> set (set_sparts b) \<Longrightarrow> length pt = d \<Longrightarrow> keeps_dim I d (proj M n st pt)"
    by blast
  have "keeps_dim I d (proj M (Suc n) st pt)" if n: "max N1 (max N2 N3) \<le> n" and pt: "length pt = d" for n pt
  proof -
    have "keeps_dim I (length pt) (proj_body M (eval M n) (membership M n) (proj M n) b pt)"
      by (rule right_proj_body [OF norm b(2) [folded pt] b(3)]) (use N1 N2 N3 n pt in simp_all)
    moreover have "right_in proj_errors I enter_set (\<lambda>_. True)"
      by (auto simp: right_in_def run_simps I call_state_def)
    ultimately show ?thesis unfolding st proj.simps set_expr.sel by (intro right_bnd) (auto simp: pt)
  qed
  then show ?case by (intro exI [of _ "Suc (max N1 (max N2 N3))"]) (metis Suc_le_D Suc_le_mono)
qed

lemma well_typed_projection_returns_lemma:
  assumes "platform_laws M" and "\<And>v. length (e_normalized M v) = length v"
    and "adv_valid s" and "wt_refs G (real_refs s) (set_refs s)" and "ctx_vars G \<subseteq> dom env"
    and "wt_set G l (length pt) st" and "direct st"
  shows "\<exists>N. \<forall>n \<ge> N. \<exists>r t. project M n st pt env s = Some (r, t) \<and>
    (r = Inl Evaluation_Error \<or> r = Inl No_Convergence \<or> (\<exists>x. r = Inr x \<and> length x = length pt))"
proof -
  let ?I = "call_state G (real_refs s) (set_refs s)" and ?s = "s\<lparr>bound_vars := env, nesting_depth := 0\<rparr>"
  obtain N where N: "\<forall>n \<ge> N. \<forall>p. length p = length pt \<longrightarrow> keeps_dim ?I (length pt) (proj M n st p)"
    using settled_projection [OF assms(1,2,4) refl order_refl assms(6,7)] by (rule exE)
  have "\<exists>r t. project M n st pt env s = Some (r, t) \<and>
      (r = Inl Evaluation_Error \<or> r = Inl No_Convergence \<or> (\<exists>x. r = Inr x \<and> length x = length pt))" if "N \<le> n" for n
  proof -
    have "keeps_dim ?I (length pt) (proj M n st pt)" using N that by simp
    moreover have "?I ?s" using assms(5) by (simp add: call_state_def)
    ultimately obtain r t where r: "proj M n st pt ?s = Some (r, t)" "outcome proj_errors (\<lambda>x. length x = length pt) r"
      by (rule rightD)
    then show ?thesis using assms(3) by (cases r) (auto simp: project_def run_simps start_call_run)
  qed
  then show ?thesis by blast
qed

text \<open>C13: Type soundness of the projection. On a well-typed set of the dimension of the point that is given in full, \<open>project\<close> returns, with a point of the same dimension, an \<open>EvaluationError\<close> or \<open>NoConvergence\<close>: no vectors of different sizes meet, in Dykstra's algorithm neither, and no other fault occurs. Assumed of Eigen is that \<open>normalized()\<close> keeps the size of a vector.\<close>

theorem well_typed_projection_returns:
  assumes "platform_laws M" and "\<And>v. length (e_normalized M v) = length v"
    and "adv_valid s" and "wt_refs G (real_refs s) (set_refs s)" and "ctx_vars G \<subseteq> dom env"
    and "wt_set G l (length pt) st" and "direct st"
  shows "\<exists>N. \<forall>n \<ge> N. \<exists>r t. project M n st pt env s = Some (r, t) \<and>
    (r = Inl Evaluation_Error \<or> r = Inl No_Convergence \<or> (\<exists>x. r = Inr x \<and> length x = length pt))"
  using assms by (rule well_typed_projection_returns_lemma)

text \<open>A disk cut by a half-plane, at a point outside.\<close>

definition cut_disk :: set_expr where
  "cut_disk = set_of_body (Intersection [set_of_body (disk_at_origin (Fin 1)),
     set_of_body (ConvexPolytope [[real_lit (Fin 1), real_lit (Fin 1)]] [real_lit (Fin 1)])])"

theorem well_typed_projection_returns_witness:
  "\<exists>n r t. project exact n cut_disk [Fin 3, Fin 4] Map.empty (new_advfunc\<lparr>adv_valid := True\<rparr>) = Some (r, t) \<and>
    (r = Inl Evaluation_Error \<or> r = Inl No_Convergence \<or> (\<exists>x. r = Inr x \<and> length x = length [Fin 3, Fin 4]))"
proof -
  have norm: "length (e_normalized exact v) = length v" for v
    by (simp add: exact_def std_platform_def normalized_left_def Let_def)
  have valid: "adv_valid (new_advfunc\<lparr>adv_valid := True\<rparr>)" and env: "ctx_vars empty_ctx \<subseteq> dom Map.empty"
    by (simp_all add: empty_ctx_def)
  have wt: "wt_set empty_ctx 0 (length [Fin 3, Fin 4]) cut_disk" "direct cut_disk"
    by (simp_all add: cut_disk_def disk_at_origin_def rectangular_def)
  from well_typed_projection_returns [OF exact_p.platform_laws_axioms norm valid wt_refs_empty env wt] show ?thesis by blast
qed

text \<open>The PQ profiles of the devices are given in full, so that a receiver can project on them.\<close>

lemma device_profile_direct: "device_advertisement M chk a \<Longrightarrow> direct (get_pq_profile a)"
  by (induction rule: device_advertisement.induct)
    (auto simp: battery_advertisement_def battery_profile_def pv_advertisement_def pv_profile_def uncontrollable_resource_def
      real_discrete_device_def uniform_discrete_device_def zenone_advertisement_def discrete_device_def rbind_Inr_iff
      build_convex_polytope_def disk_at_origin_def get_pq_profile_def set_impl_setpoint_def split: if_splits)

theorem device_profile_projects:
  assumes "platform_laws M" and "\<And>v. length (e_normalized M v) = length v" and "device_advertisement M chk a"
    and "adv_valid s"
  shows "\<exists>N. \<forall>n \<ge> N. \<exists>r t. project M n (get_pq_profile a) [x, y] Map.empty s = Some (r, t) \<and>
    (r = Inl Evaluation_Error \<or> r = Inl No_Convergence \<or> (\<exists>x. r = Inr x \<and> length x = 2))"
proof -
  obtain levels where "wt_advertisement levels a" using device_typed [OF assms(3)] by blast
  then have wt: "wt_set empty_ctx 0 (length [x, y]) (get_pq_profile a)" by (simp add: wt_advertisement_def numeral_2_eq_2)
  have env: "ctx_vars empty_ctx \<subseteq> dom Map.empty" by (simp add: empty_ctx_def)
  have two: "length [x, y] = 2" by simp
  from well_typed_projection_returns_lemma [OF assms(1,2,4) wt_refs_empty env wt device_profile_direct [OF assms(3)]] show ?thesis
    unfolding two .
qed

theorem device_profile_projects_witness:
  "\<exists>a n r t. uncontrollable_resource exact True (Fin 1) (Fin 0) (Fin 9) (Fin 1) (Fin 1) (Fin 1) (Fin 1) (Fin 1) (Fin 0) Bidirectional (Fin 0) empty_adv = Inr a \<and>
    project exact n (get_pq_profile a) [Fin 7, Nan] Map.empty (new_advfunc\<lparr>adv_valid := True\<rparr>) = Some (r, t) \<and>
    (r = Inl Evaluation_Error \<or> r = Inl No_Convergence \<or> (\<exists>x. r = Inr x \<and> length x = 2))"
proof -
  have norm: "length (e_normalized exact v) = length v" for v
    by (simp add: exact_def std_platform_def normalized_left_def Let_def)
  obtain a where a: "uncontrollable_resource exact True (Fin 1) (Fin 0) (Fin 9) (Fin 1) (Fin 1) (Fin 1) (Fin 1) (Fin 1) (Fin 0) Bidirectional (Fin 0) empty_adv = Inr a"
    by (simp add: uncontrollable_resource_def uncontrollable_belief_def Let_def build_real_expr_def expr_defs)
  have "adv_valid (new_advfunc\<lparr>adv_valid := True\<rparr>)" by simp
  from device_profile_projects [OF exact_p.platform_laws_axioms norm device_advertisement.uncontrollable [OF a] this, of "Fin 7" Nan] a
  show ?thesis by blast
qed

end
