(* ===== verification/Daemon_Safe.thy ===== *)
theory Daemon_Safe imports Daemon_Device Typing_Devices begin

text \<open>
  The daemon's side of the type soundness: whatever a resource agent writes into its JSON packet,
  the advertisement that the daemon makes of it is one of a device of the high-level interface, and
  the grid agent that reads it from the datagram can use it without a fault.
\<close>

lemma create_adv_device:
  assumes "create_adv M chk res d = Inr (Some a)"
  shows "device_advertisement M chk a"
  using assms
  by (cases res) (auto simp: create_adv_def Let_def rbind_Inr_iff create_pv_adv_def create_fuel_cell_adv_def create_batt_adv_def
      create_uncontr_load_adv_def create_uncontr_gen_adv_def create_discrete_adv_def create_discrete_unif_adv_def
      create_zenone_adv_def uncontrollable_load_def uncontrollable_generator_def intro: device_advertisement.intros)

lemma create_adv_some: "res \<noteq> Custom \<Longrightarrow> create_adv M chk res d = Inr r \<Longrightarrow> \<exists>a. r = Some a"
  by (cases res) (auto simp: create_adv_def Let_def rbind_Inr_iff)

text \<open>C5: From any resource agent to the grid agent: when the daemon of a resource of a built-in type, waiting for a packet, receives a JSON object that it can make a message of, it can send one datagram to each of its advertisement endpoints and wait again, and every receiver reads from it an advertisement whose cost function, its partial derivatives and belief function at any request, and PQ profile at any point, it can use with no outcome but a value or an \<open>EvaluationError\<close>, whatever numbers the agent wrote. Assumed are a message library whose reader inverts its writer on the message, and no debug mode.\<close>

theorem daemon_packets_safe:
  assumes "ra_task s = Receiving" and "\<not> debug_mode cfg" and "resource_type cfg \<noteq> Custom" and "length packet < 65536"
    and "platform_laws (platf E)" and "json_parse (jlib E) (takeWhile (\<lambda>b. b \<noteq> 0) packet) = Some d" and "is_object d"
    and "ra_message (platf E) (cchecks E) (agent_id cfg) (resource_type cfg) d = Inr m"
    and "pol E = packed_policy lib" and "packed_inverse lib m"
  shows "\<exists>bs a N.
    daemon_run E cfg (Running s) (From_RA packet # map (\<lambda>e. To_GA e bs) (adv_endpoints cfg)) (Running (s\<lparr>document := d\<rparr>)) \<and>
    packed_reader lib bs = Some \<lparr> agentId = agent_id cfg, body = Advertisement_Msg (Some a) \<rparr> \<and>
    (\<forall>n \<ge> N.
      (\<exists>r t. received a (evaluate (platf E) n (get_cost_function a) [''P'' \<mapsto> p, ''Q'' \<mapsto> q]) = Some (r, t) \<and> no_fault r) \<and>
      (\<exists>r t. received a (eval_partial_derivative (platf E) n (get_cost_function a) v [''P'' \<mapsto> p, ''Q'' \<mapsto> q]) = Some (r, t) \<and> no_fault r) \<and>
      (\<exists>r t. received a (test_membership (platf E) n (get_belief_function a) [x, y] [''P'' \<mapsto> p, ''Q'' \<mapsto> q]) = Some (r, t) \<and> no_fault r) \<and>
      (\<exists>r t. received a (test_membership (platf E) n (get_pq_profile a) [x, y] Map.empty) = Some (r, t) \<and> no_fault r))"
proof -
  obtain a where a: "create_adv (platf E) (cchecks E) (resource_type cfg) d = Inr (Some a)"
      "m = \<lparr> agentId = agent_id cfg, body = Advertisement_Msg (Some a) \<rparr>"
    using assms(8) by (auto simp: ra_message_def rbind_Inr_iff split: option.splits dest: create_adv_some [OF assms(3)])
  obtain bs where bs: "packed_reader lib bs = Some m"
      "daemon_run E cfg (Running s) (From_RA packet # map (\<lambda>e. To_GA e bs) (adv_endpoints cfg)) (Running (s\<lparr>document := d\<rparr>))"
    using packet_relayed [OF assms(1-4,6-10)] by blast
  from device_typed [OF create_adv_device [OF a(1)]] obtain levels where "wt_advertisement levels a" by blast
  from receiver_sound [OF assms(5) this, unfolded at_request_def] obtain N where "\<forall>n \<ge> N.
      (\<exists>r t. received a (evaluate (platf E) n (get_cost_function a) [''P'' \<mapsto> p, ''Q'' \<mapsto> q]) = Some (r, t) \<and> no_fault r) \<and>
      (\<exists>r t. received a (eval_partial_derivative (platf E) n (get_cost_function a) v [''P'' \<mapsto> p, ''Q'' \<mapsto> q]) = Some (r, t) \<and> no_fault r) \<and>
      (\<exists>r t. received a (test_membership (platf E) n (get_belief_function a) [x, y] [''P'' \<mapsto> p, ''Q'' \<mapsto> q]) = Some (r, t) \<and> no_fault r) \<and>
      (\<exists>r t. received a (test_membership (platf E) n (get_pq_profile a) [x, y] Map.empty) = Some (r, t) \<and> no_fault r)"
    by (rule exE)
  with bs a(2) show ?thesis by blast
qed

text \<open>The battery whose parameters are all 1, at a request that is not a number.\<close>

theorem daemon_packets_safe_witness:
  "\<exists>m E bs a n r t. packed_policy (example_lib m) = pol E \<and>
    daemon_run E (custom_config\<lparr>resource_type := Battery\<rparr>) (Running (start_daemon [0])) [From_RA [9], To_GA 3 bs]
      (Running ((start_daemon [0])\<lparr>document := battery_params\<rparr>)) \<and>
    packed_reader (example_lib m) bs = Some \<lparr> agentId = 7, body = Advertisement_Msg (Some a) \<rparr> \<and>
    received a (evaluate exact n (get_cost_function a) [''P'' \<mapsto> Nan, ''Q'' \<mapsto> Fin 0]) = Some (r, t) \<and> no_fault r"
proof -
  obtain a where a: "battery_advertisement exact (Fin 1) (Fin 1) (Fin 1) (Fin 1) (Fin 1) (Fin 1) (Fin 1) empty_adv = Inr a"
    using battery_succeeds by blast
  let ?m = "adv_message 7 a" and ?cfg = "custom_config\<lparr>resource_type := Battery\<rparr>"
  let ?E = "(one_message_env None (Some battery_params))\<lparr>pol := packed_policy (example_lib ?m)\<rparr>"
  have doc: "battery_document battery_params [1, 1, 1, 1, 1, 1, 1]"
    by (simp add: battery_document_def battery_params_def json_get_defs)
  have inv: "packed_inverse (example_lib ?m) ?m"
    using example_lib_facts [of ?m] by (simp add: packed_inverse_def) (simp add: example_lib_def)
  have msg: "ra_message (platf ?E) (cchecks ?E) (agent_id ?cfg) (resource_type ?cfg) battery_params = Inr ?m"
    using battery_message [OF doc a, of "cchecks ?E" 7] by (simp add: one_message_env_def custom_config_def)
  have "is_object battery_params" using doc by (simp add: battery_document_def)
  moreover have "platf ?E = exact" "pol ?E = packed_policy (example_lib ?m)" "json_parse (jlib ?E) (takeWhile (\<lambda>b. b \<noteq> 0) [9]) = Some battery_params"
    by (simp_all add: one_message_env_def)
  ultimately obtain bs a' N where run: "daemon_run ?E ?cfg (Running (start_daemon [0])) (From_RA [9] # map (\<lambda>e. To_GA e bs) (adv_endpoints ?cfg))
      (Running ((start_daemon [0])\<lparr>document := battery_params\<rparr>))"
    and reader: "packed_reader (example_lib ?m) bs = Some \<lparr> agentId = agent_id ?cfg, body = Advertisement_Msg (Some a') \<rparr>"
    and safe: "\<forall>n \<ge> N. (\<exists>r t. received a' (evaluate (platf ?E) n (get_cost_function a') [''P'' \<mapsto> Nan, ''Q'' \<mapsto> Fin 0]) = Some (r, t) \<and> no_fault r)"
    using daemon_packets_safe [of "start_daemon [0]" ?cfg "[9]" ?E battery_params ?m "example_lib ?m" Nan "Fin 0" "''P''" "Fin 0" "Fin 0", OF _ _ _ _ _ _ _ msg _ inv]
      exact_p.platform_laws_axioms
    by (simp only: start_daemon_def custom_config_def daemon.simps config.simps) force
  from safe \<open>platf ?E = exact\<close> obtain r t where "received a' (evaluate exact N (get_cost_function a') [''P'' \<mapsto> Nan, ''Q'' \<mapsto> Fin 0]) = Some (r, t)" "no_fault r"
    by force
  with run reader show ?thesis
    by (intro exI [of _ ?m] exI [of _ ?E] exI [of _ bs] exI [of _ a'] exI [of _ N] exI [of _ r] exI [of _ t]) (simp add: custom_config_def)
qed

end
