(* ===== verification/Seidel_Main.thy ===== *)
theory Seidel_Main imports Seidel_Props begin

text \<open>
  The stand-alone program \<open>do_lp.c\<close> of the linear-program solver, compiled with \<open>DOUBLE\<close>: it reads a
  problem of any dimension from the standard input, solves it a number of times in random orders of
  the planes and prints the last solution. The input is what the calls of \<open>scanf\<close> deliver, one
  after the other; a number too few is a failed conversion. The program is taken to run on
  problems of dimension at least one.
\<close>

section \<open>Input\<close>

record lp_input =
  header :: "(int \<times> int) option"
  type_word :: "string option"
  conversions :: "double list"

datatype lp_kind = Projective | Real_Kind

record lp_problem =
  lp_dim :: nat
  lp_size :: nat
  lp_n_vec :: "double list"
  lp_d_vec :: "double list"
  lp_halves :: "double list"
  lp_type :: lp_kind

text \<open>A row is made a unit vector in place; a row that is too short stays as it is.\<close>

definition unit_row :: "platform \<Rightarrow> nat \<Rightarrow> double list \<Rightarrow> double list" where
  "unit_row M d row = (case lp_d_unit M d row of None \<Rightarrow> row | Some u \<Rightarrow> u)"

definition read_rows :: "platform \<Rightarrow> nat \<Rightarrow> nat \<Rightarrow> double list \<Rightarrow> double list" where
  "read_rows M d m nums = concat (map (\<lambda>i. unit_row M d (take (d + 1) (drop (i * (d + 1)) nums))) [0..<m])"

text \<open>\<open>Inr None\<close> is the return value 0. The word is read into an array of 100 characters.\<close>

definition read_lp :: "platform \<Rightarrow> lp_input \<Rightarrow> lp_problem option result" where
  "read_lp M inp = (case header inp of None \<Rightarrow> Inr None | Some (dm, planes) \<Rightarrow> (case type_word inp of
     None \<Rightarrow> Inr None
   | Some w \<Rightarrow> if 100 \<le> length w \<or> dm < 1 then Inl Undefined else
       (let d = nat dm; m = nat planes; nums = conversions inp;
            problem = (\<lambda>k n_vec d_vec ty. if length nums < k + m * (d + 1) then None
              else Some \<lparr> lp_dim = d, lp_size = m, lp_n_vec = n_vec, lp_d_vec = d_vec,
                lp_halves = read_rows M d m (drop k nums), lp_type = ty \<rparr>) in
        if w = ''projective'' then Inr (problem d (take d nums @ [Fin 0]) (replicate d (Fin 0) @ [Fin 1]) Projective)
        else if w = ''real'' then Inr (problem (d + 1) (take (d + 1) nums) (replicate (d + 1) (Fin 0)) Real_Kind)
        else Inr None)))"

section \<open>The program\<close>

text \<open>
  What is printed at the end. A projective solution is divided by its last entry, unless that is zero;
  its flags tell a point at infinity and a plane that the solution violates (\<open>exit(1)\<close>).
\<close>

datatype lp_report =
    Parse_Error
  | No_Solution
  | Projective_Point lp_status "double list" bool bool
  | Real_Point lp_status "double list"

text \<open>The test of the solution: over all planes, in the order of the list.\<close>

fun check_planes :: "platform \<Rightarrow> nat \<Rightarrow> double list \<Rightarrow> planes \<Rightarrow> nat \<Rightarrow> nat \<Rightarrow> nat \<Rightarrow> (links, bool) comp" where
  "check_planes M d opt halves m 0 j = (\<lambda>s. None)"
| "check_planes M d opt halves m (Suc f) j =
     (if j = m then ret True else bnd (plane_at halves j) (\<lambda>h.
      if dlt (dot_loop M opt h) (dmul M (of_i (- int d)) (EPS M)) then ret False
      else bnd (get_nxt j) (check_planes M d opt halves m f)))"

definition print_solution :: "platform \<Rightarrow> lp_problem \<Rightarrow> lp_status \<Rightarrow> double list \<Rightarrow> (links, lp_report) comp" where
  "print_solution M p status opt =
     (let d = lp_dim p; m = lp_size p; w = opt ! d in
      if status = Infeasible then ret No_Solution
      else (case lp_type p of
          Projective \<Rightarrow> bnd (check_planes M d opt (rows_of (d + 1) (lp_halves p)) m (Suc m) 0) (\<lambda>ok.
            ret (Projective_Point status (map (\<lambda>x. if deq w (Fin 0) then x else ddiv M x w) (take d opt)) (deq w (Fin 0)) (\<not> ok)))
        | Real_Kind \<Rightarrow> ret (Real_Point status opt)))"

text \<open>The rounds: \<open>rs r\<close> are the values of \<open>rand()\<close> in round \<open>r\<close>; every round links all planes again.\<close>

fun solve_rounds :: "platform \<Rightarrow> int \<Rightarrow> (nat \<Rightarrow> nat \<Rightarrow> nat) \<Rightarrow> lp_problem \<Rightarrow> nat \<Rightarrow> nat \<Rightarrow> lp_status \<Rightarrow> double list \<Rightarrow>
    (links, lp_status \<times> double list) comp" where
  "solve_rounds M junk rs p r 0 status opt = ret (status, opt)"
| "solve_rounds M junk rs p r (Suc k) status opt =
     (let m = lp_size p; (ns, ps) = plane_lists m (randperm (rs r) (m - 1)) in
      bnd (put_st (\<lambda>_. \<lparr> nxt = ns, prv = ps \<rparr>)) (\<lambda>_.
      bnd (linprog M junk (int m) (lp_dim p) opt (rows_of (lp_dim p + 1) (lp_halves p)) m (lp_n_vec p) (lp_d_vec p)) (\<lambda>(status, opt).
        solve_rounds M junk rs p (Suc r) k status opt)))"

text \<open>
  With fewer than two planes \<open>perm\<close> has no entry to read, and without a round \<open>opt\<close> is printed
  uninitialised. The sizes of the arrays and the indices into them are
  computed in 32 bits; when they do not fit, the accesses go wrong.
\<close>

definition array_sizes_fit :: "nat \<Rightarrow> nat \<Rightarrow> bool" where
  "array_sizes_fit d m \<longleftrightarrow> m * (d + 1) < 2 ^ 31 \<and> (m + 3) * (d + 2) * (d - 1) < 2 ^ 31"

definition do_lp :: "platform \<Rightarrow> int \<Rightarrow> (nat \<Rightarrow> nat \<Rightarrow> nat) \<Rightarrow> int \<Rightarrow> lp_input \<Rightarrow> lp_report result option" where
  "do_lp M junk rs repeat inp = (case read_lp M inp of
     Inl e \<Rightarrow> Some (Inl e)
   | Inr None \<Rightarrow> Some (Inr Parse_Error)
   | Inr (Some p) \<Rightarrow> if lp_size p < 2 \<or> repeat < 1 \<or> \<not> array_sizes_fit (lp_dim p) (lp_size p) then Some (Inl Undefined)
       else map_option fst (bnd (solve_rounds M junk rs p 0 (nat repeat) Ambiguous (replicate (lp_dim p + 1) (Fin 0)))
         (\<lambda>(status, opt). print_solution M p status opt) \<lparr> nxt = [], prv = [] \<rparr>))"

section \<open>The program ends with a report\<close>

lemma length_unit_row [simp]: "length (unit_row M d row) = length row"
  by (auto simp: unit_row_def lp_d_unit_def Let_def)










text \<open>
  In one dimension it is different: there \<open>move_to_front\<close> runs with the marker itself behind the last
  plane, takes it for a plane because its fourth argument is missing, and writes \<open>prev[m]\<close>.
\<close>

lemma line_rows: "read_rows exact 1 3 [Fin 1, Fin 0, Fin 1, Fin 0, Fin 0, Fin 1] = [Fin 1, Fin 0, Fin 1, Fin 0, Fin 0, Fin 1]"
proof -
  have "unit_row exact 1 [Fin 1, Fin 0] = [Fin 1, Fin 0]" "unit_row exact 1 [Fin 0, Fin 1] = [Fin 0, Fin 1]"
    by (simp_all add: unit_row_def lp_d_unit_def dot_loop_def EPS_def dmul_def dadd_def ddiv_def of_i_def)
  then show ?thesis by (simp add: read_rows_def numeral_3_eq_3 numeral_2_eq_2)
qed

lemma line_links: "plane_lists 3 (randperm (\<lambda>_. 0) 2) = ([1, 2, 3], [1234567890, 0, 1])"
proof -
  have "randperm (\<lambda>_. 0) 2 = [0, 1]" by (simp add: randperm_def numeral_2_eq_2)
  then show ?thesis by (simp add: plane_lists_def numeral_3_eq_3)
qed

lemma line_overflows:
  assumes h: "h = rows_of 2 [Fin 1, Fin 0, Fin 1, Fin 0, Fin 0, Fin 1]" and f: "f = Suc (Suc (Suc k))"
  shows "wedge exact (- 1) h 3 f \<lparr> nxt = [1, 2, 3], prv = [1234567890, 0, 1] \<rparr> = Some (Inl Undefined, \<lparr> nxt = [1, 3, 3], prv = [1234567890, 0, 1] \<rparr>)"
proof -
  have rows: "h 0 = Some [Fin 1, Fin 0]" "h (Suc 0) = Some [Fin 1, Fin 0]" "h 2 = Some [Fin 0, Fin 1]"
    by (simp_all add: h rows_of_def)
  have first: "unit2 exact (Fin 1, Fin 0) = Some (Fin 1, Fin 0)"
    by (simp add: unit2_def two_EPS_def EPS_def dmul_def dadd_def ddiv_def)
  have steps: "wedge_step exact (Fin 0, Fin (- 1)) (NZero, Fin 1) (Fin 1, Fin 0) = Some ((Fin 0, Fin (- 1)), (NZero, Fin 1), False, False)"
    "\<exists>cw. wedge_step exact (Fin 0, Fin (- 1)) (NZero, Fin 1) (Fin 0, Fin 1) = Some (cw, (NZero, Fin 1), True, False)"
    by (simp_all add: wedge_step_def Let_def dot2_def cross2_def two_EPS_def EPS_def dmul_def dadd_def dsub_def)
  then obtain cw where "wedge_step exact (Fin 0, Fin (- 1)) (NZero, Fin 1) (Fin 0, Fin 1) = Some (cw, (NZero, Fin 1), True, False)" by blast
  then show ?thesis using rows first steps(1)
    by (simp add: f wedge_def half_at_def plane_at_def move_to_front_def run_simps get_nxt_def get_prv_def set_nxt_def set_prv_def)
qed

theorem do_lp_one_dimension_overflows:
  "do_lp exact (- 1) (\<lambda>_ _. 0) 1 \<lparr> header = Some (1, 3), type_word = Some ''projective'',
     conversions = [Fin 1, Fin 1, Fin 0, Fin 1, Fin 0, Fin 0, Fin 1] \<rparr> = Some (Inl Undefined)"
proof -
  have "read_lp exact \<lparr> header = Some (1, 3), type_word = Some ''projective'',
     conversions = [Fin 1, Fin 1, Fin 0, Fin 1, Fin 0, Fin 0, Fin 1] \<rparr> =
    Inr (Some \<lparr> lp_dim = 1, lp_size = 3, lp_n_vec = [Fin 1, Fin 0], lp_d_vec = [Fin 0, Fin 1],
      lp_halves = [Fin 1, Fin 0, Fin 1, Fin 0, Fin 0, Fin 1], lp_type = Projective \<rparr>)"
    using line_rows by (simp add: read_lp_def)
  moreover have "linprog exact (- 1) 3 1 opt (rows_of 2 [Fin 1, Fin 0, Fin 1, Fin 0, Fin 0, Fin 1]) 3 [Fin 1, Fin 0] [Fin 0, Fin 1]
      \<lparr> nxt = [1, 2, 3], prv = [1234567890, 0, 1] \<rparr> = Some (Inl Undefined, \<lparr> nxt = [1, 3, 3], prv = [1234567890, 0, 1] \<rparr>)" for opt
    using line_overflows [OF refl, of 4 1] by (simp add: lp_base_case_def bnd_run)
  ultimately show ?thesis using line_links
    by (simp add: do_lp_def array_sizes_fit_def bnd_run put_st_run numeral_2_eq_2 [symmetric] del: linprog.simps)
qed

text \<open>A single plane, or no round, makes the program read memory it has not written.\<close>

theorem do_lp_too_small:
  assumes "read_lp M inp = Inr (Some p)" and "lp_size p < 2 \<or> repeat < 1"
  shows "do_lp M junk rs repeat inp = Some (Inl Undefined)"
  using assms by (auto simp: do_lp_def)

theorem do_lp_too_small_witness:
  "do_lp exact 0 (\<lambda>_ _. 0) 1 \<lparr> header = Some (2, 1), type_word = Some ''real'', conversions = replicate 6 (Fin 1) \<rparr> = Some (Inl Undefined)"
  by (rule do_lp_too_small [where p = "\<lparr> lp_dim = 2, lp_size = 1, lp_n_vec = replicate 3 (Fin 1), lp_d_vec = replicate 3 (Fin 0),
      lp_halves = read_rows exact 2 1 (replicate 3 (Fin 1)), lp_type = Real_Kind \<rparr>"])
    (simp_all add: read_lp_def numeral_eq_Suc)

end
